(* ===== verification/Timpani_Prelude.thy ===== *)
theory Timpani_Prelude
  imports Main "HOL-Library.Word" "HOL-Library.State_Monad"
begin

unbundle bit_operations_syntax

text \<open>
  Shared vocabulary of the development: the C integer types as words, bytes and the
  representation of integers in memory, C strings held in fixed-size character arrays, the
  number parsing of the C library that the command lines use, and the generic facts on words,
  lists and the state monad that the component theories rewrite with.
\<close>

section \<open>Rule collections\<close>

named_theorems c_string \<open>facts on C strings and character arrays\<close>
named_theorems byte_order \<open>facts on the byte representation of integers\<close>
named_theorems buf_simps \<open>effect of the serial buffer operations on contents and layout\<close>
named_theorems os_simps \<open>how the model of the operating system records and answers calls\<close>
named_theorems only_intros \<open>which calls an operation may issue\<close>

section \<open>Machine integers\<close>

type_synonym u8 = "8 word"
type_synonym u16 = "16 word"
type_synonym u32 = "32 word"
type_synonym u64 = "64 word"
type_synonym byte = "8 word"

text \<open>Error numbers, and the exit codes of a program.\<close>

definition EAGAIN :: int where "EAGAIN = 11"
definition EINTR :: int where "EINTR = 4"
definition EXIT_SUCCESS :: int where "EXIT_SUCCESS = 0"
definition EXIT_FAILURE :: int where "EXIT_FAILURE = 1"

text \<open>
  A C \<^verbatim>\<open>int\<close> whose arithmetic matters is a \<^typ>\<open>32 word\<close> read with \<^term>\<open>sint\<close>; one that is only
  compared and passed on is a HOL integer in the range of the type. Conversion of a wider
  integer to \<^verbatim>\<open>int\<close> keeps the low 32 bits.
\<close>

definition to_int32 :: "int \<Rightarrow> int" where
  "to_int32 i = sint (word_of_int i :: u32)"

lemma to_int32_id: "- (2 ^ 31) \<le> i \<Longrightarrow> i < 2 ^ 31 \<Longrightarrow> to_int32 i = i"
  by (simp add: to_int32_def sint_sbintrunc' signed_take_bit_int_eq_self)

lemma to_int32_range: "- (2 ^ 31) \<le> to_int32 i \<and> to_int32 i < 2 ^ 31"
  using sint_greater_eq [of "word_of_int i :: u32"] sint_less [of "word_of_int i :: u32"]
  by (simp add: to_int32_def)

subsection \<open>Powers of two and masks\<close>

text \<open>
  The C idiom \<^verbatim>\<open>x & (x - 1)\<close> clears the lowest set bit; it yields zero exactly for zero and
  for the powers of two, and then \<^verbatim>\<open>e & (x - 1)\<close> is the remainder of \<^verbatim>\<open>e\<close> by \<^verbatim>\<open>x\<close>.
\<close>

lemma nat_and_pred_eq_zero_imp_exp:
  assumes "(n::nat) AND (n - 1) = 0" and "0 < n"
  shows "\<exists>k. n = 2 ^ k"
  using assms
proof (induction n rule: less_induct)
  case (less n)
  show ?case
  proof (cases "even n")
    case True
    then obtain m where m: "n = 2 * m" by (elim evenE)
    with less.prems(2) have mpos: "0 < m" by simp
    then have pred: "(2 * m - Suc 0) div 2 = m - 1" by simp
    have "n AND (n - 1) = 2 * (m AND (m - 1))"
      by (subst and_rec) (simp add: m pred)
    with less.prems(1) have "m AND (m - 1) = 0" by simp
    moreover have "m < n" using m mpos by simp
    ultimately obtain k where "m = 2 ^ k" using less.IH mpos by blast
    with m have "n = 2 ^ Suc k" by simp
    then show ?thesis by blast
  next
    case False
    then obtain m where m: "n = 2 * m + 1" by (elim oddE)
    have "n AND (n - 1) = 2 * (m AND m)"
      unfolding m by (subst and_rec) simp
    with less.prems(1) m have "n = 2 ^ 0" by simp
    then show ?thesis by blast
  qed
qed

lemma unat_minus_one: "x \<noteq> 0 \<Longrightarrow> unat (x - 1) = unat x - 1"
  for x :: "'a::len word"
  by (simp add: unat_minus_one)

lemma and_pred_exp_eq_mod:
  fixes x e :: "'a::len word"
  assumes "x AND (x - 1) = 0" and "x \<noteq> 0"
  shows "e AND (x - 1) = e mod x"
proof -
  have pos: "0 < unat x" using assms(2) by (simp add: unat_gt_0)
  have "unat (x AND (x - 1)) = unat x AND (unat x - 1)"
    by (simp add: unsigned_and_eq unat_minus_one assms(2))
  with assms(1) have "unat x AND (unat x - 1) = 0" by simp
  with pos obtain k where k: "unat x = 2 ^ k"
    using nat_and_pred_eq_zero_imp_exp by blast
  have "unat (e AND (x - 1)) = unat e AND (2 ^ k - 1)"
    by (simp add: unsigned_and_eq unat_minus_one assms(2) k)
  also have "\<dots> = unat e mod 2 ^ k"
    by (metis mask_eq_exp_minus_1 take_bit_eq_mask take_bit_eq_mod)
  also have "\<dots> = unat (e mod x)"
    by (simp add: unat_mod k)
  finally show ?thesis by (simp add: word_unat_eq_iff)
qed

section \<open>Integers in memory\<close>

text \<open>
  \<open>to_le n x\<close> is the little-endian memory image of the low \<open>n\<close> bytes of \<open>x\<close>, \<open>of_le\<close> reads an
  image back. On a host of the other byte order the image is reversed: \<open>store\<close> and
  \<open>load\<close> take the byte order of the host (\<^term>\<open>True\<close> for little-endian) as their first argument.
\<close>

primrec to_le :: "nat \<Rightarrow> 'a::len word \<Rightarrow> byte list" where
  "to_le 0 x = []"
| "to_le (Suc n) x = ucast x # to_le n (drop_bit 8 x)"

fun of_le :: "byte list \<Rightarrow> 'a::len word" where
  "of_le [] = 0"
| "of_le (b # bs) = ucast b OR push_bit 8 (of_le bs)"

definition store :: "bool \<Rightarrow> nat \<Rightarrow> 'a::len word \<Rightarrow> byte list" where
  "store le n x = (if le then to_le n x else rev (to_le n x))"

definition load :: "bool \<Rightarrow> byte list \<Rightarrow> 'a::len word" where
  "load le bs = (if le then of_le bs else of_le (rev bs))"

text \<open>The C library's \<^verbatim>\<open>bswap_16\<close>, \<^verbatim>\<open>bswap_32\<close> and \<^verbatim>\<open>bswap_64\<close> reverse the bytes of a value.\<close>

definition bswap :: "nat \<Rightarrow> 'a::len word \<Rightarrow> 'a word" where
  "bswap n x = of_le (rev (to_le n x))"

lemma to_le_numeral: "to_le (numeral k) x = ucast x # to_le (pred_numeral k) (drop_bit 8 x)"
  by (simp add: numeral_eq_Suc)

lemma length_to_le [simp, byte_order]: "length (to_le n x) = n"
  by (induction n arbitrary: x) simp_all

lemma length_store [simp, byte_order]: "length (store le n x) = n"
  by (simp add: store_def)

lemma of_le_to_le: "of_le (to_le n x) = take_bit (8 * n) (x :: 'a::len word)"
proof (induction n arbitrary: x)
  case 0
  show ?case by simp
next
  case (Suc n)
  show ?case
    by (rule bit_word_eqI)
      (auto simp: Suc.IH bit_or_iff bit_push_bit_iff bit_take_bit_iff bit_drop_bit_eq
        bit_unsigned_iff bit_imp_le_length)
qed

lemma of_le_to_le_full: "LENGTH('a) \<le> 8 * n \<Longrightarrow> of_le (to_le n x) = (x :: 'a::len word)"
  by (simp add: of_le_to_le take_bit_word_eq_self)

lemma to_le_cong:
  "take_bit (8 * n) x = take_bit (8 * n) y \<Longrightarrow> to_le n x = to_le n (y :: 'a::len word)"
proof (induction n arbitrary: x y)
  case 0
  show ?case by simp
next
  case (Suc n)
  then have bits: "bit x i \<longleftrightarrow> bit y i" if "i < 8 + 8 * n" for i
    using that by (metis bit_take_bit_iff mult_Suc_right)
  have "take_bit (8 * n) (drop_bit 8 x) = take_bit (8 * n) (drop_bit 8 y)"
    by (rule bit_word_eqI) (simp add: bit_take_bit_iff bit_drop_bit_eq bits cong: conj_cong)
  then have "to_le n (drop_bit 8 x) = to_le n (drop_bit 8 y)"
    by (rule Suc.IH)
  moreover have "(ucast x :: byte) = ucast y"
    by (rule bit_word_eqI) (simp add: bit_unsigned_iff bits cong: conj_cong)
  ultimately show ?case by simp
qed

lemma to_le_of_le_bytes:
  "length bs = n \<Longrightarrow> 8 * n \<le> LENGTH('a) \<Longrightarrow> to_le n (of_le bs :: 'a::len word) = bs"
proof (induction bs arbitrary: n)
  case Nil
  then show ?case by simp
next
  case (Cons b bs)
  let ?w = "of_le (b # bs) :: 'a word"
  from Cons.prems obtain m where n: "n = Suc m" and m: "length bs = m" and w: "8 * Suc m \<le> LENGTH('a)"
    by auto
  have hd: "(ucast ?w :: byte) = b"
    by (rule bit_word_eqI)
      (use w in \<open>auto simp: bit_unsigned_iff bit_or_iff bit_push_bit_iff\<close>)
  have "take_bit (8 * m) (drop_bit 8 ?w) = take_bit (8 * m) (of_le bs :: 'a word)"
    by (rule bit_word_eqI)
      (use w in \<open>auto simp: bit_take_bit_iff bit_drop_bit_eq bit_or_iff bit_push_bit_iff
        bit_unsigned_iff dest: bit_imp_le_length\<close>)
  then have "to_le m (drop_bit 8 ?w) = to_le m (of_le bs :: 'a word)"
    by (rule to_le_cong)
  also have "\<dots> = bs" using Cons.IH [OF m] w by simp
  finally show ?case by (simp add: n hd del: of_le.simps)
qed

lemma load_store [simp, byte_order]:
  "LENGTH('a) \<le> 8 * n \<Longrightarrow> load le (store le n x) = (x :: 'a::len word)"
  by (simp add: load_def store_def of_le_to_le_full)

lemma bswap_bswap [simp, byte_order]:
  "LENGTH('a) = 8 * n \<Longrightarrow> bswap n (bswap n x) = (x :: 'a::len word)"
  by (simp add: bswap_def to_le_of_le_bytes of_le_to_le_full)

lemma to_le_bswap [byte_order]:
  "LENGTH('a) = 8 * n \<Longrightarrow> to_le n (bswap n (x :: 'a::len word)) = rev (to_le n x)"
  by (simp add: bswap_def to_le_of_le_bytes)

section \<open>C strings\<close>

text \<open>
  A C string is the bytes before the first NUL. A field \<^verbatim>\<open>char f[N]\<close> is modelled by the C string
  it holds; \<open>fits N s\<close> says that \<open>s\<close> with its terminator is such a content.
\<close>

abbreviation NUL :: char where
  "NUL \<equiv> CHR 0x00"

definition cstr :: "string \<Rightarrow> string" where
  "cstr s = takeWhile (\<lambda>c. c \<noteq> NUL) s"

definition fits :: "nat \<Rightarrow> string \<Rightarrow> bool" where
  "fits n s \<longleftrightarrow> NUL \<notin> set s \<and> length s < n"

text \<open>
  \<^verbatim>\<open>strncpy(f, s, N - 1)\<close> into an array of \<open>N\<close> bytes whose last byte is NUL; and
  the comparison \<^verbatim>\<open>strncmp(a, b, n) == 0\<close>.
\<close>

definition strncpy_field :: "nat \<Rightarrow> string \<Rightarrow> string" where
  "strncpy_field n s = take (n - 1) (cstr s)"

definition strncmp_eq :: "string \<Rightarrow> string \<Rightarrow> nat \<Rightarrow> bool" where
  "strncmp_eq a b n \<longleftrightarrow> take n (cstr a) = take n (cstr b)"

lemma NUL_notin_cstr [simp, c_string]: "NUL \<notin> set (cstr s)"
  by (auto simp: cstr_def dest: set_takeWhileD)

lemma cstr_id [c_string]: "NUL \<notin> set s \<Longrightarrow> cstr s = s"
  by (auto simp: cstr_def takeWhile_eq_all_conv)

lemma cstr_cstr [simp, c_string]: "cstr (cstr s) = cstr s"
  by (simp add: cstr_id)

lemma length_cstr [c_string]: "length (cstr s) \<le> length s"
  by (simp add: cstr_def length_takeWhile_le)

lemma fits_strncpy_field [simp, intro, c_string]: "0 < n \<Longrightarrow> fits n (strncpy_field n s)"
  using NUL_notin_cstr [of s]
  by (auto simp: fits_def strncpy_field_def dest: in_set_takeD)

lemma strncpy_field_fits [c_string]: "fits n s \<Longrightarrow> strncpy_field n s = s"
  by (auto simp: fits_def strncpy_field_def cstr_id)

lemma fits_mono: "fits m s \<Longrightarrow> m \<le> n \<Longrightarrow> fits n s"
  by (auto simp: fits_def)

lemma strncmp_eq_refl [simp, c_string]: "strncmp_eq a a n"
  by (simp add: strncmp_eq_def)

text \<open>The bytes of a string and back.\<close>

definition bytes_of :: "string \<Rightarrow> byte list" where
  "bytes_of s = map of_char s"

definition string_of :: "byte list \<Rightarrow> string" where
  "string_of bs = map (\<lambda>b. char_of (unat b)) bs"

lemma unat_of_char_byte [simp]: "unat (of_char c :: byte) = of_char c"
proof -
  have "(of_char c :: byte) = word_of_nat (of_char c)"
    by (simp add: of_nat_of_char)
  then show ?thesis by (simp add: unat_of_nat)
qed

lemma length_bytes_of [simp, c_string]: "length (bytes_of s) = length s"
  by (simp add: bytes_of_def)

lemma length_string_of [simp, c_string]: "length (string_of bs) = length bs"
  by (simp add: string_of_def)

lemma string_of_bytes_of [simp, c_string]: "string_of (bytes_of s) = s"
  by (simp add: string_of_def bytes_of_def comp_def)

section \<open>Decimal numbers\<close>

text \<open>
  \<open>atoi\<close> is the C library's: white space, an optional sign, decimal digits up to the first other
  character; the value saturates at the bounds of \<^verbatim>\<open>long\<close> and is converted to \<^verbatim>\<open>int\<close>.
  \<open>decimal\<close> is the text \<^verbatim>\<open>printf\<close> writes for \<^verbatim>\<open>%d\<close> of a non-negative number.
\<close>

definition is_space :: "char \<Rightarrow> bool" where
  "is_space c \<longleftrightarrow> c \<in> {CHR '' '', CHR 0x09, CHR 0x0A, CHR 0x0B, CHR 0x0C, CHR 0x0D}"

definition is_digit :: "char \<Rightarrow> bool" where
  "is_digit c \<longleftrightarrow> 48 \<le> (of_char c :: nat) \<and> (of_char c :: nat) \<le> 57"

fun digits_val :: "int \<Rightarrow> string \<Rightarrow> int" where
  "digits_val acc [] = acc"
| "digits_val acc (c # cs) =
     (if is_digit c then digits_val (10 * acc + (of_char c - 48)) cs else acc)"

definition strtol10 :: "string \<Rightarrow> int" where
  "strtol10 s =
     (let t = dropWhile is_space s;
          v = (case t of
                 [] \<Rightarrow> 0
               | c # cs \<Rightarrow> if c = CHR ''-'' then - digits_val 0 cs
                          else if c = CHR ''+'' then digits_val 0 cs
                          else digits_val 0 t)
      in max (- (2 ^ 63)) (min (2 ^ 63 - 1) v))"

definition atoi :: "string \<Rightarrow> int" where
  "atoi s = to_int32 (strtol10 (cstr s))"

fun decimal :: "nat \<Rightarrow> string" where
  "decimal n = (if n < 10 then [char_of (48 + n)]
                else decimal (n div 10) @ [char_of (48 + n mod 10)])"

declare decimal.simps [simp del]

text \<open>The text of \<^verbatim>\<open>%d\<close> for any integer.\<close>

definition printf_d :: "int \<Rightarrow> string" where
  "printf_d i = (if i < 0 then CHR ''-'' # decimal (nat (- i)) else decimal (nat i))"

lemma of_char_digit: "n < 10 \<Longrightarrow> of_char (char_of (48 + n)) = (48 + n :: nat)"
  by simp

lemma of_char_digit_int: "n < 10 \<Longrightarrow> of_char (char_of (48 + n)) = (48 + int n)"
  using of_nat_of_char [of "char_of (48 + n)", where 'a = int] by (simp add: of_char_digit)

lemma digits_val_append:
  "list_all is_digit xs \<Longrightarrow> digits_val acc (xs @ ys) = digits_val (digits_val acc xs) ys"
  by (induction xs arbitrary: acc) simp_all

lemma is_digit_char_of: "n < 10 \<Longrightarrow> is_digit (char_of (48 + n))" for n :: nat
  by (simp add: is_digit_def)

lemma decimal_digits: "list_all is_digit (decimal n)"
proof (induction n rule: decimal.induct)
  case (1 n)
  then show ?case
    by (subst decimal.simps) (auto simp: is_digit_char_of)
qed

lemma digits_val_decimal: "digits_val 0 (decimal n) = int n"
proof (induction n rule: decimal.induct)
  case (1 n)
  show ?case
  proof (cases "n < 10")
    case True
    then show ?thesis
      by (subst decimal.simps) (simp add: is_digit_char_of of_char_digit_int)
  next
    case False
    with "1.IH" have "digits_val 0 (decimal (n div 10)) = int (n div 10)" by simp
    moreover have "int n = 10 * int (n div 10) + int (n mod 10)" by presburger
    ultimately show ?thesis using False
      by (subst decimal.simps)
        (simp add: digits_val_append decimal_digits is_digit_char_of of_char_digit_int)
  qed
qed

lemma decimal_cons: "\<exists>c cs. decimal n = c # cs \<and> is_digit c"
proof -
  have "decimal n \<noteq> []" by (subst decimal.simps) simp
  with decimal_digits [of n] show ?thesis by (cases "decimal n") auto
qed

lemma atoi_decimal: "n < 2 ^ 31 \<Longrightarrow> atoi (decimal n) = int n"
proof -
  assume n: "n < 2 ^ 31"
  obtain c cs where cs: "decimal n = c # cs" and c: "is_digit c"
    using decimal_cons by blast
  have "NUL \<notin> set (decimal n)"
    using decimal_digits [of n] by (auto simp: list_all_iff is_digit_def)
  moreover have "\<not> is_space c" "c \<noteq> CHR ''-''" "c \<noteq> CHR ''+''"
    using c by (auto simp: is_space_def is_digit_def)
  ultimately have "strtol10 (cstr (decimal n)) = int n"
    using digits_val_decimal [of n] n by (simp add: strtol10_def cstr_id cs)
  then show ?thesis using n by (simp add: atoi_def to_int32_id)
qed

end
