(* ===== verification/Cxx_Std.thy ===== *)
theory Cxx_Std
  imports Complex_Main Timpani_Prelude "HOL-Library.List_Lexorder" "HOL-Library.Char_ord"
begin

text \<open>
  What the orchestrator uses of the C++ standard library: \<^verbatim>\<open>std::map\<close> (an association list in the order of
  its keys, which is the order of iteration), \<^verbatim>\<open>std::set\<close> of integers, \<^verbatim>\<open>std::stoi\<close>, \<^verbatim>\<open>std::to_string\<close>,
  \<^verbatim>\<open>std::getline\<close> and the trimming of strings, and \<^verbatim>\<open>double\<close> arithmetic. A double is a real number
  that a rounding function has produced; the function is an argument of every operation
  that computes with doubles.
\<close>

section \<open>Ordered maps\<close>

text \<open>\<^verbatim>\<open>std::string\<close> is compared by character code, as lists of characters are here.\<close>

type_synonym ('k, 'v) omap = "('k \<times> 'v) list"

abbreviation omap_find :: "('k, 'v) omap \<Rightarrow> 'k \<Rightarrow> 'v option" where
  "omap_find \<equiv> map_of"

fun omap_put :: "'k::linorder \<Rightarrow> 'v \<Rightarrow> ('k, 'v) omap \<Rightarrow> ('k, 'v) omap" where
  "omap_put k v [] = [(k, v)]"
| "omap_put k v ((k', v') # m) =
     (if k < k' then (k, v) # (k', v') # m
      else if k = k' then (k, v) # m
      else (k', v') # omap_put k v m)"

definition omap_erase :: "'k \<Rightarrow> ('k, 'v) omap \<Rightarrow> ('k, 'v) omap" where
  "omap_erase k m = filter (\<lambda>e. fst e \<noteq> k) m"

text \<open>\<^verbatim>\<open>operator[]\<close>: a missing key gets the default value.\<close>

definition omap_at :: "'v \<Rightarrow> 'k \<Rightarrow> ('k, 'v) omap \<Rightarrow> 'v" where
  "omap_at d k m = (case omap_find m k of None \<Rightarrow> d | Some v \<Rightarrow> v)"

definition omap_ok :: "('k::linorder, 'v) omap \<Rightarrow> bool" where
  "omap_ok m \<longleftrightarrow> sorted_wrt (<) (map fst m)"

text \<open>The interface of a map, and what follows for a series of insertions.\<close>

locale finite_store =
  fixes get :: "'m \<Rightarrow> 'k \<Rightarrow> 'v option"
    and put :: "'k \<Rightarrow> 'v \<Rightarrow> 'm \<Rightarrow> 'm"
    and erase :: "'k \<Rightarrow> 'm \<Rightarrow> 'm"
    and ok :: "'m \<Rightarrow> bool"
  assumes get_put: "ok m \<Longrightarrow> get (put k v m) k' = (if k' = k then Some v else get m k')"
    and get_erase: "ok m \<Longrightarrow> get (erase k m) k' = (if k' = k then None else get m k')"
    and ok_put: "ok m \<Longrightarrow> ok (put k v m)"
    and ok_erase: "ok m \<Longrightarrow> ok (erase k m)"
begin

lemma fold_put_ok: "ok m \<Longrightarrow> ok (fold (\<lambda>x. put (f x) (g x)) xs m)"
  by (induction xs arbitrary: m) (simp_all add: ok_put)

lemma get_fold_put_notin: "ok m \<Longrightarrow> k \<notin> f ` set xs \<Longrightarrow> get (fold (\<lambda>x. put (f x) (g x)) xs m) k = get m k"
  by (induction xs arbitrary: m) (auto simp: ok_put get_put)

lemma get_fold_put:
  "ok m \<Longrightarrow> distinct (map f xs) \<Longrightarrow> x \<in> set xs \<Longrightarrow> get (fold (\<lambda>x. put (f x) (g x)) xs m) (f x) = Some (g x)"
proof (induction xs arbitrary: m)
  case (Cons y ys)
  show ?case
  proof (cases "x = y")
    case True
    with Cons.prems show ?thesis by (simp add: get_fold_put_notin ok_put get_put)
  qed (use Cons.prems in \<open>simp add: Cons.IH ok_put\<close>)
qed simp

text \<open>Counting the keys of a list.\<close>

lemma get_fold_count:
  assumes "ok m"
  shows "get (fold (\<lambda>x m. put (f x) (upd x (get m (f x))) m) xs m) k =
    foldl (\<lambda>v x. if f x = k then Some (upd x v) else v) (get m k) xs"
  using assms by (induction xs arbitrary: m) (simp_all add: ok_put get_put)

end

lemma omap_put_keys: "fst ` set (omap_put k v m) = insert k (fst ` set m)"
  by (induction k v m rule: omap_put.induct) auto

lemma omap_find_put: "omap_find (omap_put k v m) = (omap_find m)(k \<mapsto> v)"
  if "omap_ok m" for m :: "('k::linorder, 'v) omap"
  using that
proof (induction k v m rule: omap_put.induct)
  case (2 k v k' v' m)
  from 2(2) have ok: "omap_ok m" and less: "\<forall>x\<in>fst ` set m. k' < x" by (auto simp: omap_ok_def)
  show ?case
  proof (cases "k < k'")
    case False
    then show ?thesis using 2(1) ok by (auto simp: fun_eq_iff)
  qed (auto simp: fun_eq_iff)
qed auto

lemma omap_ok_put: "omap_ok m \<Longrightarrow> omap_ok (omap_put k v m)"
proof (induction k v m rule: omap_put.induct)
  case (2 k v k' v' m)
  then show ?case using omap_put_keys [of k v m] by (auto simp: omap_ok_def)
qed (simp add: omap_ok_def)

lemma omap_ok_erase: "omap_ok m \<Longrightarrow> omap_ok (omap_erase k m)"
  by (induction m) (auto simp: omap_ok_def omap_erase_def)

lemma omap_find_erase: "omap_find (omap_erase k m) k' = (if k' = k then None else omap_find m k')"
  by (induction m) (auto simp: omap_erase_def)

interpretation sm: finite_store "omap_find :: ('k::linorder, 'v) omap \<Rightarrow> 'k \<Rightarrow> 'v option" omap_put omap_erase omap_ok
  by unfold_locales (simp_all add: omap_find_put omap_find_erase omap_ok_put omap_ok_erase)

lemma omap_ok_Nil [simp]: "omap_ok []"
  by (simp add: omap_ok_def)

lemma omap_distinct: "omap_ok m \<Longrightarrow> distinct (map fst m)"
  by (auto simp: omap_ok_def strict_sorted_iff)

lemma omap_find_mem: "omap_ok m \<Longrightarrow> (k, v) \<in> set m \<longleftrightarrow> omap_find m k = Some v"
  by (drule omap_distinct) simp

text \<open>Two maps with the same entries are equal.\<close>

lemma omap_eq_iff:
  fixes m m' :: "('k::linorder, 'v) omap"
  assumes "omap_ok m" and "omap_ok m'"
  shows "m = m' \<longleftrightarrow> (\<forall>k. omap_find m k = omap_find m' k)"
proof
  assume eq: "\<forall>k. omap_find m k = omap_find m' k"
  have "set m = set m'" using eq omap_find_mem [OF assms(1)] omap_find_mem [OF assms(2)] by auto
  moreover have "sorted_wrt (\<lambda>x y. fst x < fst y) m" "sorted_wrt (\<lambda>x y. fst x < fst y) m'"
    using assms by (simp_all add: omap_ok_def sorted_wrt_map)
  ultimately show "m = m'"
  proof (induction m arbitrary: m')
    case (Cons x xs)
    then obtain y ys where m': "m' = y # ys" by (cases m') auto
    have "x = y"
    proof (rule ccontr)
      assume "x \<noteq> y"
      then have "x \<in> set ys" "y \<in> set xs" using Cons.prems(1) m' by auto
      then have "fst y < fst x" "fst x < fst y" using Cons.prems(2,3) m' by auto
      then show False by simp
    qed
    moreover have "x \<notin> set xs" "y \<notin> set ys" using Cons.prems(2,3) m' by auto
    ultimately have "set xs = set ys" using Cons.prems(1) m' by auto
    with Cons.IH [of ys] Cons.prems(2,3) m' \<open>x = y\<close> show ?case by simp
  qed simp
qed simp

section \<open>Numbers and text\<close>

text \<open>
  \<^verbatim>\<open>std::stoi\<close>: white space, an optional sign and at least one digit; a value outside of \<^verbatim>\<open>int\<close> and a
  text without a number throw, which is \<open>None\<close> here. What follows the digits is ignored.
\<close>

definition stoi :: "string \<Rightarrow> int option" where
  "stoi s =
     (let t = dropWhile is_space s;
          (neg, ds) = (case t of
             [] \<Rightarrow> (False, [])
           | c # cs \<Rightarrow> if c = CHR ''-'' then (True, cs) else if c = CHR ''+'' then (False, cs) else (False, t));
          v = (if neg then - digits_val 0 ds else digits_val 0 ds)
      in if takeWhile is_digit ds = [] \<or> v < - (2 ^ 31) \<or> v \<ge> 2 ^ 31 then None else Some v)"

abbreviation std_to_string :: "int \<Rightarrow> string" where
  "std_to_string \<equiv> printf_d"

lemma stoi_range: "stoi s = Some v \<Longrightarrow> - (2 ^ 31) \<le> v \<and> v < 2 ^ 31"
  by (auto simp: stoi_def Let_def case_prod_beta split: if_splits)

lemma stoi_decimal: "n < 2 ^ 31 \<Longrightarrow> stoi (decimal n) = Some (int n)"
proof -
  assume n: "n < 2 ^ 31"
  obtain c cs where cs: "decimal n = c # cs" and c: "is_digit c"
    using decimal_cons by blast
  have "\<not> is_space c" "c \<noteq> CHR ''-''" "c \<noteq> CHR ''+''"
    using c by (auto simp: is_space_def is_digit_def)
  then show ?thesis
    using digits_val_decimal [of n] n c by (simp add: stoi_def cs)
qed

text \<open>The trimming of blanks and tabs at both ends, as the code does it with \<^verbatim>\<open>erase\<close>.\<close>

definition is_blank :: "char \<Rightarrow> bool" where
  "is_blank c \<longleftrightarrow> c = CHR '' '' \<or> c = CHR 0x09"

definition trim :: "string \<Rightarrow> string" where
  "trim s = rev (dropWhile is_blank (rev (dropWhile is_blank s)))"

text \<open>
  \<^verbatim>\<open>std::getline\<close> until the end of the stream: the pieces between the delimiters; an empty piece after
  the last delimiter is not delivered.
\<close>

fun getlines :: "char \<Rightarrow> string \<Rightarrow> string list" where
  "getlines d [] = []"
| "getlines d (c # cs) =
     (if c = d then [] # getlines d cs
      else (case getlines d cs of [] \<Rightarrow> [[c]] | l # ls \<Rightarrow> (c # l) # ls))"

lemma getlines_piece:
  "d \<notin> set l \<Longrightarrow> getlines d (l @ d # r) = l # getlines d r"
proof (induction l)
  case (Cons c l)
  then show ?case by (cases l) auto
qed simp

lemma getlines_last: "d \<notin> set l \<Longrightarrow> l \<noteq> [] \<Longrightarrow> getlines d l = [l]"
proof (induction l)
  case (Cons c l)
  then show ?case by (cases l) auto
qed simp

section \<open>Double arithmetic\<close>

text \<open>
  The rounding function is the first argument. Conversions, quotients and sums round; a literal is the
  rounded value of its decimal.
\<close>

type_synonym double = real
type_synonym rounding = "real \<Rightarrow> real"

definition double_of_u64 :: "rounding \<Rightarrow> u64 \<Rightarrow> double" where
  "double_of_u64 rnd x = rnd (real (unat x))"

definition double_div :: "rounding \<Rightarrow> double \<Rightarrow> double \<Rightarrow> double" where
  "double_div rnd a b = rnd (a / b)"

definition double_add :: "rounding \<Rightarrow> double \<Rightarrow> double \<Rightarrow> double" where
  "double_add rnd a b = rnd (a + b)"

end
