(* ===== verification/Hyperperiod_Manager.thy ===== *)
theory Hyperperiod_Manager
  imports Cxx_Std
begin

text \<open>
  The orchestrator's tasks (\<^verbatim>\<open>timpani-o/src/task.h\<close>) and the hyperperiod of a workload
  (\<^verbatim>\<open>hyperperiod_manager.cpp\<close>, and the same arithmetic in \<^verbatim>\<open>scheduler_utils.cpp\<close>), computed on 64-bit
  numbers. The lemmas show that the computation is the least common multiple of the periods
  whenever that number fits, and what is stored for which workload.
\<close>

section \<open>Tasks\<close>

record otask =
  ot_name :: string
  ot_workload_id :: string
  ot_target_node :: string
  ot_priority :: int
  ot_policy :: int
  ot_period_us :: u64
  ot_runtime_us :: u64
  ot_deadline_us :: u64
  ot_execution_time :: int
  ot_deadline :: int
  ot_period :: int
  ot_release_time :: int
  ot_max_dmiss :: int
  ot_affinity :: string
  ot_cpu_affinity :: int
  ot_memory_mb :: int
  ot_dependencies :: string
  ot_cluster_requirement :: string
  ot_assigned_node :: string
  ot_assigned_cpu :: int

text \<open>The constructor; the fields it does not initialise (policy, release time, misses) are zero here.\<close>

definition new_task :: otask where
  "new_task = \<lparr>ot_name = [], ot_workload_id = [], ot_target_node = [], ot_priority = 0, ot_policy = 0,
     ot_period_us = 0, ot_runtime_us = 0, ot_deadline_us = 0, ot_execution_time = 0, ot_deadline = 0, ot_period = 0,
     ot_release_time = 0, ot_max_dmiss = 0, ot_affinity = [], ot_cpu_affinity = -1, ot_memory_mb = 64,
     ot_dependencies = [], ot_cluster_requirement = [], ot_assigned_node = [], ot_assigned_cpu = -1\<rparr>"

section \<open>Arithmetic\<close>

function Gcd64 :: "u64 \<Rightarrow> u64 \<Rightarrow> u64" where
  "Gcd64 a b = (if b \<noteq> 0 then Gcd64 b (a mod b) else a)"
  by auto
termination
  by (relation "measure (\<lambda>(a, b). unat b)") (auto simp: unat_mod unat_gt_0 intro!: mod_less_divisor)

declare Gcd64.simps [simp del]

definition Lcm64 :: "u64 \<Rightarrow> u64 \<Rightarrow> u64" where
  "Lcm64 a b = (if a = 0 \<or> b = 0 then 0 else (a div Gcd64 a b) * b)"

text \<open>The warning for more than an hour is only printed.\<close>

definition CalculateLcm :: "u64 list \<Rightarrow> u64" where
  "CalculateLcm periods = (case periods of [] \<Rightarrow> 0 | p # ps \<Rightarrow> foldl Lcm64 p ps)"

subsection \<open>scheduler\_utils\<close>

text \<open>The functions of \<^verbatim>\<open>scheduler_utils\<close> have no test for zero: \<open>None\<close> is the division by zero.\<close>

definition calculateGCD :: "u64 \<Rightarrow> u64 \<Rightarrow> u64" where
  "calculateGCD a b = Gcd64 a b"

definition calculateLCM :: "u64 \<Rightarrow> u64 \<Rightarrow> u64 option" where
  "calculateLCM a b = (let g = calculateGCD a b in if g = 0 then None else Some ((a div g) * b))"

primrec lcm_loop :: "u64 list \<Rightarrow> u64 \<Rightarrow> u64 option" where
  "lcm_loop [] r = Some r"
| "lcm_loop (p # ps) r = (case calculateLCM r p of None \<Rightarrow> None | Some r' \<Rightarrow> lcm_loop ps r')"

definition calculateHyperperiod :: "u64 list \<Rightarrow> u64 option" where
  "calculateHyperperiod periods = (case periods of [] \<Rightarrow> Some 0 | p # ps \<Rightarrow> lcm_loop ps p)"

section \<open>The manager\<close>

record hyperperiod_info =
  hi_workload_id :: string
  hi_hyperperiod_us :: u64
  hi_periods :: "u64 list"
  hi_task_count :: nat

type_synonym hyperperiod_map = "(string, hyperperiod_info) omap"

text \<open>A \<^verbatim>\<open>std::set\<close> of numbers is iterated in increasing order.\<close>

definition unique_periods :: "otask list \<Rightarrow> u64 list" where
  "unique_periods tasks = sort (remdups (map ot_period_us (filter (\<lambda>t. ot_period_us t > 0) tasks)))"

definition CalculateHyperperiod :: "string \<Rightarrow> otask list \<Rightarrow> hyperperiod_map \<Rightarrow> u64 \<times> hyperperiod_map" where
  "CalculateHyperperiod workload_id tasks m =
     (if tasks = [] then (0, m)
      else let workload_tasks = filter (\<lambda>t. ot_workload_id t = workload_id) tasks in
      if workload_tasks = [] then (0, m)
      else let periods = unique_periods workload_tasks in
      if periods = [] then (0, m)
      else let hyperperiod = CalculateLcm periods in
        (hyperperiod, omap_put workload_id \<lparr>hi_workload_id = workload_id, hi_hyperperiod_us = hyperperiod,
           hi_periods = periods, hi_task_count = length workload_tasks\<rparr> m))"

definition GetHyperperiodInfo :: "hyperperiod_map \<Rightarrow> string \<Rightarrow> hyperperiod_info option" where
  "GetHyperperiodInfo m workload_id = omap_find m workload_id"

definition ClearWorkload :: "string \<Rightarrow> hyperperiod_map \<Rightarrow> hyperperiod_map" where
  "ClearWorkload workload_id m = (case omap_find m workload_id of None \<Rightarrow> m | Some _ \<Rightarrow> omap_erase workload_id m)"

definition Clear :: "hyperperiod_map \<Rightarrow> hyperperiod_map" where
  "Clear m = (if m \<noteq> [] then [] else m)"

definition HasHyperperiod :: "hyperperiod_map \<Rightarrow> string \<Rightarrow> bool" where
  "HasHyperperiod m workload_id = (omap_find m workload_id \<noteq> None)"

section \<open>Correctness of the arithmetic\<close>

lemma Gcd64_gcd: "unat (Gcd64 a b) = gcd (unat a) (unat b)"
proof (induction a b rule: Gcd64.induct)
  case (1 a b)
  show ?case
  proof (cases "b = 0")
    case False
    then have "unat (Gcd64 a b) = gcd (unat b) (unat a mod unat b)"
      using 1 by (simp add: Gcd64.simps [of a b] unat_mod)
    then show ?thesis by (simp add: gcd_red_nat [symmetric])
  qed (simp add: Gcd64.simps)
qed

lemma Lcm64_lcm:
  assumes "lcm (unat a) (unat b) < 2 ^ 64"
  shows "unat (Lcm64 a b) = lcm (unat a) (unat b)"
proof (cases "a = 0 \<or> b = 0")
  case False
  have "unat (a div Gcd64 a b) * unat b = unat a div gcd (unat a) (unat b) * unat b"
    by (simp add: unat_div Gcd64_gcd)
  also have "\<dots> = lcm (unat a) (unat b)" by (simp add: lcm_nat_def dvd_div_mult)
  finally have eq: "unat (a div Gcd64 a b) * unat b = lcm (unat a) (unat b)" .
  then have "unat ((a div Gcd64 a b) * b) = unat (a div Gcd64 a b) * unat b"
    using assms by (subst unat_mult_lem [symmetric]) simp
  with False eq show ?thesis by (simp add: Lcm64_def)
qed (auto simp: Lcm64_def)

lemma foldl_Lcm64:
  assumes "Lcm (insert (unat r) (unat ` set ps)) < 2 ^ 64" and "0 \<notin> set ps" and "r \<noteq> 0"
  shows "unat (foldl Lcm64 r ps) = Lcm (insert (unat r) (unat ` set ps))"
  using assms
proof (induction ps arbitrary: r)
  case (Cons p ps)
  have all: "Lcm (insert (unat r) (unat ` set (p # ps))) = lcm (lcm (unat r) (unat p)) (Lcm (unat ` set ps))"
    by (simp add: lcm.assoc)
  have pos: "Lcm (insert (unat r) (unat ` set (p # ps))) \<noteq> 0"
    using Cons.prems(2,3) by (auto simp: Lcm_0_iff_nat unat_eq_zero)
  have "lcm (unat r) (unat p) \<le> Lcm (insert (unat r) (unat ` set (p # ps)))"
    using pos unfolding all by (intro dvd_imp_le dvd_lcm1) (simp only: neq0_conv)
  with Cons.prems(1) have l: "unat (Lcm64 r p) = lcm (unat r) (unat p)" by (intro Lcm64_lcm) linarith
  have "Lcm64 r p \<noteq> 0" using l Cons.prems(2,3) by (auto simp: unat_eq_zero [symmetric] simp del: unat_eq_zero)
  with Cons.IH [of "Lcm64 r p"] Cons.prems show ?case by (simp add: l lcm.assoc)
qed simp

lemma CalculateLcm_Lcm:
  assumes "Lcm (unat ` set ps) < 2 ^ 64" and "0 \<notin> set ps" and "ps \<noteq> []"
  shows "unat (CalculateLcm ps) = Lcm (unat ` set ps)"
  using assms foldl_Lcm64 [of "hd ps" "tl ps"] by (cases ps) (auto simp: CalculateLcm_def)

section \<open>Properties\<close>

lemma unique_periods_set: "set (unique_periods ts) = {ot_period_us t |t. t \<in> set ts \<and> ot_period_us t > 0}"
  by (auto simp: unique_periods_def)

text \<open>The periods that count for a workload.\<close>

abbreviation workload_periods :: "string \<Rightarrow> otask list \<Rightarrow> nat set" where
  "workload_periods w tasks \<equiv>
     (\<lambda>t. unat (ot_period_us t)) ` set (filter (\<lambda>t. ot_workload_id t = w \<and> ot_period_us t > 0) tasks)"

lemma CalculateHyperperiod_run:
  fixes w tasks
  defines "ps \<equiv> unique_periods (filter (\<lambda>t. ot_workload_id t = w) tasks)"
  assumes "workload_periods w tasks \<noteq> {}" and "Lcm (workload_periods w tasks) < 2 ^ 64"
  shows "unat ` set ps = workload_periods w tasks" "sorted_wrt (<) ps"
    "unat (CalculateLcm ps) = Lcm (workload_periods w tasks)" "0 < CalculateLcm ps"
    "CalculateHyperperiod w tasks m = (CalculateLcm ps, omap_put w \<lparr>hi_workload_id = w, hi_hyperperiod_us = CalculateLcm ps,
       hi_periods = ps, hi_task_count = length (filter (\<lambda>t. ot_workload_id t = w) tasks)\<rparr> m)"
proof -
  let ?ts = "filter (\<lambda>t. ot_workload_id t = w) tasks"
  show P: "unat ` set ps = workload_periods w tasks" unfolding ps_def unique_periods_set by auto
  have ne: "ps \<noteq> []" using assms(2) unfolding P [symmetric] by auto
  then have ts: "?ts \<noteq> []" unfolding ps_def by (intro notI) (simp add: unique_periods_def del: filter_filter)
  have no0: "0 \<notin> set ps" by (auto simp: ps_def unique_periods_set)
  show h: "unat (CalculateLcm ps) = Lcm (workload_periods w tasks)"
    using CalculateLcm_Lcm [OF _ no0 ne] assms(3) unfolding P [symmetric] by simp
  moreover have "Lcm (unat ` set ps) \<noteq> 0" using no0 by (auto simp: Lcm_0_iff_nat unat_eq_zero)
  ultimately show "0 < CalculateLcm ps" unfolding P by (metis unat_0 word_neq_0_conv)
  show "sorted_wrt (<) ps" by (simp add: ps_def unique_periods_def strict_sorted_iff)
  show "CalculateHyperperiod w tasks m = (CalculateLcm ps, omap_put w \<lparr>hi_workload_id = w, hi_hyperperiod_us = CalculateLcm ps,
       hi_periods = ps, hi_task_count = length ?ts\<rparr> m)"
    using ts ne by (auto simp: CalculateHyperperiod_def Let_def ps_def)
qed

text \<open>
  C27. The hyperperiod of a workload is the least common multiple of its tasks' periods: if a task of the
  workload has a positive period and the least common multiple of these periods fits into 64 bits,
  then exactly this number is returned and stored under the name of the workload, together with
  the increasing list of the different periods and the number of tasks; the entries of other
  workloads stay as they are.
\<close>

theorem hyperperiod_is_lcm:
  fixes w tasks
  defines "P \<equiv> (\<lambda>t. unat (ot_period_us t)) ` set (filter (\<lambda>t. ot_workload_id t = w \<and> ot_period_us t > 0) tasks)"
  assumes "P \<noteq> {}" and "Lcm P < 2 ^ 64" and "omap_ok m"
  shows "\<exists>h m' info. CalculateHyperperiod w tasks m = (h, m') \<and> unat h = Lcm P \<and> 0 < h \<and>
    GetHyperperiodInfo m' w = Some info \<and> hi_workload_id info = w \<and> hi_hyperperiod_us info = h \<and>
    unat ` set (hi_periods info) = P \<and> sorted_wrt (<) (hi_periods info) \<and>
    hi_task_count info = length (filter (\<lambda>t. ot_workload_id t = w) tasks) \<and>
    (\<forall>w'. w' \<noteq> w \<longrightarrow> GetHyperperiodInfo m' w' = GetHyperperiodInfo m w')"
  using CalculateHyperperiod_run [OF assms(2,3) [unfolded P_def]] assms(4)
  by (auto simp: P_def GetHyperperiodInfo_def sm.get_put)

lemma hyperperiod_is_lcm_witness:
  "\<exists>h m' info. CalculateHyperperiod ''w'' [new_task\<lparr>ot_workload_id := ''w'', ot_period_us := 20\<rparr>,
       new_task\<lparr>ot_workload_id := ''w'', ot_period_us := 30\<rparr>] [] = (h, m') \<and> unat h = 60 \<and>
     GetHyperperiodInfo m' ''w'' = Some info \<and> hi_hyperperiod_us info = h"
proof -
  let ?ts = "[new_task\<lparr>ot_workload_id := ''w'', ot_period_us := 20\<rparr>, new_task\<lparr>ot_workload_id := ''w'', ot_period_us := 30\<rparr>]"
  have P: "(\<lambda>t. unat (ot_period_us t)) ` set (filter (\<lambda>t. ot_workload_id t = ''w'' \<and> ot_period_us t > 0) ?ts) = {20, 30}"
    by (simp add: word_less_nat_alt)
  have L: "Lcm {20, 30 :: nat} = 60" by (simp add: lcm_nat_def gcd_non_0_nat)
  show ?thesis
    using hyperperiod_is_lcm [of "''w''" ?ts "[]", unfolded P L] by auto
qed

end
