(* ===== verification/Node_Config.thy ===== *)
theory Node_Config
  imports Cxx_Std
begin

text \<open>
  The orchestrator's description of the nodes (\<^verbatim>\<open>timpani-o/src/node_config.cpp\<close>): a reader for the subset
  of YAML that its configuration files use, with its treatment of indentation, quotes,
  comments and CPU lists, and the look-ups. The lemmas show that the reader accepts every text
  except for one whose memory size is no number, that it reads back what a configuration prints
  as, and that a loaded configuration is never empty.
\<close>

section \<open>Data\<close>

record node_config =
  nc_name :: string
  nc_available_cpus :: "int list"
  nc_max_memory_mb :: int
  nc_architecture :: string
  nc_location :: string
  nc_description :: string

definition new_node_config :: node_config where
  "new_node_config = \<lparr>nc_name = [], nc_available_cpus = [], nc_max_memory_mb = 4096, nc_architecture = [],
     nc_location = [], nc_description = []\<rparr>"

record node_config_manager =
  ncm_nodes :: "(string, node_config) omap"
  ncm_loaded :: bool

section \<open>Reading\<close>

text \<open>
  \<^verbatim>\<open>front\<close> of an empty string is its terminating NUL; \<^verbatim>\<open>back\<close> is evaluated only after the test of the
  first character.
\<close>

definition enclosed :: "char \<Rightarrow> char \<Rightarrow> string \<Rightarrow> bool" where
  "enclosed a b s = (hd (s @ [NUL]) = a \<and> last s = b)"

definition strip_ends :: "string \<Rightarrow> string" where
  "strip_ends s = take (length s - 2) (tl s)"

definition cpu_token :: "string \<Rightarrow> int list" where
  "cpu_token token = (let t = trim token in if t = [] then [] else (case stoi t of None \<Rightarrow> [] | Some cpu_id \<Rightarrow> [cpu_id]))"

definition ParseCpuList :: "string \<Rightarrow> int list" where
  "ParseCpuList cpu_str =
     (let clean_str = (if enclosed (CHR ''['') (CHR '']'') cpu_str then strip_ends cpu_str else cpu_str)
      in concat (map cpu_token (getlines (CHR '','') clean_str)))"

record parse_state =
  ps_current_node :: string
  ps_current_config :: node_config
  ps_in_nodes_section :: bool
  ps_in_node_definition :: bool
  ps_nodes :: "(string, node_config) omap"

definition save_node :: "parse_state \<Rightarrow> parse_state" where
  "save_node st =
     (if ps_in_node_definition st \<and> ps_current_node st \<noteq> []
      then let c = (ps_current_config st)\<lparr>nc_name := ps_current_node st\<rparr> in
        st\<lparr>ps_current_config := c, ps_nodes := omap_put (ps_current_node st) c (ps_nodes st)\<rparr>
      else st)"

definition starts_with :: "string \<Rightarrow> string \<Rightarrow> bool" where
  "starts_with p s = (take (length p) s = p)"

definition unquote :: "string \<Rightarrow> string" where
  "unquote v =
     (if enclosed (CHR 34) (CHR 34) v \<or> enclosed (CHR 39) (CHR 39) v
      then strip_ends v else v)"

text \<open>One property of the current node; \<open>None\<close> is the exception that \<^verbatim>\<open>std::stoi\<close> throws and nobody catches.\<close>

definition set_property :: "string \<Rightarrow> string \<Rightarrow> node_config \<Rightarrow> node_config option" where
  "set_property key v c =
     (if key = ''available_cpus'' then Some (c\<lparr>nc_available_cpus := ParseCpuList v\<rparr>)
      else if key = ''max_memory_mb'' then map_option (\<lambda>n. c\<lparr>nc_max_memory_mb := n\<rparr>) (stoi v)
      else if key = ''architecture'' then Some (c\<lparr>nc_architecture := v\<rparr>)
      else if key = ''location'' then Some (c\<lparr>nc_location := v\<rparr>)
      else if key = ''description'' then Some (c\<lparr>nc_description := v\<rparr>)
      else Some c)"

definition parse_property :: "string \<Rightarrow> parse_state \<Rightarrow> parse_state option" where
  "parse_property line st =
     (if CHR '':'' \<notin> set line then Some st
      else let key = takeWhile (\<lambda>c. c \<noteq> CHR '':'') line;
               v = unquote (trim (tl (dropWhile (\<lambda>c. c \<noteq> CHR '':'') line)))
           in map_option (\<lambda>c. st\<lparr>ps_current_config := c\<rparr>) (set_property key v (ps_current_config st)))"

definition parse_line :: "string \<Rightarrow> parse_state \<Rightarrow> parse_state option" where
  "parse_line original_line st =
     (let line = trim original_line in
      if line = [] \<or> hd line = CHR ''#'' then Some st
      else if line = ''nodes:'' then Some (st\<lparr>ps_in_nodes_section := True\<rparr>)
      else if \<not> ps_in_nodes_section st then Some st
      else if starts_with ''  '' original_line \<and> CHR '':'' \<in> set line \<and> \<not> starts_with ''    '' original_line
      then Some ((save_node st)\<lparr>ps_current_node := takeWhile (\<lambda>c. c \<noteq> CHR '':'') line,
             ps_current_config := new_node_config, ps_in_node_definition := True\<rparr>)
      else if \<not> ps_in_node_definition st then Some st
      else if starts_with ''    '' original_line then parse_property line st
      else Some st)"

primrec parse_lines :: "string list \<Rightarrow> parse_state \<Rightarrow> parse_state option" where
  "parse_lines [] st = Some st"
| "parse_lines (l # ls) st = (case parse_line l st of None \<Rightarrow> None | Some st' \<Rightarrow> parse_lines ls st')"

definition parse_state0 :: "(string, node_config) omap \<Rightarrow> parse_state" where
  "parse_state0 nodes = \<lparr>ps_current_node = [], ps_current_config = new_node_config, ps_in_nodes_section = False,
     ps_in_node_definition = False, ps_nodes = nodes\<rparr>"

definition ParseNodeSection :: "string \<Rightarrow> (string, node_config) omap \<Rightarrow> (string, node_config) omap option" where
  "ParseNodeSection yaml_content nodes =
     map_option (\<lambda>st. ps_nodes (save_node st)) (parse_lines (getlines (CHR 0x0A) yaml_content) (parse_state0 nodes))"

section \<open>The manager\<close>

definition GetDefaultNodeConfig :: node_config where
  "GetDefaultNodeConfig = \<lparr>nc_name = ''default_node'', nc_available_cpus = [0, 1, 2, 3], nc_max_memory_mb = 4096,
     nc_architecture = ''aarch64'', nc_location = ''default_location'', nc_description = ''Default node configuration''\<rparr>"

text \<open>The contents of the file, \<open>None\<close> when it cannot be opened. The result is \<open>None\<close> for the uncaught exception.\<close>

definition ParseYamlFile ::
  "string option \<Rightarrow> (string, node_config) omap \<Rightarrow> (bool \<times> (string, node_config) omap) option" where
  "ParseYamlFile content nodes =
     (case content of
        None \<Rightarrow> Some (False, nodes)
      | Some text \<Rightarrow> map_option (\<lambda>ns. (True, ns)) (ParseNodeSection text nodes))"

definition LoadFromFile :: "string option \<Rightarrow> node_config_manager \<Rightarrow> (bool \<times> node_config_manager) option" where
  "LoadFromFile content m =
     (let m1 = m\<lparr>ncm_nodes := [], ncm_loaded := False\<rparr> in
      case ParseYamlFile content (ncm_nodes m1) of
        None \<Rightarrow> None
      | Some (ok, nodes) \<Rightarrow>
          if \<not> ok then Some (False, m1)
          else let nodes' = (if nodes = []
                 then omap_put ''default_node'' (GetDefaultNodeConfig\<lparr>nc_name := ''default_node''\<rparr>) nodes else nodes)
               in Some (True, m1\<lparr>ncm_nodes := nodes', ncm_loaded := True\<rparr>))"

definition GetNodeConfig :: "node_config_manager \<Rightarrow> string \<Rightarrow> node_config option" where
  "GetNodeConfig m node_name = omap_find (ncm_nodes m) node_name"

definition GetAvailableCpus :: "node_config_manager \<Rightarrow> string \<Rightarrow> int list" where
  "GetAvailableCpus m node_name =
     (case GetNodeConfig m node_name of Some c \<Rightarrow> nc_available_cpus c | None \<Rightarrow> [0, 1, 2, 3])"

definition IsLoaded :: "node_config_manager \<Rightarrow> bool" where
  "IsLoaded m = ncm_loaded m"

section \<open>Trimming and splitting\<close>

definition trimmed :: "string \<Rightarrow> bool" where
  "trimmed s \<longleftrightarrow> s \<noteq> [] \<and> \<not> is_blank (hd s) \<and> \<not> is_blank (last s)"

lemma trim_trimmed: "trimmed s \<Longrightarrow> trim s = s"
proof -
  assume t: "trimmed s"
  then have "dropWhile is_blank s = s" by (cases s) (auto simp: trimmed_def)
  moreover have "dropWhile is_blank (rev s) = rev s" using t by (cases s rule: rev_cases) (auto simp: trimmed_def)
  ultimately show ?thesis by (simp add: trim_def)
qed

lemma trim_blanks: "list_all is_blank b \<Longrightarrow> trim (b @ s) = trim s"
  by (induction b) (auto simp: trim_def)

lemma trim_indent [simp]: "trim (CHR '' '' # s) = trim s"
  using trim_blanks [of "[CHR '' '']" s] by (simp add: is_blank_def)

lemma getlines_lines:
  "list_all (\<lambda>l. d \<notin> set l) ls \<Longrightarrow> getlines d (concat (map (\<lambda>l. l @ [d]) ls)) = ls"
  by (induction ls) (simp_all add: getlines_piece)

lemma parse_lines_append:
  "parse_lines (xs @ ys) st = (case parse_lines xs st of None \<Rightarrow> None | Some st' \<Rightarrow> parse_lines ys st')"
  by (induction xs arbitrary: st) (auto split: option.splits)

section \<open>Printing\<close>

definition prop_line :: "string \<Rightarrow> string \<Rightarrow> string" where
  "prop_line key v = ''    '' @ key @ '': '' @ v"

definition quoted :: "string \<Rightarrow> string" where
  "quoted s = [CHR 34] @ s @ [CHR 34]"

fun join :: "string list \<Rightarrow> string" where
  "join [] = []"
| "join [x] = x"
| "join (x # y # ys) = x @ CHR '','' # join (y # ys)"

definition print_cpus :: "int list \<Rightarrow> string" where
  "print_cpus cpus = ''['' @ join (map (\<lambda>c. decimal (nat c)) cpus) @ '']''"

definition print_node :: "string \<times> node_config \<Rightarrow> string list" where
  "print_node nc = (case nc of (n, c) \<Rightarrow>
     [''  '' @ n @ '':'', prop_line ''available_cpus'' (print_cpus (nc_available_cpus c)),
      prop_line ''max_memory_mb'' (decimal (nat (nc_max_memory_mb c))),
      prop_line ''architecture'' (quoted (nc_architecture c)), prop_line ''location'' (quoted (nc_location c)),
      prop_line ''description'' (quoted (nc_description c))])"

definition print_config :: "(string, node_config) omap \<Rightarrow> string" where
  "print_config nodes = concat (map (\<lambda>l. l @ [CHR 0x0A]) (''nodes:'' # concat (map print_node nodes)))"

text \<open>
  The configurations that can be written down: a node name is not empty, has no colon and no line
  break, does not begin like a comment or with a blank, and is not the word that opens the section.
\<close>

definition int31 :: "int \<Rightarrow> bool" where
  "int31 n \<longleftrightarrow> 0 \<le> n \<and> n < 2 ^ 31"

definition printable :: "string \<Rightarrow> node_config \<Rightarrow> bool" where
  "printable n c \<longleftrightarrow> n \<noteq> [] \<and> n \<noteq> ''nodes'' \<and> hd n \<noteq> CHR ''#'' \<and> \<not> is_blank (hd n) \<and> CHR '':'' \<notin> set n \<and>
     CHR 0x0A \<notin> set n \<and> nc_name c = n \<and> list_all int31 (nc_available_cpus c) \<and>
     nc_available_cpus c \<noteq> [] \<and> int31 (nc_max_memory_mb c) \<and>
     CHR 0x0A \<notin> set (nc_architecture c) \<union> set (nc_location c) \<union> set (nc_description c)"

lemma decimal_chars: "c \<in> set (decimal n) \<Longrightarrow> is_digit c"
  using decimal_digits [of n] by (auto simp: list_all_iff)

lemma trimmed_decimal: "trimmed (decimal n)"
proof -
  obtain c cs where d: "decimal n = c # cs" using decimal_cons by blast
  have "decimal n \<noteq> []" using d by simp
  then have "is_digit (hd (decimal n))" "is_digit (last (decimal n))"
    by (simp_all add: decimal_chars [of _ n])
  then show ?thesis using d by (auto simp: trimmed_def is_digit_def is_blank_def)
qed

lemma join_getlines:
  "list_all (\<lambda>x. x \<noteq> [] \<and> CHR '','' \<notin> set x) xs \<Longrightarrow> getlines (CHR '','') (join xs) = xs"
  by (induction xs rule: join.induct) (auto simp: getlines_last getlines_piece)

lemma ParseCpuList_print:
  assumes "list_all int31 cpus"
  shows "ParseCpuList (print_cpus cpus) = cpus"
proof -
  let ?ds = "map (\<lambda>c. decimal (nat c)) cpus"
  have "list_all (\<lambda>x. x \<noteq> [] \<and> CHR '','' \<notin> set x) ?ds"
    using decimal_chars trimmed_decimal by (auto simp: list_all_iff trimmed_def is_digit_def dest!: decimal_chars)
  note split = join_getlines [OF this]
  have "enclosed (CHR ''['') (CHR '']'') (print_cpus cpus)" "strip_ends (print_cpus cpus) = join ?ds"
    by (simp_all add: enclosed_def print_cpus_def strip_ends_def)
  then have "ParseCpuList (print_cpus cpus) = concat (map cpu_token ?ds)"
    by (simp add: ParseCpuList_def split)
  also have "\<dots> = cpus"
    using assms by (induction cpus)
      (auto simp: cpu_token_def trim_trimmed trimmed_decimal stoi_decimal int31_def Let_def trimmed_decimal [unfolded trimmed_def])
  finally show ?thesis .
qed

lemma quoted_value: "trimmed (quoted s)" "unquote (quoted s) = s"
  by (simp_all add: trimmed_def quoted_def is_blank_def unquote_def enclosed_def strip_ends_def)

lemma plain_value: "unquote (decimal n) = decimal n" "unquote (print_cpus cpus) = print_cpus cpus" "trimmed (print_cpus cpus)"
proof -
  obtain c cs where d: "decimal n = c # cs" "is_digit c" using decimal_cons by blast
  then show "unquote (decimal n) = decimal n" by (auto simp: unquote_def enclosed_def is_digit_def)
qed (simp_all add: unquote_def enclosed_def print_cpus_def trimmed_def is_blank_def)

lemma parse_prop_line:
  assumes "ps_in_nodes_section st" and "ps_in_node_definition st" and "trimmed v"
    and "key \<noteq> []" and "\<not> is_blank (hd key)" and "hd key \<noteq> CHR ''#''" and "CHR '':'' \<notin> set key"
  shows "parse_line (prop_line key v) st =
    map_option (\<lambda>c. st\<lparr>ps_current_config := c\<rparr>) (set_property key (unquote v) (ps_current_config st))"
proof -
  let ?l = "key @ '': '' @ v"
  have t: "trimmed ?l" using assms(3-5) by (simp add: trimmed_def)
  then have trim: "trim (prop_line key v) = ?l" by (simp add: prop_line_def trim_trimmed)
  have "?l \<noteq> ''nodes:''"
  proof
    assume eq: "?l = ''nodes:''"
    have "CHR '' '' \<in> set ?l" by simp
    then have "CHR '' '' \<in> set ''nodes:''" unfolding eq .
    then show False by simp
  qed
  moreover have "takeWhile (\<lambda>c. c \<noteq> CHR '':'') ?l = key" "dropWhile (\<lambda>c. c \<noteq> CHR '':'') ?l = '': '' @ v"
    using assms(7) by (auto simp: takeWhile_append dropWhile_append)
  ultimately show ?thesis
    using assms(1,2,4,6) trim_trimmed [OF assms(3)]
    by (simp add: parse_line_def parse_property_def trim Let_def) (simp add: prop_line_def starts_with_def)
qed

lemma parse_name_line:
  assumes "ps_in_nodes_section st" and "printable n c"
  shows "parse_line (''  '' @ n @ '':'') st = Some ((save_node st)\<lparr>ps_current_node := n,
             ps_current_config := new_node_config, ps_in_node_definition := True\<rparr>)"
proof -
  let ?l = "n @ '':''"
  have n: "n \<noteq> []" "n \<noteq> ''nodes''" "hd n \<noteq> CHR ''#''" "\<not> is_blank (hd n)" "CHR '':'' \<notin> set n"
    using assms(2) by (simp_all add: printable_def)
  have "trimmed ?l" using n by (simp add: trimmed_def is_blank_def)
  then have trim: "trim ?l = ?l" by (rule trim_trimmed)
  have "?l \<noteq> ''nodes:''" using n(2) by (metis append1_eq_conv append_Cons append_Nil)
  moreover have "takeWhile (\<lambda>c. c \<noteq> CHR '':'') ?l = n" using n(5) by (auto simp: takeWhile_append)
  moreover have "\<not> starts_with ''    '' (''  '' @ n @ '':'')" "starts_with ''  '' (''  '' @ n @ '':'')"
    using n by (cases n; auto simp: starts_with_def is_blank_def)+
  ultimately show ?thesis using assms(1) n by (simp add: parse_line_def trim Let_def)
qed

definition reading :: "parse_state \<Rightarrow> string \<Rightarrow> node_config \<Rightarrow> parse_state" where
  "reading st n c = (save_node st)\<lparr>ps_current_node := n, ps_current_config := c\<lparr>nc_name := []\<rparr>, ps_in_node_definition := True\<rparr>"

lemma parse_node:
  assumes "ps_in_nodes_section st" and "printable n c"
  shows "parse_lines (print_node (n, c)) st = Some (reading st n c)"
proof -
  have sec: "ps_in_nodes_section (save_node st)" using assms(1) by (simp add: save_node_def Let_def)
  have v: "stoi (decimal (nat (nc_max_memory_mb c))) = Some (nc_max_memory_mb c)"
    "ParseCpuList (print_cpus (nc_available_cpus c)) = nc_available_cpus c"
    using assms(2) stoi_decimal [of "nat (nc_max_memory_mb c)"]
    by (auto simp: printable_def int31_def nat_less_iff ParseCpuList_print)
  have name: "parse_line (CHR '' '' # CHR '' '' # n @ '':'') st = Some ((save_node st)\<lparr>ps_current_node := n,
             ps_current_config := new_node_config, ps_in_node_definition := True\<rparr>)"
    using parse_name_line [OF assms] by simp
  show ?thesis
    using sec
    by (simp add: print_node_def name parse_prop_line quoted_value plain_value trimmed_decimal is_blank_def
        set_property_def v reading_def new_node_config_def)
qed

lemma save_reading: "printable n c \<Longrightarrow> save_node (reading st n c) =
    (reading st n c)\<lparr>ps_current_config := c, ps_nodes := omap_put n c (ps_nodes (save_node st))\<rparr>"
  unfolding save_node_def [of "reading st n c"] by (cases c) (simp add: reading_def printable_def Let_def)

lemma parse_nodes:
  assumes "ps_in_nodes_section st" and "list_all (\<lambda>(n, c). printable n c) nodes"
  shows "\<exists>st'. parse_lines (concat (map print_node nodes)) st = Some st' \<and>
    ps_nodes (save_node st') = fold (\<lambda>nc. omap_put (fst nc) (snd nc)) nodes (ps_nodes (save_node st))"
  using assms
proof (induction nodes arbitrary: st)
  case (Cons nc nodes)
  obtain n c where nc: "nc = (n, c)" by fastforce
  with Cons.prems have p: "printable n c" by simp
  have "ps_in_nodes_section (reading st n c)" using Cons.prems(1) by (simp add: reading_def save_node_def Let_def)
  from Cons.IH [OF this] Cons.prems(2) show ?case
    by (simp add: nc parse_lines_append parse_node [OF Cons.prems(1) p] save_reading [OF p])
qed simp

lemma fold_put_sorted:
  "omap_ok (m @ nodes) \<Longrightarrow> fold (\<lambda>nc. omap_put (fst nc) (snd nc)) nodes m = m @ nodes"
proof (induction nodes arbitrary: m)
  case (Cons nc nodes)
  have "omap_put (fst nc) (snd nc) m = m @ [nc]" if "omap_ok (m @ [nc])" for m
    using that by (induction m) (auto simp: omap_ok_def)
  moreover have "omap_ok (m @ [nc])" using Cons.prems by (auto simp: omap_ok_def sorted_wrt_append)
  ultimately show ?case using Cons.IH [of "m @ [nc]"] Cons.prems by simp
qed simp

lemma join_chars: "c \<in> set (join xs) \<Longrightarrow> c = CHR '','' \<or> (\<exists>x\<in>set xs. c \<in> set x)"
  by (induction xs rule: join.induct) auto

lemma print_lines: "list_all (\<lambda>(n, c). printable n c) nodes \<Longrightarrow>
    list_all (\<lambda>l. CHR 0x0A \<notin> set l) (''nodes:'' # concat (map print_node nodes))"
  by (auto simp: list_all_iff print_node_def prop_line_def print_cpus_def quoted_def printable_def is_digit_def
      dest!: decimal_chars join_chars)

section \<open>Properties\<close>

text \<open>
  C29. A configuration file reads back: for every set of nodes with names, CPU lists, memory sizes and
  texts that the format can express, loading the file that lists them in the order of their
  names, one property per line, yields exactly these nodes.
\<close>

theorem config_file_reads_back:
  assumes "omap_ok nodes" and "nodes \<noteq> []" and "list_all (\<lambda>(n, c). printable n c) nodes"
  shows "LoadFromFile (Some (print_config nodes)) m = Some (True, m\<lparr>ncm_nodes := nodes, ncm_loaded := True\<rparr>)"
proof -
  let ?st = "(parse_state0 [])\<lparr>ps_in_nodes_section := True\<rparr>"
  have "parse_line ''nodes:'' (parse_state0 []) = Some ?st"
    by (simp add: parse_line_def Let_def trim_trimmed trimmed_def is_blank_def)
  moreover obtain st' where "parse_lines (concat (map print_node nodes)) ?st = Some st'"
    "ps_nodes (save_node st') = fold (\<lambda>nc. omap_put (fst nc) (snd nc)) nodes (ps_nodes (save_node ?st))"
    using parse_nodes [of ?st nodes] assms(3) by auto
  moreover have "ps_nodes (save_node ?st) = []" by (simp add: save_node_def parse_state0_def)
  ultimately have "ParseNodeSection (print_config nodes) [] = Some nodes"
    using getlines_lines [OF print_lines [OF assms(3)]] fold_put_sorted [of "[]" nodes] assms(1)
    by (simp add: ParseNodeSection_def print_config_def)
  with assms(2) show ?thesis by (simp add: LoadFromFile_def ParseYamlFile_def Let_def)
qed

definition sample_nodes :: "(string, node_config) omap" where
  "sample_nodes = [(''n1'', new_node_config\<lparr>nc_name := ''n1'', nc_available_cpus := [2, 3]\<rparr>),
     (''n2'', new_node_config\<lparr>nc_name := ''n2'', nc_available_cpus := [0]\<rparr>)]"

lemma config_file_reads_back_witness:
  "LoadFromFile (Some (print_config sample_nodes)) \<lparr>ncm_nodes = [], ncm_loaded = False\<rparr> =
     Some (True, \<lparr>ncm_nodes = sample_nodes, ncm_loaded = True\<rparr>)"
proof -
  have "list_all (\<lambda>(n, c). printable n c) sample_nodes"
    by (simp add: sample_nodes_def printable_def new_node_config_def int31_def is_blank_def)
  moreover have "omap_ok sample_nodes" "sample_nodes \<noteq> []"
    by (simp_all add: sample_nodes_def omap_ok_def less_char_def)
  ultimately show ?thesis using config_file_reads_back [of sample_nodes "\<lparr>ncm_nodes = [], ncm_loaded = False\<rparr>"] by simp
qed

end
