(* ===== verification/Timespec.thy ===== *)
theory Timespec
  imports Timpani_Prelude
begin

text \<open>
  Time values (\<^verbatim>\<open>timpani-n/src/timetrigger.h\<close> and the time helper of \<^verbatim>\<open>internal.h\<close>): the C
  structure \<^verbatim>\<open>timespec\<close>, its conversions to and from 64-bit nanoseconds and microseconds, the
  comparison, and the facts that relate them. The order of the comparison is the instance of
  the class \<^verbatim>\<open>linorder\<close> for the type.
\<close>

section \<open>The structure and its conversions\<close>

text \<open>Both fields are signed 64-bit integers, kept as words and read with \<^const>\<open>sint\<close> where the sign counts.\<close>

datatype timespec = Timespec (tv_sec: u64) (tv_nsec: u64)

definition TT_NSEC_PER_SEC :: u64 where
  "TT_NSEC_PER_SEC = 1000000000"

definition TT_USEC_PER_SEC :: u64 where
  "TT_USEC_PER_SEC = 1000000"

definition TT_NSEC_PER_USEC :: u64 where
  "TT_NSEC_PER_USEC = 1000"

lemmas tt_units = TT_NSEC_PER_SEC_def TT_USEC_PER_SEC_def TT_NSEC_PER_USEC_def

definition tt_timespec_to_ns :: "timespec \<Rightarrow> u64" where
  "tt_timespec_to_ns ts = tv_sec ts * TT_NSEC_PER_SEC + tv_nsec ts"

definition tt_timespec_to_us :: "timespec \<Rightarrow> u64" where
  "tt_timespec_to_us ts = tv_sec ts * TT_USEC_PER_SEC + tv_nsec ts div TT_NSEC_PER_USEC"

definition tt_us_to_timespec :: "u64 \<Rightarrow> timespec" where
  "tt_us_to_timespec us =
     Timespec (us div TT_USEC_PER_SEC) (us mod TT_USEC_PER_SEC * TT_NSEC_PER_USEC)"

definition tt_ns_to_timespec :: "u64 \<Rightarrow> timespec" where
  "tt_ns_to_timespec ns = Timespec (ns div TT_NSEC_PER_SEC) (ns mod TT_NSEC_PER_SEC)"

definition tt_timespec_compare :: "timespec \<Rightarrow> timespec \<Rightarrow> int" where
  "tt_timespec_compare a b =
     (if tv_sec a \<noteq> tv_sec b
      then (if sint (tv_sec a) > sint (tv_sec b) then 1 else -1)
      else (if sint (tv_nsec a) > sint (tv_nsec b) then 1
            else (if sint (tv_nsec a) < sint (tv_nsec b) then -1 else 0)))"

definition tt_timespec_diff_ns :: "timespec \<Rightarrow> timespec \<Rightarrow> u64" where
  "tt_timespec_diff_ns b a = tt_timespec_to_ns b - tt_timespec_to_ns a"

definition tt_timespec_add_us :: "timespec \<Rightarrow> u64 \<Rightarrow> timespec" where
  "tt_timespec_add_us ts us = tt_ns_to_timespec (tt_timespec_to_ns ts + us * TT_NSEC_PER_USEC)"

section \<open>Order\<close>

lemma sint_u64_eqD: "sint x = sint y \<Longrightarrow> x = (y :: u64)"
  by (rule word_eq_iff_signed [THEN iffD2])

instantiation timespec :: linorder
begin

definition less_eq_timespec :: "timespec \<Rightarrow> timespec \<Rightarrow> bool" where
  "a \<le> b \<longleftrightarrow> sint (tv_sec a) < sint (tv_sec b) \<or>
     tv_sec a = tv_sec b \<and> sint (tv_nsec a) \<le> sint (tv_nsec b)"

definition less_timespec :: "timespec \<Rightarrow> timespec \<Rightarrow> bool" where
  "a < b \<longleftrightarrow> a \<le> b \<and> \<not> b \<le> (a :: timespec)"

instance
  by standard
    (auto simp: less_eq_timespec_def less_timespec_def dest!: sint_u64_eqD intro: timespec.expand)

end

section \<open>Normal time values\<close>

text \<open>
  A normal value has its nanoseconds below one second and does not lie before the epoch;
  \<open>ns_range\<close> adds that its nanoseconds since the epoch fit 64 bits.
\<close>

definition normal_ts :: "timespec \<Rightarrow> bool" where
  "normal_ts ts \<longleftrightarrow> 0 \<le> sint (tv_sec ts) \<and> 0 \<le> sint (tv_nsec ts) \<and> sint (tv_nsec ts) < 1000000000"

definition ns_range :: "timespec \<Rightarrow> bool" where
  "ns_range ts \<longleftrightarrow> normal_ts ts \<and> unat (tv_sec ts) * 1000000000 + unat (tv_nsec ts) < 2 ^ 64"

lemma unat_less_2p64: "unat (x :: u64) < 2 ^ 64"
  by (rule order_less_le_trans [OF unsigned_less]) simp

lemma sint_eq_uint_u64: "sint (x :: u64) = (if uint x < 2 ^ 63 then uint x else uint x - 2 ^ 64)"
proof -
  have range: "0 \<le> uint x" "uint x < 2 ^ 64"
    using uint_lt2p [of x] by simp_all
  have eq: "sint x = (uint x + 2 ^ 63) mod 2 ^ 64 - 2 ^ 63"
    by (simp add: sint_uint signed_take_bit_eq_take_bit_shift take_bit_eq_mod)
  have "(uint x + 2 ^ 63) mod 2 ^ 64 = uint x - 2 ^ 63" if "\<not> uint x < 2 ^ 63"
  proof -
    have "(uint x + 2 ^ 63) mod 2 ^ 64 = (uint x - 2 ^ 63 + 2 ^ 64) mod 2 ^ 64"
      by (rule arg_cong [where f = "\<lambda>k. k mod 2 ^ 64"]) simp
    also have "\<dots> = uint x - 2 ^ 63"
      unfolding mod_add_self2 using that range by (intro mod_pos_pos_trivial) auto
    finally show ?thesis .
  qed
  moreover have "(uint x + 2 ^ 63) mod 2 ^ 64 = uint x + 2 ^ 63" if "uint x < 2 ^ 63"
    using that range by (intro mod_pos_pos_trivial) auto
  ultimately show ?thesis unfolding eq by (cases "uint x < 2 ^ 63") simp_all
qed

lemma unat_less_iff_uint: "unat (x :: u64) < numeral k \<longleftrightarrow> uint x < numeral k"
  by (simp add: unat_eq_nat_uint nat_less_iff del: nat_uint_eq)

lemma normal_ts_unat:
  "normal_ts ts \<longleftrightarrow> unat (tv_sec ts) < 2 ^ 63 \<and> unat (tv_nsec ts) < 1000000000"
  using uint_lt2p [of "tv_sec ts"] uint_lt2p [of "tv_nsec ts"]
  by (auto simp: normal_ts_def sint_eq_uint_u64 unat_less_iff_uint)

lemma unat_to_ns: "ns_range ts \<Longrightarrow>
    unat (tt_timespec_to_ns ts) = unat (tv_sec ts) * 1000000000 + unat (tv_nsec ts)"
  by (simp add: tt_timespec_to_ns_def tt_units ns_range_def unat_word_ariths)

lemma normal_ns_to_timespec: "normal_ts (tt_ns_to_timespec ns)"
proof -
  have "unat ns div 1000000000 < 2 ^ 63" using unat_less_2p64 [of ns] by auto
  then show ?thesis
    by (simp add: normal_ts_unat tt_ns_to_timespec_def tt_units unat_div unat_mod)
qed

lemma normal_us_to_timespec: "normal_ts (tt_us_to_timespec us)"
proof -
  have "unat us div 1000000 < 2 ^ 63" using unat_less_2p64 [of us] by auto
  moreover have "unat us mod 1000000 * 1000 < 1000000000" by simp
  ultimately show ?thesis
    by (simp add: normal_ts_unat tt_us_to_timespec_def tt_units unat_div unat_mod unat_word_ariths)
qed

lemma to_ns_ns_to_timespec: "tt_timespec_to_ns (tt_ns_to_timespec ns) = ns"
  by (simp add: tt_timespec_to_ns_def tt_ns_to_timespec_def word_mod_div_equality)

lemma to_us_us_to_timespec: "tt_timespec_to_us (tt_us_to_timespec us) = us"
proof -
  have "unat (us mod 1000000 * 1000 div (1000 :: u64)) = unat (us mod 1000000)"
    by (simp add: unat_div unat_mod unat_word_ariths)
  then have "us mod 1000000 * 1000 div 1000 = us mod (1000000 :: u64)"
    by (simp only: word_unat_eq_iff)
  then show ?thesis
    by (simp add: tt_timespec_to_us_def tt_us_to_timespec_def tt_units word_mod_div_equality)
qed

lemma ns_to_timespec_to_ns:
  assumes "ns_range ts"
  shows "tt_ns_to_timespec (tt_timespec_to_ns ts) = ts"
proof -
  have nsec: "unat (tv_nsec ts) < 1000000000"
    using assms by (simp add: ns_range_def normal_ts_unat)
  have "unat (tt_timespec_to_ns ts div 1000000000) = unat (tv_sec ts)"
    using nsec by (simp add: unat_div unat_to_ns [OF assms])
  moreover have "unat (tt_timespec_to_ns ts mod 1000000000) = unat (tv_nsec ts)"
    using nsec by (simp add: unat_mod unat_to_ns [OF assms])
  ultimately show ?thesis
    by (intro timespec.expand) (simp add: tt_ns_to_timespec_def tt_units word_unat_eq_iff)
qed

lemma normal_ts_le:
  assumes "normal_ts a" and "normal_ts b"
  shows "a \<le> b \<longleftrightarrow>
    unat (tv_sec a) * 1000000000 + unat (tv_nsec a) \<le> unat (tv_sec b) * 1000000000 + unat (tv_nsec b)"
proof -
  have small: "uint (tv_sec a) < 2 ^ 63" "uint (tv_sec b) < 2 ^ 63"
      "uint (tv_nsec a) < 1000000000" "uint (tv_nsec b) < 1000000000"
    using assms by (simp_all add: normal_ts_unat unat_less_iff_uint)
  then have sints: "sint (tv_sec a) = int (unat (tv_sec a))" "sint (tv_sec b) = int (unat (tv_sec b))"
      "sint (tv_nsec a) = int (unat (tv_nsec a))" "sint (tv_nsec b) = int (unat (tv_nsec b))"
    by (simp_all add: sint_eq_uint_u64)
  have "unat (tv_nsec a) < 1000000000" "unat (tv_nsec b) < 1000000000"
    using assms by (simp_all add: normal_ts_unat)
  then show ?thesis
    unfolding less_eq_timespec_def sints word_unat_eq_iff [where 'a = 64] of_nat_less_iff of_nat_le_iff
    by linarith
qed

lemma ns_range_le: "ns_range a \<Longrightarrow> ns_range b \<Longrightarrow>
    a \<le> b \<longleftrightarrow> tt_timespec_to_ns a \<le> tt_timespec_to_ns b"
  by (subst normal_ts_le) (simp_all add: ns_range_def word_le_nat_alt unat_to_ns)

lemma ns_range_ns_to_timespec: "ns_range (tt_ns_to_timespec ns)"
  using normal_ns_to_timespec [of ns] unat_less_2p64 [of ns]
  by (simp add: ns_range_def tt_ns_to_timespec_def tt_units unat_div unat_mod)

lemma us_to_timespec_units:
  "unat (tv_sec (tt_us_to_timespec us)) * 1000000000 + unat (tv_nsec (tt_us_to_timespec us)) = unat us * 1000"
proof -
  have "unat us div 1000000 * 1000000000 + unat us mod 1000000 * 1000 =
      (unat us div 1000000 * 1000000 + unat us mod 1000000) * 1000"
    by (simp only: distrib_right mult.assoc)
  also have "\<dots> = unat us * 1000" by (simp only: div_mult_mod_eq)
  finally show ?thesis
    by (simp add: tt_us_to_timespec_def tt_units unat_div unat_mod unat_word_ariths)
qed

section \<open>A unit of time\<close>

text \<open>
  What the callers of the conversions rely on, for nanoseconds and for microseconds alike: a count
  of units becomes a normal time value, is read back unchanged, and larger counts are later times.
\<close>

locale time_unit =
  fixes of_units :: "u64 \<Rightarrow> timespec"
    and to_units :: "timespec \<Rightarrow> u64"
  assumes of_units_normal: "normal_ts (of_units u)"
    and to_of_units: "to_units (of_units u) = u"
    and of_units_le: "of_units u \<le> of_units v \<longleftrightarrow> u \<le> v"
begin

lemma of_units_inject: "of_units u = of_units v \<longleftrightarrow> u = v"
  by (metis to_of_units)

lemma of_units_less: "of_units u < of_units v \<longleftrightarrow> u < v"
  by (simp add: less_le of_units_le of_units_inject)

lemma of_units_max: "to_units (max (of_units u) (of_units v)) = max u v"
  by (simp add: max_def of_units_le to_of_units)

end

interpretation ns_unit: time_unit tt_ns_to_timespec tt_timespec_to_ns
  by unfold_locales
    (simp_all add: normal_ns_to_timespec to_ns_ns_to_timespec ns_range_le ns_range_ns_to_timespec)

interpretation us_unit: time_unit tt_us_to_timespec tt_timespec_to_us
  by unfold_locales
    (simp_all add: normal_us_to_timespec to_us_us_to_timespec normal_ts_le us_to_timespec_units
      word_le_nat_alt)

section \<open>Properties\<close>

lemma compare_order:
  "tt_timespec_compare a b = (if a < b then -1 else if b < a then 1 else 0)"
  by (auto simp: tt_timespec_compare_def less_timespec_def less_eq_timespec_def dest: sint_u64_eqD)

text \<open>
  The conversions between time values and counts of nanoseconds or microseconds lose nothing:
  a count survives the way through a time value, the time values they make are normal and are
  ordered as the counts, and a normal time value whose nanoseconds fit 64 bits survives the way
  through nanoseconds.
\<close>

theorem timespec_conversions:
  assumes "ns_range ts"
  shows "tt_ns_to_timespec (tt_timespec_to_ns ts) = ts \<and>
    tt_timespec_to_ns (tt_ns_to_timespec n) = n \<and> tt_timespec_to_us (tt_us_to_timespec n) = n \<and>
    normal_ts (tt_ns_to_timespec n) \<and> normal_ts (tt_us_to_timespec n) \<and>
    (tt_ns_to_timespec n < tt_ns_to_timespec m \<longleftrightarrow> n < m) \<and>
    (tt_us_to_timespec n < tt_us_to_timespec m \<longleftrightarrow> n < m)"
  by (intro conjI ns_to_timespec_to_ns assms ns_unit.to_of_units us_unit.to_of_units
      ns_unit.of_units_normal us_unit.of_units_normal ns_unit.of_units_less us_unit.of_units_less)

lemma timespec_conversions_witness:
  "ns_range (Timespec 12 500) \<and>
   tt_ns_to_timespec (tt_timespec_to_ns (Timespec 12 500)) = Timespec 12 500 \<and>
   tt_ns_to_timespec 7 < tt_ns_to_timespec 1000000001"
proof -
  have "ns_range (Timespec 12 500)" by (simp add: ns_range_def normal_ts_unat)
  from timespec_conversions [OF this, of 7 1000000001] this show ?thesis by simp
qed

text \<open>
  The comparison of time values is the order of their nanoseconds since the epoch: for normal
  values whose nanoseconds fit 64 bits it returns -1, 0 or 1 exactly as the 64-bit nanosecond
  counts are smaller, equal or larger.
\<close>

theorem timespec_compare_ns:
  assumes "ns_range a" and "ns_range b"
  shows "tt_timespec_compare a b =
    (if tt_timespec_to_ns a < tt_timespec_to_ns b then -1
     else if tt_timespec_to_ns b < tt_timespec_to_ns a then 1 else 0)"
  unfolding compare_order not_le [symmetric] ns_range_le [OF assms] ns_range_le [OF assms(2,1)]
  by (rule refl)

lemma timespec_compare_ns_witness:
  "tt_timespec_compare (Timespec 3 999999999) (Timespec 4 0) = -1 \<and>
   tt_timespec_to_ns (Timespec 3 999999999) < tt_timespec_to_ns (Timespec 4 0)"
proof -
  have "ns_range (Timespec 3 999999999)" "ns_range (Timespec 4 0)"
    by (simp_all add: ns_range_def normal_ts_unat)
  moreover have "tt_timespec_to_ns (Timespec 3 999999999) < tt_timespec_to_ns (Timespec 4 0)"
    by (simp add: tt_timespec_to_ns_def tt_units)
  ultimately show ?thesis using timespec_compare_ns [of "Timespec 3 999999999" "Timespec 4 0"] by simp
qed

text \<open>
  Advancing a time value by microseconds: the result is normal and its nanoseconds are those of
  the argument plus the thousandfold of the microseconds, as 64-bit numbers; as long as that sum
  does not wrap, the result is not earlier than the argument, and later advances are later times.
\<close>

theorem timespec_add_us_advances:
  assumes "ns_range ts"
    and "unat (tt_timespec_to_ns ts) + unat us * 1000 < 2 ^ 64" and "us' \<le> us"
  shows "normal_ts (tt_timespec_add_us ts us) \<and>
    tt_timespec_to_ns (tt_timespec_add_us ts us) = tt_timespec_to_ns ts + us * 1000 \<and>
    tt_timespec_diff_ns (tt_timespec_add_us ts us) ts = us * 1000 \<and>
    ts \<le> tt_timespec_add_us ts us' \<and> tt_timespec_add_us ts us' \<le> tt_timespec_add_us ts us"
proof -
  have le: "unat us' \<le> unat us" using assms(3) by (simp add: word_le_nat_alt)
  have sum: "unat (tt_timespec_to_ns ts + u * 1000) = unat (tt_timespec_to_ns ts) + unat u * 1000"
    if "unat u \<le> unat us" for u
    using that assms(2) by (simp add: unat_word_ariths)
  have "ts \<le> tt_timespec_add_us ts us'"
    using ns_range_le [OF assms(1) ns_range_ns_to_timespec]
    by (simp add: tt_timespec_add_us_def tt_units ns_unit.to_of_units word_le_nat_alt sum le)
  moreover have "tt_timespec_add_us ts us' \<le> tt_timespec_add_us ts us"
    by (simp add: tt_timespec_add_us_def tt_units ns_unit.of_units_le word_le_nat_alt sum le)
  ultimately show ?thesis
    by (simp add: tt_timespec_add_us_def tt_units tt_timespec_diff_ns_def ns_unit.to_of_units
        ns_unit.of_units_normal)
qed

lemma timespec_add_us_advances_witness:
  "tt_timespec_add_us (Timespec 1 999999000) 2 = Timespec 2 1000 \<and>
   Timespec 1 999999000 \<le> tt_timespec_add_us (Timespec 1 999999000) 1"
proof -
  have "ns_range (Timespec 1 999999000)" by (simp add: ns_range_def normal_ts_unat)
  moreover have "unat (tt_timespec_to_ns (Timespec 1 999999000)) + unat (2 :: u64) * 1000 < 2 ^ 64"
    by (simp add: tt_timespec_to_ns_def tt_units)
  moreover have "tt_timespec_add_us (Timespec 1 999999000) 2 = Timespec 2 1000"
    by (simp add: tt_timespec_add_us_def tt_timespec_to_ns_def tt_ns_to_timespec_def tt_units)
  ultimately show ?thesis
    using timespec_add_us_advances [of "Timespec 1 999999000" 2 1] by simp
qed

end
