(* ===== verification/Node_Types.thy ===== *)
theory Node_Types
  imports Timespec
begin

text \<open>
  The data of the node agent (\<^verbatim>\<open>timpani-n/src/schedinfo.h\<close>, \<^verbatim>\<open>internal.h\<close>, \<^verbatim>\<open>trace_bpf.h\<close>): the task and
  schedule descriptions that the orchestrator sends, the run-time objects built from them, the
  error codes and the context that all modules share. A C structure is a record with the same
  fields; a linked list is the list of its elements from the head; a fixed character array is the
  C string it holds; a pointer that is only tested for NULL is a Boolean.
\<close>

section \<open>Error codes\<close>

datatype ttsched_error =
  TTSCHED_SUCCESS | TTSCHED_ERROR_INVALID_ARGS | TTSCHED_ERROR_PERMISSION | TTSCHED_ERROR_SYSTEM

primrec ttsched_code :: "ttsched_error \<Rightarrow> int" where
  "ttsched_code TTSCHED_SUCCESS = 0"
| "ttsched_code TTSCHED_ERROR_INVALID_ARGS = -1"
| "ttsched_code TTSCHED_ERROR_PERMISSION = -2"
| "ttsched_code TTSCHED_ERROR_SYSTEM = -3"

definition ttsched_error_string :: "int \<Rightarrow> string" where
  "ttsched_error_string e =
     (if e = 0 then ''Success''
      else if e = -1 then ''Invalid arguments''
      else if e = -2 then ''Permission denied''
      else if e = -3 then ''System error''
      else ''Unknown error'')"

datatype tt_error =
  TT_SUCCESS | TT_ERROR_MEMORY | TT_ERROR_TIMER | TT_ERROR_SIGNAL | TT_ERROR_NETWORK
  | TT_ERROR_CONFIG | TT_ERROR_BPF | TT_ERROR_INVALID_ARGS | TT_ERROR_IO | TT_ERROR_PERMISSION

primrec tt_code :: "tt_error \<Rightarrow> int" where
  "tt_code TT_SUCCESS = 0"
| "tt_code TT_ERROR_MEMORY = -1"
| "tt_code TT_ERROR_TIMER = -2"
| "tt_code TT_ERROR_SIGNAL = -3"
| "tt_code TT_ERROR_NETWORK = -4"
| "tt_code TT_ERROR_CONFIG = -5"
| "tt_code TT_ERROR_BPF = -6"
| "tt_code TT_ERROR_INVALID_ARGS = -7"
| "tt_code TT_ERROR_IO = -8"
| "tt_code TT_ERROR_PERMISSION = -9"

definition tt_error_string :: "int \<Rightarrow> string" where
  "tt_error_string e =
     (if e = 0 then ''Success''
      else if e = -1 then ''Memory allocation failed''
      else if e = -2 then ''Timer operation failed''
      else if e = -3 then ''Signal handling failed''
      else if e = -4 then ''Network operation failed''
      else if e = -5 then ''Configuration error''
      else if e = -6 then ''BPF operation failed''
      else if e = -7 then ''Invalid arguments''
      else if e = -8 then ''Input/Output error''
      else if e = -9 then ''Permission denied''
      else ''Unknown error'')"

text \<open>
  The scheduling functions return \<^verbatim>\<open>ttsched_error_t\<close>, and several callers compare the result with
  \<^verbatim>\<open>TT_SUCCESS\<close>: both success codes are zero and no other code is.
\<close>

lemma ttsched_code_eq_tt_success: "ttsched_code e = tt_code TT_SUCCESS \<longleftrightarrow> e = TTSCHED_SUCCESS"
  by (cases e) simp_all

section \<open>Schedule descriptions\<close>

definition TINFO_NAME_MAX :: nat where
  "TINFO_NAME_MAX = 16"

definition TINFO_NODEID_MAX :: nat where
  "TINFO_NODEID_MAX = 64"

definition SINFO_NODE_MAX :: nat where
  "SINFO_NODE_MAX = 16"

definition WORKLOAD_ID_MAX :: nat where
  "WORKLOAD_ID_MAX = 64"

lemmas field_sizes = TINFO_NAME_MAX_def TINFO_NODEID_MAX_def SINFO_NODE_MAX_def WORKLOAD_ID_MAX_def

record task_info =
  ti_pid :: u32
  ti_pidfd :: int
  ti_name :: string
  ti_sched_priority :: u32
  ti_sched_policy :: u32
  ti_period :: u32
  ti_release_time :: u32
  ti_runtime :: u32
  ti_deadline :: u32
  ti_cpu_affinity :: u64
  ti_allowable_deadline_misses :: u32
  ti_node_id :: string

record sched_info =
  si_workload_id :: string
  si_container_rt_runtime :: u32
  si_container_rt_period :: u32
  si_cpumask :: u64
  si_container_period :: u32
  si_pod_period :: u32
  si_nr_tasks :: u32
  si_tasks :: "task_info list"
  si_nr_nodes :: u32
  si_node_ids :: "u32 list"

text \<open>The all-zero structures that \<^verbatim>\<open>memset\<close> and \<^verbatim>\<open>calloc\<close> produce.\<close>

definition zero_task_info :: task_info where
  "zero_task_info =
     \<lparr>ti_pid = 0, ti_pidfd = 0, ti_name = [], ti_sched_priority = 0, ti_sched_policy = 0,
      ti_period = 0, ti_release_time = 0, ti_runtime = 0, ti_deadline = 0, ti_cpu_affinity = 0,
      ti_allowable_deadline_misses = 0, ti_node_id = []\<rparr>"

definition zero_sched_info :: sched_info where
  "zero_sched_info =
     \<lparr>si_workload_id = [], si_container_rt_runtime = 0, si_container_rt_period = 0, si_cpumask = 0,
      si_container_period = 0, si_pod_period = 0, si_nr_tasks = 0, si_tasks = [], si_nr_nodes = 0,
      si_node_ids = replicate 16 0\<rparr>"

section \<open>Run-time objects\<close>

text \<open>A \<^verbatim>\<open>timer_t\<close> of the C library is pointer sized; the zero of a fresh structure is a value of its own.\<close>

type_synonym timer_t = u64

record time_trigger =
  tt_timer :: timer_t
  tt_task :: task_info
  tt_sigwait_ts :: u64
  tt_sigwait_ts_prev :: u64
  tt_sigwait_enter :: u8
  tt_prev_timer :: timespec
  tt_ctx :: bool

definition zero_ts :: timespec where
  "zero_ts = Timespec 0 0"

definition zero_time_trigger :: time_trigger where
  "zero_time_trigger =
     \<lparr>tt_timer = 0, tt_task = zero_task_info, tt_sigwait_ts = 0, tt_sigwait_ts_prev = 0,
      tt_sigwait_enter = 0, tt_prev_timer = zero_ts, tt_ctx = False\<rparr>"

record hyperperiod_manager =
  hp_hyperperiod_us :: u64
  hp_current_cycle :: u64
  hp_hyperperiod_start_time_us :: u64
  hp_completed_cycles :: u64
  hp_ctx :: bool
  hp_hyperperiod_timer :: timer_t
  hp_hyperperiod_start_ts :: timespec
  hp_tasks_in_hyperperiod :: u32
  hp_total_deadline_misses :: u32
  hp_cycle_deadline_misses :: u32
  hp_workload_id :: string

definition zero_hyperperiod_manager :: hyperperiod_manager where
  "zero_hyperperiod_manager =
     \<lparr>hp_hyperperiod_us = 0, hp_current_cycle = 0, hp_hyperperiod_start_time_us = 0,
      hp_completed_cycles = 0, hp_ctx = False, hp_hyperperiod_timer = 0,
      hp_hyperperiod_start_ts = zero_ts, hp_tasks_in_hyperperiod = 0,
      hp_total_deadline_misses = 0, hp_cycle_deadline_misses = 0, hp_workload_id = []\<rparr>"

definition MAX_APEX_NAME_LEN :: nat where
  "MAX_APEX_NAME_LEN = 256"

record apex_info =
  ax_task :: task_info
  ax_name :: string
  ax_nspid :: int
  ax_dmiss_time_us :: u64
  ax_dmiss_count :: u32
  ax_coredata_timer :: timer_t

definition zero_apex_info :: apex_info where
  "zero_apex_info =
     \<lparr>ax_task = zero_task_info, ax_name = [], ax_nspid = 0, ax_dmiss_time_us = 0,
      ax_dmiss_count = 0, ax_coredata_timer = 0\<rparr>"

datatype apex_type = APEX_FAULT | APEX_UP | APEX_DOWN | APEX_RESET

primrec apex_type_code :: "apex_type \<Rightarrow> int" where
  "apex_type_code APEX_FAULT = 0"
| "apex_type_code APEX_UP = 1"
| "apex_type_code APEX_DOWN = 2"
| "apex_type_code APEX_RESET = 3"

text \<open>The events that the kernel programs hand to the node.\<close>

record sigwait_event =
  sw_pid :: int
  sw_tgid :: int
  sw_timestamp :: u64
  sw_enter :: u8

record schedstat_event =
  ss_pid :: int
  ss_cpu :: int
  ss_ts_wakeup :: u64
  ss_ts_start :: u64
  ss_ts_stop :: u64

section \<open>The context\<close>

datatype clockid = CLOCK_REALTIME | CLOCK_MONOTONIC | CLOCK_THREAD_CPUTIME_ID

record config =
  cfg_cpu :: int
  cfg_prio :: int
  cfg_port :: int
  cfg_addr :: string
  cfg_node_id :: string
  cfg_enable_sync :: bool
  cfg_enable_plot :: bool
  cfg_enable_apex :: bool
  cfg_clockid :: clockid
  cfg_log_level :: int

record tt_context =
  cx_config :: config
  cx_tt_list :: "time_trigger list"
  cx_sched_info :: sched_info
  cx_shutdown_requested :: int
  cx_starttimer_ts :: timespec
  cx_apex_list :: "apex_info list"
  cx_event :: bool
  cx_dbus :: bool
  cx_apex_fd :: int
  cx_hp_manager :: hyperperiod_manager

definition zero_context :: tt_context where
  "zero_context =
     \<lparr>cx_config = \<lparr>cfg_cpu = 0, cfg_prio = 0, cfg_port = 0, cfg_addr = [], cfg_node_id = [],
                cfg_enable_sync = False, cfg_enable_plot = False, cfg_enable_apex = False,
                cfg_clockid = CLOCK_REALTIME, cfg_log_level = 0\<rparr>,
      cx_tt_list = [], cx_sched_info = zero_sched_info, cx_shutdown_requested = 0,
      cx_starttimer_ts = zero_ts, cx_apex_list = [], cx_event = False, cx_dbus = False, cx_apex_fd = 0,
      cx_hp_manager = zero_hyperperiod_manager\<rparr>"

section \<open>Timers and messages\<close>

record itimerspec =
  it_value :: timespec
  it_interval :: timespec

text \<open>
  The notification of a timer: the function that runs when it expires and the object it is given,
  an element of a list being named by its position; or a signal.
\<close>

datatype sigevent = Notify_timer_expired nat | Notify_hyperperiod_cycle | Notify_coredata nat | Notify_signal int

record sched_attr_tt =
  sa_size :: u32
  sa_sched_policy :: u32
  sa_sched_flags :: u64
  sa_sched_nice :: u32
  sa_sched_priority :: u32
  sa_sched_runtime :: u64
  sa_sched_deadline :: u64
  sa_sched_period :: u64

text \<open>
  The datagram of an Apex.OS process, with the member of the union that its type selects; a
  message of an unknown type carries nothing the receiver looks at.
\<close>

datatype timpani_msg =
    Msg_fault string int
  | Msg_up string int
  | Msg_down int
  | Msg_reset
  | Msg_unknown int

record dmiss_status_msg =
  dm_name :: string
  dm_pid :: int
  dm_period_us :: int
  dm_dmiss_max :: int
  dm_dmiss_count :: int

text \<open>Constants of \<^verbatim>\<open>internal.h\<close>.\<close>

definition TT_TIMER_INCREMENT_NS :: u64 where
  "TT_TIMER_INCREMENT_NS = 5 * 1000 * 1000"

definition TT_POLLING_INTERVAL_US :: nat where
  "TT_POLLING_INTERVAL_US = 100 * 1000"

definition TT_RETRY_INTERVAL_US :: nat where
  "TT_RETRY_INTERVAL_US = 1000 * 1000"

definition TT_MAX_CONNECTION_RETRIES :: nat where
  "TT_MAX_CONNECTION_RETRIES = 300"

definition TT_STATISTICS_LOG_INTERVAL :: u64 where
  "TT_STATISTICS_LOG_INTERVAL = 100"

text \<open>\<^verbatim>\<open>SIGNO_TT\<close> is the third real-time signal; \<^verbatim>\<open>__SIGRTMIN\<close> is 32.\<close>

definition SIGNO_TT :: int where
  "SIGNO_TT = 32 + 2"

text \<open>The string fields of a task description hold C strings that fit their arrays.\<close>

definition task_ok :: "task_info \<Rightarrow> bool" where
  "task_ok t \<longleftrightarrow> fits TINFO_NAME_MAX (ti_name t) \<and> fits TINFO_NODEID_MAX (ti_node_id t)"

definition sched_info_ok :: "sched_info \<Rightarrow> bool" where
  "sched_info_ok si \<longleftrightarrow> fits WORKLOAD_ID_MAX (si_workload_id si) \<and> list_all task_ok (si_tasks si)"

end
