(* ===== verification/Serialize.thy ===== *)
theory Serialize
  imports Timpani_Prelude
begin

text \<open>
  The serial buffer of libtrpc (\<^verbatim>\<open>libtrpc/src/serialize.c\<close>, \<^verbatim>\<open>serialize.h\<close>, \<^verbatim>\<open>libtrpc.h\<close>): a growing
  block of memory that is written at its end and read back from its end, so that the reader
  names the fields in the reverse order of the writer. The theory holds the buffer and its
  operations with their memory accesses, the layout invariant that keeps every access inside the
  block, the abstract view of the buffer as a stack of bytes, and the round trips of every
  primitive type, stated once for any writer/reader pair as the locale \<open>byte_channel\<close>.
\<close>

section \<open>The buffer\<close>

record serial_buf =
  sb_data :: "byte list"
  sb_pos :: nat
  sb_size :: nat

text \<open>
  The allocator is the C library's: for a request of \<open>n\<close> bytes it answers with the block (its
  contents are whatever the memory held) or with NULL. Its documented behaviour is \<open>malloc_spec\<close>.
\<close>

type_synonym allocator = "nat \<Rightarrow> byte list option"

definition malloc_spec :: "allocator \<Rightarrow> bool" where
  "malloc_spec alloc \<longleftrightarrow> (\<forall>n m. alloc n = Some m \<longrightarrow> length m = n)"

definition realloc :: "allocator \<Rightarrow> byte list \<Rightarrow> nat \<Rightarrow> byte list option" where
  "realloc alloc old n =
     (case alloc n of None \<Rightarrow> None | Some m \<Rightarrow> Some (take n old @ drop (length old) m))"

text \<open>
  An operation ends with success (and the value read), with the return code \<open>-1\<close> (\<open>Err\<close>, with the
  buffer as it was left), or it has accessed memory outside of an object (\<open>Overrun\<close>).
\<close>

datatype 'a ser = Ok 'a serial_buf | Err serial_buf | Overrun

fun and_then :: "'a ser \<Rightarrow> ('a \<Rightarrow> serial_buf \<Rightarrow> 'b ser) \<Rightarrow> 'b ser" where
  "and_then (Ok a b) f = f a b"
| "and_then (Err b) f = Err b"
| "and_then Overrun f = Overrun"

definition INITIAL_SERIAL_BUF_SIZE :: nat where
  "INITIAL_SERIAL_BUF_SIZE = 32"

definition sizeof_serial_buf :: nat where
  "sizeof_serial_buf = 24"

definition new_serial_buf :: "allocator \<Rightarrow> nat \<Rightarrow> serial_buf option" where
  "new_serial_buf alloc sz =
     (case alloc sizeof_serial_buf of
        None \<Rightarrow> None
      | Some _ \<Rightarrow>
          (let sz' = (if sz \<le> 0 then INITIAL_SERIAL_BUF_SIZE else sz)
           in case alloc sz' of
                None \<Rightarrow> None
              | Some d \<Rightarrow> Some \<lparr>sb_data = d, sb_pos = 0, sb_size = sz'\<rparr>))"

definition make_serial_buf :: "allocator \<Rightarrow> byte list \<Rightarrow> nat \<Rightarrow> serial_buf option" where
  "make_serial_buf alloc data sz =
     (case alloc sizeof_serial_buf of
        None \<Rightarrow> None
      | Some _ \<Rightarrow> Some \<lparr>sb_data = data, sb_pos = sz, sb_size = sz\<rparr>)"

definition reset_serial_buf :: "serial_buf option \<Rightarrow> serial_buf option" where
  "reset_serial_buf b = map_option (\<lambda>b. b\<lparr>sb_pos := 0\<rparr>) b"

fun reserve_space :: "allocator \<Rightarrow> serial_buf option \<Rightarrow> nat \<Rightarrow> serial_buf option" where
  "reserve_space alloc None bytes = None"
| "reserve_space alloc (Some b) bytes =
     (if sb_pos b + bytes > sb_size b
      then let new_size = sb_size b * 2;
               new_size = (if sb_pos b + bytes > new_size then new_size + bytes else new_size)
           in case realloc alloc (sb_data b) new_size of
                None \<Rightarrow> None
              | Some d \<Rightarrow> Some (b\<lparr>sb_data := d, sb_size := new_size\<rparr>)
      else Some b)"

text \<open>The \<^verbatim>\<open>memcpy\<close> to and from the position, each with the block it must stay inside of.\<close>

definition put_bytes :: "byte list \<Rightarrow> serial_buf \<Rightarrow> unit ser" where
  "put_bytes bs b =
     (if sb_pos b + length bs \<le> length (sb_data b)
      then Ok () (b\<lparr>sb_data := take (sb_pos b) (sb_data b) @ bs @
                               drop (sb_pos b + length bs) (sb_data b),
                    sb_pos := sb_pos b + length bs\<rparr>)
      else Overrun)"

definition get_bytes :: "nat \<Rightarrow> serial_buf \<Rightarrow> byte list ser" where
  "get_bytes n b =
     (if sb_pos b + n \<le> length (sb_data b)
      then Ok (take n (drop (sb_pos b) (sb_data b))) b
      else Overrun)"

section \<open>Integers and floating point numbers\<close>

text \<open>
  The first argument is the byte order of the host. A \<^verbatim>\<open>float\<close> or \<^verbatim>\<open>double\<close> is its bit pattern,
  which is all that the code looks at.
\<close>

definition htons :: "bool \<Rightarrow> u16 \<Rightarrow> u16" where
  "htons le val = (if le then bswap 2 val else val)"

definition htonl :: "bool \<Rightarrow> u32 \<Rightarrow> u32" where
  "htonl le val = (if le then bswap 4 val else val)"

definition ntohs :: "bool \<Rightarrow> u16 \<Rightarrow> u16" where
  "ntohs le val = (if le then bswap 2 val else val)"

definition ntohl :: "bool \<Rightarrow> u32 \<Rightarrow> u32" where
  "ntohl le val = (if le then bswap 4 val else val)"

definition htonll :: "bool \<Rightarrow> u64 \<Rightarrow> u64" where
  "htonll le val = (if le then bswap 8 val else val)"

definition ntohll :: "bool \<Rightarrow> u64 \<Rightarrow> u64" where
  "ntohll le val = (if le then bswap 8 val else val)"

definition htonf :: "bool \<Rightarrow> u32 \<Rightarrow> u32" where
  "htonf le val = (if le then bswap 4 val else val)"

definition ntohf :: "bool \<Rightarrow> u32 \<Rightarrow> u32" where
  "ntohf le val = (if le then bswap 4 val else val)"

definition htond :: "bool \<Rightarrow> u64 \<Rightarrow> u64" where
  "htond le val = (if le then bswap 8 val else val)"

definition ntohd :: "bool \<Rightarrow> u64 \<Rightarrow> u64" where
  "ntohd le val = (if le then bswap 8 val else val)"

text \<open>
  The two halves of the macro: the value \<open>x\<close> that is in network order already is appended, and
  the last \<open>n\<close> bytes are taken off and read as a value in network order.
\<close>

definition serialize_T :: "allocator \<Rightarrow> bool \<Rightarrow> nat \<Rightarrow> 'a::len word \<Rightarrow> serial_buf \<Rightarrow> unit ser" where
  "serialize_T alloc le n x b =
     (case reserve_space alloc (Some b) n of
        None \<Rightarrow> Err b
      | Some b' \<Rightarrow> put_bytes (store le n x) b')"

definition deserialize_T :: "bool \<Rightarrow> nat \<Rightarrow> ('a::len word \<Rightarrow> 'c) \<Rightarrow> serial_buf \<Rightarrow> 'c ser" where
  "deserialize_T le n conv b =
     (if sb_pos b < n then Err b
      else and_then (get_bytes n (b\<lparr>sb_pos := sb_pos b - n\<rparr>)) (\<lambda>bs b. Ok (conv (load le bs)) b))"

definition serialize_int8_t :: "allocator \<Rightarrow> bool \<Rightarrow> u8 \<Rightarrow> serial_buf \<Rightarrow> unit ser" where
  "serialize_int8_t alloc le t = serialize_T alloc le 1 t"

definition serialize_int16_t :: "allocator \<Rightarrow> bool \<Rightarrow> u16 \<Rightarrow> serial_buf \<Rightarrow> unit ser" where
  "serialize_int16_t alloc le t = serialize_T alloc le 2 (htons le t)"

definition serialize_int32_t :: "allocator \<Rightarrow> bool \<Rightarrow> u32 \<Rightarrow> serial_buf \<Rightarrow> unit ser" where
  "serialize_int32_t alloc le t = serialize_T alloc le 4 (htonl le t)"

definition serialize_int64_t :: "allocator \<Rightarrow> bool \<Rightarrow> u64 \<Rightarrow> serial_buf \<Rightarrow> unit ser" where
  "serialize_int64_t alloc le t = serialize_T alloc le 8 (htonll le t)"

definition serialize_float :: "allocator \<Rightarrow> bool \<Rightarrow> u32 \<Rightarrow> serial_buf \<Rightarrow> unit ser" where
  "serialize_float alloc le t = serialize_T alloc le 4 (htonf le t)"

definition serialize_double :: "allocator \<Rightarrow> bool \<Rightarrow> u64 \<Rightarrow> serial_buf \<Rightarrow> unit ser" where
  "serialize_double alloc le t = serialize_T alloc le 8 (htond le t)"

definition deserialize_int8_t :: "bool \<Rightarrow> serial_buf \<Rightarrow> u8 ser" where
  "deserialize_int8_t le = deserialize_T le 1 (\<lambda>x. x)"

definition deserialize_int16_t :: "bool \<Rightarrow> serial_buf \<Rightarrow> u16 ser" where
  "deserialize_int16_t le = deserialize_T le 2 (ntohs le)"

definition deserialize_int32_t :: "bool \<Rightarrow> serial_buf \<Rightarrow> u32 ser" where
  "deserialize_int32_t le = deserialize_T le 4 (ntohl le)"

definition deserialize_int64_t :: "bool \<Rightarrow> serial_buf \<Rightarrow> u64 ser" where
  "deserialize_int64_t le = deserialize_T le 8 (ntohll le)"

definition deserialize_float :: "bool \<Rightarrow> serial_buf \<Rightarrow> u32 ser" where
  "deserialize_float le = deserialize_T le 4 (ntohf le)"

definition deserialize_double :: "bool \<Rightarrow> serial_buf \<Rightarrow> u64 ser" where
  "deserialize_double le = deserialize_T le 8 (ntohd le)"

section \<open>Blobs and strings\<close>

text \<open>
  A blob is its bytes followed by their number. The destination of a read is an object of \<open>cap\<close>
  bytes: the code writes as many bytes as the buffer says, wherever the object ends.
\<close>

definition serialize_blob :: "allocator \<Rightarrow> bool \<Rightarrow> byte list \<Rightarrow> u32 \<Rightarrow> serial_buf \<Rightarrow> unit ser" where
  "serialize_blob alloc le t bytes b =
     (case reserve_space alloc (Some b) (unat bytes + 4) of
        None \<Rightarrow> Err b
      | Some b' \<Rightarrow>
          if length t < unat bytes then Overrun
          else and_then (put_bytes (take (unat bytes) t) b')
                 (\<lambda>_ b''. put_bytes (store le 4 (htonl le bytes)) b''))"

definition deserialize_blob :: "bool \<Rightarrow> nat \<Rightarrow> serial_buf \<Rightarrow> byte list ser" where
  "deserialize_blob le cap b =
     (if sb_pos b < 4 then Err b
      else and_then (get_bytes 4 (b\<lparr>sb_pos := sb_pos b - 4\<rparr>)) (\<lambda>hdr b1.
        let bytes = unat (ntohl le (load le hdr))
        in if sb_pos b1 < bytes then Err b1
           else and_then (get_bytes bytes (b1\<lparr>sb_pos := sb_pos b1 - bytes\<rparr>)) (\<lambda>t b2.
                  if cap < bytes then Overrun else Ok t b2)))"

definition serialize_str :: "allocator \<Rightarrow> bool \<Rightarrow> string \<Rightarrow> serial_buf \<Rightarrow> unit ser" where
  "serialize_str alloc le t b =
     serialize_blob alloc le (bytes_of (cstr t)) (of_nat (length (cstr t))) b"

definition deserialize_str :: "bool \<Rightarrow> nat \<Rightarrow> serial_buf \<Rightarrow> string ser" where
  "deserialize_str le cap b =
     and_then (deserialize_blob le cap b)
       (\<lambda>t b'. if length t < cap then Ok (cstr (string_of t)) b' else Overrun)"

section \<open>Layout invariant and abstract contents\<close>

definition buf_ok :: "serial_buf \<Rightarrow> bool" where
  "buf_ok b \<longleftrightarrow> sb_pos b \<le> sb_size b \<and> length (sb_data b) = sb_size b"

definition content :: "serial_buf \<Rightarrow> byte list" where
  "content b = take (sb_pos b) (sb_data b)"

definition popped :: "serial_buf \<Rightarrow> byte list \<Rightarrow> serial_buf" where
  "popped b c = b\<lparr>sb_pos := length c\<rparr>"

lemma and_then_Ok [buf_simps]:
  "and_then m f = Ok x b' \<longleftrightarrow> (\<exists>a b. m = Ok a b \<and> f a b = Ok x b')"
  by (cases m) auto

lemma and_then_Overrun [buf_simps]:
  "and_then m f = Overrun \<longleftrightarrow> m = Overrun \<or> (\<exists>a b. m = Ok a b \<and> f a b = Overrun)"
  by (cases m) auto

lemma malloc_spec_length: "malloc_spec alloc \<Longrightarrow> alloc n = Some m \<Longrightarrow> length m = n"
  by (simp add: malloc_spec_def)

lemma realloc_grow:
  assumes "malloc_spec alloc" and "length old \<le> n" and "realloc alloc old n = Some d"
  shows "length d = n \<and> take (length old) d = old"
  using assms by (auto simp: realloc_def malloc_spec_length split: option.splits)

lemma length_content [buf_simps]: "buf_ok b \<Longrightarrow> length (content b) = sb_pos b"
  by (simp add: buf_ok_def content_def)

lemma new_serial_buf_ok:
  assumes "malloc_spec alloc" and "new_serial_buf alloc sz = Some b"
  shows "buf_ok b \<and> content b = [] \<and> 0 < sb_size b"
  using assms
  by (auto simp: new_serial_buf_def buf_ok_def content_def malloc_spec_length Let_def
      INITIAL_SERIAL_BUF_SIZE_def split: option.splits if_splits)

lemma make_serial_buf_ok:
  assumes "make_serial_buf alloc bs (length bs) = Some b"
  shows "buf_ok b \<and> content b = bs"
  using assms by (auto simp: make_serial_buf_def buf_ok_def content_def split: option.splits)

lemma reset_serial_buf_ok:
  "buf_ok b \<Longrightarrow> \<exists>b'. reset_serial_buf (Some b) = Some b' \<and> buf_ok b' \<and> content b' = []"
  by (auto simp: reset_serial_buf_def buf_ok_def content_def)

text \<open>
  After a successful reservation the requested bytes fit behind the position, and nothing that
  was in the buffer has changed.
\<close>

lemma reserve_space_ok:
  assumes "malloc_spec alloc" and "buf_ok b" and "reserve_space alloc (Some b) n = Some b'"
  shows "buf_ok b' \<and> content b' = content b \<and> sb_pos b' = sb_pos b
    \<and> sb_pos b' + n \<le> sb_size b' \<and> sb_size b \<le> sb_size b'"
proof (cases "sb_pos b + n > sb_size b")
  case False
  with assms show ?thesis by auto
next
  case True
  define ns where
    "ns = (if sb_pos b + n > sb_size b * 2 then sb_size b * 2 + n else sb_size b * 2)"
  from assms(3) True obtain d where d: "realloc alloc (sb_data b) ns = Some d"
    and b': "b' = b\<lparr>sb_data := d, sb_size := ns\<rparr>"
    by (auto simp: Let_def ns_def split: option.splits)
  have len: "length (sb_data b) \<le> ns" and fit: "sb_pos b + n \<le> ns"
    using assms(2) by (auto simp: ns_def buf_ok_def)
  from realloc_grow [OF assms(1) len d]
  have "length d = ns" and keep: "take (length (sb_data b)) d = sb_data b" by auto
  moreover from keep have "take (sb_pos b) d = take (sb_pos b) (sb_data b)"
    using assms(2) by (metis buf_ok_def min.absorb1 take_take)
  ultimately show ?thesis
    using assms(2) len fit by (auto simp: buf_ok_def content_def b')
qed

lemma put_bytes_ok:
  assumes "buf_ok b" and "sb_pos b + length bs \<le> sb_size b"
  shows "\<exists>b'. put_bytes bs b = Ok () b' \<and> buf_ok b' \<and> content b' = content b @ bs
    \<and> sb_pos b' = sb_pos b + length bs \<and> sb_size b' = sb_size b"
  using assms by (auto simp: put_bytes_def buf_ok_def content_def)

lemma popped_ok:
  assumes "buf_ok b" and "content b = c @ d"
  shows "buf_ok (popped b c)" and "content (popped b c) = c"
    and "take (length d) (drop (length c) (sb_data b)) = d"
    and "sb_pos b = length c + length d"
proof -
  have len: "sb_pos b = length c + length d"
    using assms length_content [OF assms(1)] by simp
  have tk: "take (length c + length d) (sb_data b) = c @ d"
    using assms(2) by (simp add: content_def len)
  have "take (length c) (take (length c + length d) (sb_data b)) = c"
    by (simp only: tk) simp
  then have "take (length c) (sb_data b) = c" by simp
  moreover have "drop (length c) (take (length c + length d) (sb_data b)) = d"
    by (simp only: tk) simp
  then have "take (length d) (drop (length c) (sb_data b)) = d" by (simp add: drop_take)
  ultimately show "content (popped b c) = c" "take (length d) (drop (length c) (sb_data b)) = d"
    by (simp_all add: popped_def content_def)
  show "buf_ok (popped b c)" using assms(1) len by (simp add: popped_def buf_ok_def)
  show "sb_pos b = length c + length d" by (rule len)
qed

section \<open>Writer/reader pairs\<close>

text \<open>
  The contract every primitive of the buffer keeps: a successful write appends the encoding of
  the value to the contents and keeps the layout, a failed one leaves the buffer alone, neither
  leaves the block, and a read of contents that end in the encoding returns the value and takes
  exactly the encoding off.
\<close>

locale byte_channel =
  fixes put :: "'a \<Rightarrow> serial_buf \<Rightarrow> unit ser"
    and get :: "serial_buf \<Rightarrow> 'a ser"
    and enc :: "'a \<Rightarrow> byte list"
    and valid :: "'a \<Rightarrow> bool"
  assumes put_Ok: "buf_ok b \<Longrightarrow> valid x \<Longrightarrow> put x b = Ok u b' \<Longrightarrow>
      buf_ok b' \<and> content b' = content b @ enc x"
    and put_Err: "buf_ok b \<Longrightarrow> valid x \<Longrightarrow> put x b = Err b' \<Longrightarrow> b' = b"
    and put_inside: "buf_ok b \<Longrightarrow> valid x \<Longrightarrow> put x b \<noteq> Overrun"
    and get_enc: "buf_ok b \<Longrightarrow> valid x \<Longrightarrow> content b = c @ enc x \<Longrightarrow> get b = Ok x (popped b c)"
begin

lemma put_get:
  assumes "buf_ok b" and "valid x" and "put x b = Ok u b'"
  shows "\<exists>b''. get b' = Ok x b'' \<and> buf_ok b'' \<and> content b'' = content b"
proof -
  from put_Ok [OF assms] have b': "buf_ok b'" "content b' = content b @ enc x" by auto
  from get_enc [OF b'(1) assms(2) b'(2)] popped_ok [OF b'] show ?thesis by blast
qed

lemma get_popped:
  assumes "buf_ok b" and "valid x" and "content b = c @ enc x"
  shows "get b = Ok x (popped b c)" and "buf_ok (popped b c)" and "content (popped b c) = c"
  using get_enc [OF assms] popped_ok [OF assms(1,3)] by simp_all

end

text \<open>Two pairs in sequence are a pair for the product, read back in the reverse order.\<close>

locale two_channels = fst: byte_channel put1 get1 enc1 valid1 + snd: byte_channel put2 get2 enc2 valid2
  for put1 :: "'a \<Rightarrow> serial_buf \<Rightarrow> unit ser" and get1 enc1 valid1
    and put2 :: "'b \<Rightarrow> serial_buf \<Rightarrow> unit ser" and get2 enc2 valid2
begin

definition put_pair :: "'a \<times> 'b \<Rightarrow> serial_buf \<Rightarrow> unit ser" where
  "put_pair p b = and_then (put1 (fst p) b) (\<lambda>_. put2 (snd p))"

definition get_pair :: "serial_buf \<Rightarrow> ('a \<times> 'b) ser" where
  "get_pair b = and_then (get2 b) (\<lambda>y b'. and_then (get1 b') (\<lambda>x b''. Ok (x, y) b''))"

lemma get_pair_enc:
  assumes "buf_ok b" and "valid1 x" and "valid2 y" and "content b = c @ enc1 x @ enc2 y"
  shows "get_pair b = Ok (x, y) (popped (popped b (c @ enc1 x)) c)"
proof -
  from assms(4) have c: "content b = (c @ enc1 x) @ enc2 y" by simp
  note second = snd.get_popped [OF assms(1,3) c]
  from fst.get_popped [OF second(2) assms(2) second(3)] second(1) show ?thesis
    by (simp add: get_pair_def)
qed

end

section \<open>The primitives are such pairs\<close>

lemma serialize_T_cases:
  assumes "malloc_spec alloc" and "buf_ok b"
  shows "serialize_T alloc le n x b = Err b \<or>
    (\<exists>b'. serialize_T alloc le n x b = Ok () b' \<and> buf_ok b' \<and> content b' = content b @ store le n x)"
proof (cases "reserve_space alloc (Some b) n")
  case None
  then show ?thesis by (simp add: serialize_T_def del: reserve_space.simps)
next
  case (Some b1)
  from reserve_space_ok [OF assms Some] put_bytes_ok [of b1 "store le n x"] Some
  show ?thesis by (auto simp: serialize_T_def simp del: reserve_space.simps)
qed

lemma deserialize_T_enc:
  assumes "buf_ok b" and "content b = c @ d" and "length d = n"
  shows "deserialize_T le n conv b = Ok (conv (load le d)) (popped b c)"
proof -
  note pop = popped_ok [OF assms(1,2)]
  have "length c + n \<le> length (sb_data b)"
    using assms(1,3) pop(4) by (simp add: buf_ok_def)
  with pop(3,4) assms(3) show ?thesis
    by (simp add: deserialize_T_def get_bytes_def popped_def)
qed

text \<open>On the wire every integer has its most significant byte first, on either kind of host.\<close>

definition be :: "nat \<Rightarrow> 'a::len word \<Rightarrow> byte list" where
  "be n x = rev (to_le n x)"

lemma store_hton [byte_order]:
  "store le 2 (htons le x2) = be 2 x2" "store le 4 (htonl le x4) = be 4 x4"
  "store le 8 (htonll le x8) = be 8 x8" "store le 4 (htonf le x4) = be 4 x4"
  "store le 8 (htond le x8) = be 8 x8"
  by (simp_all add: store_def be_def htons_def htonl_def htonll_def htonf_def htond_def to_le_bswap)

lemma load_be [byte_order]:
  "ntohs le (load le (be 2 x2)) = x2" "ntohl le (load le (be 4 x4)) = x4"
  "ntohll le (load le (be 8 x8)) = x8" "ntohf le (load le (be 4 x4)) = x4"
  "ntohd le (load le (be 8 x8)) = x8"
  by (simp_all add: load_def be_def ntohs_def ntohl_def ntohll_def ntohf_def ntohd_def
      of_le_to_le_full bswap_def [symmetric])

lemma store_u8: "store le 1 x = be 1 (x :: u8)"
  by (simp add: store_def be_def)

lemma load_u8: "load le (be 1 x) = (x :: u8)"
  by (simp add: load_def be_def)

lemma length_be [simp, byte_order]: "length (be n x) = n"
  by (simp add: be_def)

lemma byte_channel_T:
  assumes st: "\<And>x. store le n (h x) = e x" and ld: "\<And>x. conv (load le' (e x)) = x"
  shows "byte_channel (\<lambda>x. serialize_T alloc le n (h x)) (deserialize_T le' n conv) e
    (\<lambda>_. malloc_spec alloc)"
proof
  fix b b' u x
  assume b: "buf_ok b" and m: "malloc_spec alloc"
  note cases = serialize_T_cases [OF m b, of le n "h x"]
  show "serialize_T alloc le n (h x) b \<noteq> Overrun" using cases by auto
  { assume "serialize_T alloc le n (h x) b = Ok u b'"
    with cases show "buf_ok b' \<and> content b' = content b @ e x" by (auto simp: st) }
  { assume "serialize_T alloc le n (h x) b = Err b'"
    with cases show "b' = b" by auto }
next
  fix b x c
  assume "buf_ok b" and c: "content b = c @ e x"
  have "length (e x) = n" by (simp add: st [symmetric])
  from deserialize_T_enc [OF \<open>buf_ok b\<close> c this, of le' conv]
  show "deserialize_T le' n conv b = Ok x (popped b c)" by (simp add: ld)
qed

interpretation i8: byte_channel "serialize_int8_t alloc le" "deserialize_int8_t le'" "be 1"
  "\<lambda>_. malloc_spec alloc" for alloc le le'
  using byte_channel_T [of le 1 "\<lambda>x. x" "be 1" "\<lambda>x. x" le' alloc, OF store_u8 load_u8]
  by (simp add: serialize_int8_t_def [abs_def] deserialize_int8_t_def)

interpretation i16: byte_channel "serialize_int16_t alloc le" "deserialize_int16_t le'" "be 2"
  "\<lambda>_. malloc_spec alloc" for alloc le le'
  using byte_channel_T [of le 2 "htons le" "be 2" "ntohs le'" le' alloc]
  by (simp add: serialize_int16_t_def [abs_def] deserialize_int16_t_def byte_order)

interpretation i32: byte_channel "serialize_int32_t alloc le" "deserialize_int32_t le'" "be 4"
  "\<lambda>_. malloc_spec alloc" for alloc le le'
  using byte_channel_T [of le 4 "htonl le" "be 4" "ntohl le'" le' alloc]
  by (simp add: serialize_int32_t_def [abs_def] deserialize_int32_t_def byte_order)

interpretation i64: byte_channel "serialize_int64_t alloc le" "deserialize_int64_t le'" "be 8"
  "\<lambda>_. malloc_spec alloc" for alloc le le'
  using byte_channel_T [of le 8 "htonll le" "be 8" "ntohll le'" le' alloc]
  by (simp add: serialize_int64_t_def [abs_def] deserialize_int64_t_def byte_order)

interpretation flt: byte_channel "serialize_float alloc le" "deserialize_float le'" "be 4"
  "\<lambda>_. malloc_spec alloc" for alloc le le'
  using byte_channel_T [of le 4 "htonf le" "be 4" "ntohf le'" le' alloc]
  by (simp add: serialize_float_def [abs_def] deserialize_float_def byte_order)

interpretation dbl: byte_channel "serialize_double alloc le" "deserialize_double le'" "be 8"
  "\<lambda>_. malloc_spec alloc" for alloc le le'
  using byte_channel_T [of le 8 "htond le" "be 8" "ntohd le'" le' alloc]
  by (simp add: serialize_double_def [abs_def] deserialize_double_def byte_order)

text \<open>Blobs and strings: the bytes, then their number.\<close>

definition enc_blob :: "byte list \<Rightarrow> byte list" where
  "enc_blob bs = bs @ be 4 (of_nat (length bs) :: u32)"

definition enc_str :: "string \<Rightarrow> byte list" where
  "enc_str s = enc_blob (bytes_of s)"

lemma unat_length_u32: "length bs < 2 ^ 32 \<Longrightarrow> unat (of_nat (length bs) :: u32) = length bs"
  by (simp add: unat_of_nat)

lemma serialize_blob_cases:
  assumes "malloc_spec alloc" and "buf_ok b" and "length bs < 2 ^ 32"
  shows "serialize_blob alloc le bs (of_nat (length bs)) b = Err b \<or>
    (\<exists>b'. serialize_blob alloc le bs (of_nat (length bs)) b = Ok () b' \<and> buf_ok b' \<and>
       content b' = content b @ enc_blob bs)"
proof (cases "reserve_space alloc (Some b) (length bs + 4)")
  case None
  then show ?thesis
    by (simp add: serialize_blob_def unat_length_u32 [OF assms(3)] del: reserve_space.simps)
next
  case (Some b1)
  from reserve_space_ok [OF assms(1,2) Some]
  have b1: "buf_ok b1" "content b1 = content b" "sb_pos b1 + length bs + 4 \<le> sb_size b1" by auto
  obtain b2 where b2: "put_bytes bs b1 = Ok () b2" "buf_ok b2" "content b2 = content b1 @ bs"
      "sb_pos b2 = sb_pos b1 + length bs" "sb_size b2 = sb_size b1"
    using put_bytes_ok [of b1 bs] b1 by auto
  obtain b3 where "put_bytes (be 4 (of_nat (length bs) :: u32)) b2 = Ok () b3" "buf_ok b3"
      "content b3 = content b2 @ be 4 (of_nat (length bs) :: u32)"
    using put_bytes_ok [of b2 "be 4 (of_nat (length bs) :: u32)"] b1 b2 by auto
  with Some b1 b2 show ?thesis
    by (simp add: serialize_blob_def unat_length_u32 [OF assms(3)] enc_blob_def store_hton
        del: reserve_space.simps)
qed

lemma deserialize_blob_enc:
  assumes "buf_ok b" and "length bs < 2 ^ 32" and "length bs \<le> cap" and c: "content b = c @ enc_blob bs"
  shows "deserialize_blob le cap b = Ok bs (popped b c)"
proof -
  let ?h = "be 4 (of_nat (length bs) :: u32)"
  from c have c1: "content b = (c @ bs) @ ?h" by (simp add: enc_blob_def)
  note p1 = popped_ok [OF assms(1) c1]
  note p2 = popped_ok [OF p1(1,2)]
  have in1: "length c + length bs + 4 \<le> length (sb_data b)"
    using p1(4) assms(1) by (simp add: buf_ok_def)
  have g1: "get_bytes 4 (b\<lparr>sb_pos := sb_pos b - 4\<rparr>) = Ok ?h (popped b (c @ bs))"
    using p1(3,4) in1 by (simp add: get_bytes_def popped_def add.assoc)
  have g2: "get_bytes (length bs) ((popped b (c @ bs))\<lparr>sb_pos := length c\<rparr>) = Ok bs (popped b c)"
    using p2(3) in1 by (simp add: get_bytes_def popped_def)
  have "sb_pos (popped b (c @ bs)) = length c + length bs" by (simp add: popped_def)
  with g1 g2 p1(4) assms(3) show ?thesis
    by (simp add: deserialize_blob_def load_be unat_length_u32 [OF assms(2)])
qed

interpretation blob: byte_channel "\<lambda>bs. serialize_blob alloc le bs (of_nat (length bs))"
  "deserialize_blob le' cap" enc_blob
  "\<lambda>bs. malloc_spec alloc \<and> length bs < 2 ^ 32 \<and> length bs \<le> cap" for alloc le le' cap
proof (unfold_locales, goal_cases)
  case (1 b x u b')
  with serialize_blob_cases [of alloc b x le] show ?case by auto
next
  case (2 b x b')
  with serialize_blob_cases [of alloc b x le] show ?case by auto
next
  case (3 b x)
  with serialize_blob_cases [of alloc b x le] show ?case by auto
next
  case (4 b x c)
  then show ?case by (intro deserialize_blob_enc) auto
qed

lemma serialize_str_blob:
  assumes "NUL \<notin> set s"
  shows "serialize_str alloc le s b =
    serialize_blob alloc le (bytes_of s) (of_nat (length (bytes_of s))) b"
  by (simp add: serialize_str_def cstr_id [OF assms])

interpretation str: byte_channel "serialize_str alloc le" "deserialize_str le' cap" enc_str
  "\<lambda>s. malloc_spec alloc \<and> fits cap s \<and> cap \<le> 2 ^ 32" for alloc le le' cap
proof (unfold_locales, goal_cases)
  case (1 b x u b')
  with serialize_blob_cases [of alloc b "bytes_of x" le] show ?case
    by (auto simp: serialize_str_blob fits_def enc_str_def)
next
  case (2 b x b')
  with serialize_blob_cases [of alloc b "bytes_of x" le] show ?case
    by (auto simp: serialize_str_blob fits_def)
next
  case (3 b x)
  with serialize_blob_cases [of alloc b "bytes_of x" le] show ?case
    by (auto simp: serialize_str_blob fits_def)
next
  case (4 b x c)
  then have "deserialize_blob le' cap b = Ok (bytes_of x) (popped b c)"
    by (intro deserialize_blob_enc) (auto simp: fits_def enc_str_def)
  with 4 show ?case by (auto simp: deserialize_str_def fits_def cstr_id)
qed

text \<open>The header of a schedule: the hyperperiod, then the name of the workload.\<close>

interpretation header: two_channels "serialize_int64_t alloc le" "deserialize_int64_t le'" "be 8"
  "\<lambda>_. malloc_spec alloc" "serialize_str alloc le" "deserialize_str le' cap" enc_str
  "\<lambda>s. malloc_spec alloc \<and> fits cap s \<and> cap \<le> 2 ^ 32" for alloc le le' cap
  by unfold_locales

section \<open>Properties\<close>

definition reads_back :: "('a \<Rightarrow> serial_buf \<Rightarrow> unit ser) \<Rightarrow> (serial_buf \<Rightarrow> 'a ser) \<Rightarrow> ('a \<Rightarrow> bool) \<Rightarrow> bool" where
  "reads_back put get V \<longleftrightarrow> (\<forall>b b' x. buf_ok b \<longrightarrow> V x \<longrightarrow> put x b = Ok () b' \<longrightarrow>
     (\<exists>b''. get b' = Ok x b'' \<and> buf_ok b'' \<and> content b'' = content b))"

definition safe_write :: "(serial_buf \<Rightarrow> unit ser) \<Rightarrow> byte list \<Rightarrow> serial_buf \<Rightarrow> bool" where
  "safe_write put bs b \<longleftrightarrow>
     (case put b of
        Ok _ b' \<Rightarrow> buf_ok b' \<and> content b' = content b @ bs
      | Err b' \<Rightarrow> b' = b
      | Overrun \<Rightarrow> False)"

lemma byte_channel_reads_back:
  "byte_channel put get enc V \<Longrightarrow> reads_back put get V"
  unfolding reads_back_def by (blast dest: byte_channel.put_get)

lemma byte_channel_safe_write:
  assumes "byte_channel put get enc V" and "buf_ok b" and "V x"
  shows "safe_write (put x) (enc x) b"
  using byte_channel.put_Ok [OF assms] byte_channel.put_Err [OF assms]
    byte_channel.put_inside [OF assms]
  by (auto simp: safe_write_def split: ser.splits)

text \<open>
  C30. Whatever the byte orders of the writing and of the reading host, every value of every
  primitive type that was written to a buffer is read back unchanged, and the buffer then holds
  what it held before the write; for a string this needs a destination that the string with its
  terminator fits into.
\<close>

theorem primitives_read_back:
  assumes "malloc_spec alloc"
  shows "reads_back (serialize_int8_t alloc le) (deserialize_int8_t le') (\<lambda>_. True)
    \<and> reads_back (serialize_int16_t alloc le) (deserialize_int16_t le') (\<lambda>_. True)
    \<and> reads_back (serialize_int32_t alloc le) (deserialize_int32_t le') (\<lambda>_. True)
    \<and> reads_back (serialize_int64_t alloc le) (deserialize_int64_t le') (\<lambda>_. True)
    \<and> reads_back (serialize_float alloc le) (deserialize_float le') (\<lambda>_. True)
    \<and> reads_back (serialize_double alloc le) (deserialize_double le') (\<lambda>_. True)
    \<and> reads_back (\<lambda>bs. serialize_blob alloc le bs (of_nat (length bs))) (deserialize_blob le' cap)
         (\<lambda>bs. length bs < 2 ^ 32 \<and> length bs \<le> cap)
    \<and> reads_back (serialize_str alloc le) (deserialize_str le' cap) (\<lambda>s. fits cap s \<and> cap \<le> 2 ^ 32)"
  using byte_channel_reads_back [OF i8.byte_channel_axioms [of alloc le le']]
    byte_channel_reads_back [OF i16.byte_channel_axioms [of alloc le le']]
    byte_channel_reads_back [OF i32.byte_channel_axioms [of alloc le le']]
    byte_channel_reads_back [OF i64.byte_channel_axioms [of alloc le le']]
    byte_channel_reads_back [OF flt.byte_channel_axioms [of alloc le le']]
    byte_channel_reads_back [OF dbl.byte_channel_axioms [of alloc le le']]
    byte_channel_reads_back [OF blob.byte_channel_axioms [of alloc le le' cap]]
    byte_channel_reads_back [OF str.byte_channel_axioms [of alloc le le' cap]]
  by (simp add: assms)

definition zero_alloc :: allocator where
  "zero_alloc n = Some (replicate n 0)"

lemma malloc_spec_zero_alloc [simp]: "malloc_spec zero_alloc"
  by (simp add: malloc_spec_def zero_alloc_def)

lemma primitives_read_back_witness:
  "malloc_spec zero_alloc \<and> fits 16 ''task1'' \<and>
   (\<exists>b' b''. serialize_str zero_alloc True ''task1'' \<lparr>sb_data = [], sb_pos = 0, sb_size = 0\<rparr> = Ok () b' \<and>
     deserialize_str False 16 b' = Ok ''task1'' b'' \<and> content b'' = [])"
proof -
  let ?b = "\<lparr>sb_data = [], sb_pos = 0, sb_size = 0\<rparr>"
  have ok: "buf_ok ?b" "content ?b = []" by (simp_all add: buf_ok_def content_def)
  have fit: "fits 16 ''task1''" by (simp add: fits_def)
  have "\<exists>b'. serialize_str zero_alloc True ''task1'' ?b = Ok () b'"
    by (simp add: serialize_str_def serialize_blob_def cstr_def zero_alloc_def realloc_def
        put_bytes_def bytes_of_def)
  then obtain b' where b': "serialize_str zero_alloc True ''task1'' ?b = Ok () b'" ..
  have "reads_back (serialize_str zero_alloc True) (deserialize_str False 16) (\<lambda>s. fits 16 s \<and> (16::nat) \<le> 2 ^ 32)"
    using primitives_read_back [of zero_alloc True False 16] by simp
  with ok fit b' obtain b'' where "deserialize_str False 16 b' = Ok ''task1'' b'' \<and> content b'' = []"
    unfolding reads_back_def by fastforce
  with fit b' show ?thesis by auto
qed

text \<open>
  C31. A write of any primitive keeps the layout of the buffer and appends to the contents
  exactly the bytes of the wire format, most significant byte first on every host; a write that
  fails for lack of memory leaves the buffer as it was; no write touches memory outside the block.
\<close>

theorem primitives_safe_write:
  assumes "malloc_spec alloc" and "buf_ok b"
  shows "safe_write (serialize_int8_t alloc le x1) (be 1 x1) b
    \<and> safe_write (serialize_int16_t alloc le x2) (be 2 x2) b
    \<and> safe_write (serialize_int32_t alloc le x4) (be 4 x4) b
    \<and> safe_write (serialize_int64_t alloc le x8) (be 8 x8) b
    \<and> safe_write (serialize_float alloc le x4) (be 4 x4) b
    \<and> safe_write (serialize_double alloc le x8) (be 8 x8) b
    \<and> (fits (2 ^ 32) s \<longrightarrow> safe_write (serialize_str alloc le s) (enc_str s) b)"
  using byte_channel_safe_write [OF i8.byte_channel_axioms [of alloc le le] assms(2,1), of x1]
    byte_channel_safe_write [OF i16.byte_channel_axioms [of alloc le le] assms(2,1), of x2]
    byte_channel_safe_write [OF i32.byte_channel_axioms [of alloc le le] assms(2,1), of x4]
    byte_channel_safe_write [OF i64.byte_channel_axioms [of alloc le le] assms(2,1), of x8]
    byte_channel_safe_write [OF flt.byte_channel_axioms [of alloc le le] assms(2,1), of x4]
    byte_channel_safe_write [OF dbl.byte_channel_axioms [of alloc le le] assms(2,1), of x8]
    byte_channel_safe_write [OF str.byte_channel_axioms [of alloc le le "2 ^ 32"] assms(2), of s]
    assms(1)
  by simp

lemma primitives_safe_write_witness:
  "safe_write (serialize_int32_t zero_alloc True 0x01020304) [1, 2, 3, 4]
     \<lparr>sb_data = [7, 7], sb_pos = 1, sb_size = 2\<rparr>"
proof -
  have "buf_ok \<lparr>sb_data = [7, 7], sb_pos = 1, sb_size = 2\<rparr>" by (simp add: buf_ok_def)
  moreover have "be 4 (0x01020304 :: u32) = [1, 2, 3, 4]"
    by (simp add: be_def to_le_numeral)
  ultimately show ?thesis
    using primitives_safe_write [of zero_alloc "\<lparr>sb_data = [7, 7], sb_pos = 1, sb_size = 2\<rparr>" True
        0 0 "0x01020304" 0 "[]"]
    by simp
qed

text \<open>
  The reader works on bytes that came over the network. \<open>blob_len\<close> is the length that the last
  four bytes of such a buffer announce.
\<close>

definition blob_len :: "bool \<Rightarrow> serial_buf \<Rightarrow> nat" where
  "blob_len le b = unat (ntohl le (load le (take 4 (drop (sb_pos b - 4) (sb_data b)))))"

lemma get_bytes_inside:
  "buf_ok b \<Longrightarrow> n \<le> sb_pos b \<Longrightarrow>
   get_bytes n (b\<lparr>sb_pos := sb_pos b - n\<rparr>) =
     Ok (take n (drop (sb_pos b - n) (sb_data b))) (b\<lparr>sb_pos := sb_pos b - n\<rparr>)"
  by (simp add: get_bytes_def buf_ok_def)

lemma buf_ok_rewind: "buf_ok b \<Longrightarrow> p \<le> sb_pos b \<Longrightarrow> buf_ok (b\<lparr>sb_pos := p\<rparr>)"
  by (simp add: buf_ok_def)

lemma deserialize_T_untrusted:
  assumes "buf_ok b"
  shows "if sb_pos b < n then deserialize_T le n conv b = Err b
    else \<exists>x. deserialize_T le n conv b = Ok x (b\<lparr>sb_pos := sb_pos b - n\<rparr>)"
  using get_bytes_inside [OF assms, of n] by (simp add: deserialize_T_def)

lemma deserialize_blob_untrusted:
  assumes "buf_ok b"
  shows "deserialize_blob le cap b =
    (if sb_pos b < 4 then Err b
     else if sb_pos b - 4 < blob_len le b then Err (b\<lparr>sb_pos := sb_pos b - 4\<rparr>)
     else if cap < blob_len le b then Overrun
     else Ok (take (blob_len le b) (drop (sb_pos b - 4 - blob_len le b) (sb_data b)))
            (b\<lparr>sb_pos := sb_pos b - 4 - blob_len le b\<rparr>))"
proof (cases "4 \<le> sb_pos b")
  case True
  let ?b1 = "b\<lparr>sb_pos := sb_pos b - 4\<rparr>"
  have "get_bytes 4 ?b1 = Ok (take 4 (drop (sb_pos b - 4) (sb_data b))) ?b1"
    using get_bytes_inside [OF assms True] .
  moreover have "buf_ok ?b1" using assms by (rule buf_ok_rewind) simp
  ultimately show ?thesis
    using True get_bytes_inside [of ?b1 "blob_len le b"]
    by (auto simp: deserialize_blob_def blob_len_def Let_def)
qed (simp add: deserialize_blob_def)

text \<open>
  C32. Reading a string from arbitrary received bytes never leaves the received block and keeps
  its layout; what it stores is a terminated C string that fits the destination, and it consumes
  the announced bytes and the length word. It writes outside its destination exactly when the
  announced length is present in the block and not smaller than the destination.
\<close>

theorem deserialize_str_untrusted:
  assumes "buf_ok b"
  shows "(case deserialize_str le cap b of
        Ok s b' \<Rightarrow> buf_ok b' \<and> fits cap s \<and> sb_pos b' + blob_len le b + 4 = sb_pos b
      | Err b' \<Rightarrow> buf_ok b' \<and> (sb_pos b < 4 \<or> sb_pos b < blob_len le b + 4)
      | Overrun \<Rightarrow> 4 \<le> sb_pos b \<and> blob_len le b + 4 \<le> sb_pos b \<and> cap \<le> blob_len le b)"
proof -
  have len: "length (string_of t) < cap \<Longrightarrow> fits cap (cstr (string_of t))" for t
    using length_cstr [of "string_of t"] by (simp add: fits_def)
  show ?thesis
    using assms len
    by (auto simp: deserialize_str_def deserialize_blob_untrusted [OF assms] buf_ok_rewind)
qed

lemma deserialize_str_untrusted_witness:
  "deserialize_str True 2 \<lparr>sb_data = [65, 66, 0, 0, 0, 2], sb_pos = 6, sb_size = 6\<rparr> = Overrun \<and>
   (case deserialize_str True 2 \<lparr>sb_data = [65, 66, 0, 0, 0, 2], sb_pos = 6, sb_size = 6\<rparr> of
      Overrun \<Rightarrow> 2 \<le> blob_len True \<lparr>sb_data = [65, 66, 0, 0, 0, 2], sb_pos = 6, sb_size = 6\<rparr>
    | _ \<Rightarrow> False)"
proof -
  let ?b = "\<lparr>sb_data = [65, 66, 0, 0, 0, 2], sb_pos = 6, sb_size = 6\<rparr> :: serial_buf"
  have ok: "buf_ok ?b" by (simp add: buf_ok_def)
  have "ntohl True (of_le [0, 0, 0, 2]) = 2"
    by (simp add: ntohl_def bswap_def to_le_numeral)
  then have "deserialize_str True 2 ?b = Overrun"
    by (simp add: deserialize_str_def deserialize_blob_def get_bytes_def load_def)
  with deserialize_str_untrusted [OF ok, where le = True and cap = 2] show ?thesis by simp
qed

text \<open>
  Growing the buffer at least doubles it, and adds the requested bytes to the doubled size
  only where doubling is not enough; for blocks below half of the address space and requests of at
  most a blob of 2^32 bytes with its length word, no intermediate size exceeds 64 bits.
\<close>

theorem reserve_space_growth:
  assumes "malloc_spec alloc" and "buf_ok b" and "reserve_space alloc (Some b) n = Some b'"
  shows "(sb_pos b + n \<le> sb_size b \<longrightarrow> b' = b)
    \<and> (sb_size b < sb_pos b + n \<longrightarrow> 2 * sb_size b \<le> sb_size b' \<and> sb_size b' \<le> 2 * sb_size b + n)
    \<and> sb_pos b' + n \<le> length (sb_data b')
    \<and> content b' = content b
    \<and> (sb_size b < 2 ^ 63 \<and> n \<le> 2 ^ 32 + 4 \<longrightarrow> sb_pos b + n < 2 ^ 64 \<and> sb_size b' < 2 ^ 64)"
proof -
  have size': "sb_size b' = sb_size b \<and> b' = b \<or> sb_size b < sb_pos b + n \<and>
      (sb_size b' = sb_size b * 2 \<or> sb_size b * 2 < sb_pos b + n \<and> sb_size b' = sb_size b * 2 + n)"
    using assms(3) by (auto simp: Let_def split: if_splits option.splits)
  have pos: "sb_pos b \<le> sb_size b" using assms(2) by (simp add: buf_ok_def)
  have "sb_pos b + n \<le> sb_size b \<Longrightarrow> b' = b" using size' by auto
  moreover have "sb_size b < sb_pos b + n \<Longrightarrow> 2 * sb_size b \<le> sb_size b' \<and> sb_size b' \<le> 2 * sb_size b + n"
    using assms(3) by (auto simp: Let_def split: if_splits option.splits)
  moreover have "sb_pos b' + n \<le> length (sb_data b') \<and> content b' = content b"
    using reserve_space_ok [OF assms] by (simp add: buf_ok_def)
  moreover have "sb_size b < 2 ^ 63 \<and> n \<le> 2 ^ 32 + 4 \<Longrightarrow> sb_pos b + n < 2 ^ 64 \<and> sb_size b' < 2 ^ 64"
    using size' pos by auto
  ultimately show ?thesis by blast
qed

lemma reserve_space_growth_witness:
  "\<exists>b'. reserve_space zero_alloc (Some \<lparr>sb_data = [1, 2, 3, 4], sb_pos = 3, sb_size = 4\<rparr>) 6 = Some b' \<and>
     sb_size b' = 14 \<and> content b' = [1, 2, 3]"
proof -
  let ?b = "\<lparr>sb_data = [1, 2, 3, 4], sb_pos = 3, sb_size = 4\<rparr> :: serial_buf"
  have ok: "buf_ok ?b" "content ?b = [1, 2, 3]" by (simp_all add: buf_ok_def content_def)
  obtain b' where b': "reserve_space zero_alloc (Some ?b) 6 = Some b'" "sb_size b' = 14"
    by (simp add: zero_alloc_def realloc_def)
  with reserve_space_growth [OF malloc_spec_zero_alloc ok(1) b'(1)] ok(2) show ?thesis by auto
qed

end
