(* ===== verification/Os.thy ===== *)
theory Os
  imports Node_Types Serialize
begin

text \<open>
  The world outside of the program: the kernel and C library calls, libsystemd and libbpf. None of
  their code is part of the repository, so what they answer is a parameter of the model: a state
  \<^verbatim>\<open>os\<close> carries a function \<open>answers\<close> from the number of calls made so far and the call to the answer
  (return value, \<^verbatim>\<open>errno\<close> and output arguments), and the list of calls made so far. Every theorem
  therefore holds for every sequence of answers. The static variables of the C files are part of
  the state as well. Operations are values of the state monad over \<^verbatim>\<open>os\<close>.

  The second half is a small calculus of effects: which calls an operation can issue, and which calls
  it did issue.
\<close>

section \<open>Calls\<close>

text \<open>A set of CPUs is the 1024-bit \<^verbatim>\<open>cpu_set_t\<close>.\<close>

type_synonym cpu_set = "1024 word"

definition CPU_ZERO :: cpu_set where
  "CPU_ZERO = 0"

definition CPU_SET :: "nat \<Rightarrow> cpu_set \<Rightarrow> cpu_set" where
  "CPU_SET cpu s = (if cpu < 1024 then set_bit cpu s else s)"

text \<open>The two programs that run in the kernel, each with a thread that reads its ring buffer.\<close>

datatype prog = Sigwait_prog | Schedstat_prog

datatype kcall =
    Sysconf_nprocessors
  | Sched_setaffinity int cpu_set
  | Sched_setattr int sched_attr_tt u32
  | Pidfd_open int u32
  | Pidfd_send_signal int int u32
  | Clock_gettime clockid
  | Clock_nanosleep clockid timespec
  | Usleep nat
  | Timer_create clockid sigevent
  | Timer_settime timer_t bool itimerspec
  | Timer_delete timer_t
  | Close int
  | Epoll_create1
  | Epoll_ctl_add int int
  | Epoll_ctl_del int int
  | Epoll_wait int
  | Socket string
  | Access string
  | Unlink string
  | Mkdir string nat
  | Bind int string
  | Chmod string nat
  | Recvfrom int
  | Sendto int dmiss_status_msg string
  | Sigaction int
  | Getpid
  | Opendir string
  | Closedir string
  | Fopen string string
  | Fclose string
  | Calloc string
  | Free string
  | Setsockopt int string int
  | Listen int
  | Accept4 int
  | Pthread_create prog
  | Pthread_join prog
  | Sched_setscheduler int u32 int
  | Prctl_set_name string
  | Prctl_get_name
  | Sigprocmask_block int
  | Sigwait int
  | Thread_create string
  | Thread_join string
  | Atomic_store string bool
  | Sleep_for nat

text \<open>libsystemd: an event loop, a bus connection, and the messages on it.\<close>

datatype bus_arg = Arg_bool int | Arg_u64 u64

datatype bcall =
    Event_default
  | Event_new
  | Event_run u64
  | Event_unref
  | Event_add_io int
  | Event_source_unref
  | Id128_randomize
  | Bus_new
  | Bus_set_description string
  | Bus_set_trusted
  | Bus_set_address string
  | Bus_set_fd int
  | Bus_set_server
  | Bus_set_anonymous
  | Bus_negotiate_creds
  | Bus_set_sender string
  | Bus_start
  | Bus_add_object_vtable
  | Bus_attach_event
  | Bus_flush_close_unref
  | Bus_unref
  | Bus_call_method string "string list"
  | Bus_error_free
  | Message_unref
  | Message_read string
  | Message_read_array
  | Message_new_method_return
  | Message_append_array "byte list"
  | Message_send
  | Reply_method_error
  | Reply_method_return "bus_arg list"

text \<open>libbpf, for the two kernel programs.\<close>

datatype pcall =
    Libbpf_set_print
  | Prog_open prog
  | Prog_load prog
  | Prog_attach prog
  | Prog_destroy prog
  | Ring_buffer_new prog
  | Ring_buffer_free prog
  | Ring_buffer_poll prog
  | Map_update_elem prog int u8
  | Map_delete_elem prog int

text \<open>gRPC: the server of the workload service, and the channel to the fault service.\<close>

datatype gcall =
    Build_and_start string
  | Shutdown
  | Create_channel string
  | New_stub
  | Notify_fault string string string int

datatype call = Kern kcall | Bus bcall | Bpf pcall | Grpc gcall

section \<open>Answers and state\<close>

text \<open>
  An answer has the return value (a non-zero value stands for a pointer that is not NULL), \<^verbatim>\<open>errno\<close>
  and the output arguments; \<open>signals\<close> are the signals that were delivered to the main thread while
  the call was in progress.
\<close>

record answer =
  ret :: int
  errno :: int
  out_ts :: timespec
  out_timer :: timer_t
  out_fd :: int
  out_msg :: timpani_msg
  out_dir :: "(string \<times> bool) list"
  out_text :: string
  out_bytes :: "byte list"
  out_strings :: "string list"
  out_ack :: int
  out_signo :: int
  signals :: "int list"

definition answer0 :: answer where
  "answer0 = \<lparr>ret = 0, errno = 0, out_ts = zero_ts, out_timer = 0, out_fd = 0, out_msg = Msg_reset,
     out_dir = [], out_text = [], out_bytes = [], out_strings = [], out_ack = 0, out_signo = 0, signals = []\<rparr>"

record globals =
  g_log_level :: int
  g_ctx :: bool
  g_bpf_ktime_off :: u64
  g_coredata_fd :: int
  g_plot_file :: bool
  g_sigwait_bpf :: bool
  g_sigwait_rb :: bool
  g_sigwait_need_exit :: bool
  g_schedstat_bpf :: bool
  g_schedstat_rb :: bool
  g_schedstat_need_exit :: bool

text \<open>The static variables at program start (\<^verbatim>\<open>globals.c\<close> and the initialisers in the files).\<close>

definition globals0 :: globals where
  "globals0 = \<lparr>g_log_level = 3, g_ctx = False, g_bpf_ktime_off = 0, g_coredata_fd = -1,
     g_plot_file = False, g_sigwait_bpf = False, g_sigwait_rb = False, g_sigwait_need_exit = False,
     g_schedstat_bpf = False, g_schedstat_rb = False, g_schedstat_need_exit = False\<rparr>"

record os =
  answers :: "nat \<Rightarrow> call \<Rightarrow> answer"
  heap :: allocator
  trace :: "call list"
  globals :: globals

type_synonym 'a io = "(os, 'a) state"

definition sys :: "call \<Rightarrow> answer io" where
  "sys c = State (\<lambda>s. (answers s (length (trace s)) c, s\<lparr>trace := trace s @ [c]\<rparr>))"

abbreviation "kern c \<equiv> sys (Kern c)"
abbreviation "bus c \<equiv> sys (Bus c)"
abbreviation "bpf c \<equiv> sys (Bpf c)"
abbreviation "grpc c \<equiv> sys (Grpc c)"

definition get_globals :: "globals io" where
  "get_globals = State (\<lambda>s. (globals s, s))"

definition set_globals :: "globals \<Rightarrow> unit io" where
  "set_globals g = State (\<lambda>s. ((), s\<lparr>globals := g\<rparr>))"

definition get_heap :: "allocator io" where
  "get_heap = State (\<lambda>s. (heap s, s))"

abbreviation return_io :: "'a \<Rightarrow> 'a io" where
  "return_io \<equiv> State_Monad.return"

text \<open>A system in which every call answers \<open>f c\<close>, whenever it is made.\<close>

definition os_of :: "(call \<Rightarrow> answer) \<Rightarrow> os" where
  "os_of f = \<lparr>answers = \<lambda>n c. f c, heap = zero_alloc, trace = [], globals = globals0\<rparr>"

lemma run_sys [simp, os_simps]:
  "run_state (sys c) s = (answers s (length (trace s)) c, s\<lparr>trace := trace s @ [c]\<rparr>)"
  by (simp add: sys_def)

lemma run_get_globals [simp, os_simps]: "run_state get_globals s = (globals s, s)"
  by (simp add: get_globals_def)

lemma run_set_globals [simp, os_simps]: "run_state (set_globals g) s = ((), s\<lparr>globals := g\<rparr>)"
  by (simp add: set_globals_def)

lemma run_get_heap [simp, os_simps]: "run_state get_heap s = (heap s, s)"
  by (simp add: get_heap_def)

lemma os_of_simps [simp]:
  "answers (os_of f) = (\<lambda>n. f)" "heap (os_of f) = zero_alloc" "trace (os_of f) = []"
  "globals (os_of f) = globals0"
  by (simp_all add: os_of_def)

section \<open>Signals\<close>

text \<open>The signals that were delivered during the calls since position \<open>n\<close>.\<close>

definition SIGINT :: int where "SIGINT = 2"
definition SIGTERM :: int where "SIGTERM = 15"

definition delivered :: "nat \<Rightarrow> os \<Rightarrow> int list" where
  "delivered n s = concat (map (\<lambda>k. signals (answers s k (trace s ! k))) [n..<length (trace s)])"

definition position :: "nat io" where
  "position = State (\<lambda>s. (length (trace s), s))"

definition stop_signal :: "nat \<Rightarrow> os \<Rightarrow> bool" where
  "stop_signal n s \<longleftrightarrow> (\<exists>g\<in>set (delivered n s). g = SIGINT \<or> g = SIGTERM)"

lemma run_position [simp]: "run_state position s = (length (trace s), s)"
  by (simp add: position_def)

section \<open>Effects\<close>

text \<open>
  A relation between the states before and after that is reflexive and transitive is kept by every
  composition of operations that keep it.
\<close>

locale io_effect =
  fixes R :: "os \<Rightarrow> os \<Rightarrow> bool"
  assumes effect_refl: "R s s"
    and effect_trans: "R s s' \<Longrightarrow> R s' s'' \<Longrightarrow> R s s''"
begin

lemma effect_return: "state_io_rel R (return_io x)"
  by (simp add: state_io_rel_def effect_refl)

lemma effect_bind:
  assumes "state_io_rel R m" and "\<And>x. state_io_rel R (f x)"
  shows "state_io_rel R (State_Monad.bind m f)"
  using assms by (auto simp: state_io_rel_def split: prod.splits intro: effect_trans dest: snd_eqD)

lemma effect_if:
  "state_io_rel R m \<Longrightarrow> state_io_rel R m' \<Longrightarrow> state_io_rel R (if b then m else m')"
  by simp

lemma effect_option:
  "state_io_rel R m \<Longrightarrow> (\<And>x. state_io_rel R (f x)) \<Longrightarrow>
    state_io_rel R (case v of None \<Rightarrow> m | Some x \<Rightarrow> f x)"
  by (cases v) simp_all

lemma effect_prod:
  "(\<And>x y. state_io_rel R (f x y)) \<Longrightarrow> state_io_rel R (case p of (x, y) \<Rightarrow> f x y)"
  by (cases p) simp

end

text \<open>
  \<open>appends P\<close>: calls that satisfy \<open>P\<close> have been made and nothing else has changed. \<open>touches P\<close> allows
  changes of the static variables too.
\<close>

definition appends :: "(call \<Rightarrow> bool) \<Rightarrow> os \<Rightarrow> os \<Rightarrow> bool" where
  "appends P s s' \<longleftrightarrow> (\<exists>cs. s' = s\<lparr>trace := trace s @ cs\<rparr> \<and> list_all P cs)"

definition touches :: "(call \<Rightarrow> bool) \<Rightarrow> os \<Rightarrow> os \<Rightarrow> bool" where
  "touches P s s' \<longleftrightarrow> (\<exists>cs g. s' = s\<lparr>trace := trace s @ cs, globals := g\<rparr> \<and> list_all P cs)"

abbreviation only :: "(call \<Rightarrow> bool) \<Rightarrow> 'a io \<Rightarrow> bool" where
  "only P m \<equiv> state_io_rel (appends P) m"

abbreviation only_g :: "(call \<Rightarrow> bool) \<Rightarrow> 'a io \<Rightarrow> bool" where
  "only_g P m \<equiv> state_io_rel (touches P) m"

interpretation app: io_effect "appends P" for P
proof unfold_locales
  fix s s' s''
  show "appends P s s" unfolding appends_def by (intro exI [of _ "[]"]) simp
  assume "appends P s s'" "appends P s' s''"
  then show "appends P s s''" by (fastforce simp: appends_def)
qed

interpretation tch: io_effect "touches P" for P
proof unfold_locales
  fix s s' s''
  show "touches P s s" unfolding touches_def by (intro exI [of _ "[]"] exI [of _ "globals s"]) simp
  assume "touches P s s'" "touches P s' s''"
  then show "touches P s s''" by (fastforce simp: touches_def)
qed

lemma only_sys: "P c \<Longrightarrow> only P (sys c)"
  by (auto simp: state_io_rel_def appends_def)

lemma only_get_globals: "only P get_globals"
  by (simp add: state_io_rel_def app.effect_refl)

lemma only_get_heap: "only P get_heap"
  by (simp add: state_io_rel_def app.effect_refl)

lemma only_g_set_globals: "only_g P (set_globals g)"
  unfolding state_io_rel_def touches_def
  by (intro allI exI [of _ "[]"] exI [of _ g]) simp

lemma only_imp_only_g: "only P m \<Longrightarrow> only_g P m"
  unfolding state_io_rel_def appends_def touches_def
  by (metis (no_types, lifting) os.surjective os.update_convs(3,4))

lemma only_mono: "only P m \<Longrightarrow> (\<And>c. P c \<Longrightarrow> Q c) \<Longrightarrow> only Q m"
  unfolding state_io_rel_def appends_def by (metis list_all_iff)

lemma only_g_mono: "only_g P m \<Longrightarrow> (\<And>c. P c \<Longrightarrow> Q c) \<Longrightarrow> only_g Q m"
  unfolding state_io_rel_def touches_def by (metis list_all_iff)

lemmas only_rules = app.effect_return app.effect_bind app.effect_if app.effect_option app.effect_prod
  only_sys only_get_globals only_get_heap

lemmas only_g_rules = tch.effect_return tch.effect_bind tch.effect_if tch.effect_option tch.effect_prod
  only_sys [THEN only_imp_only_g] only_get_globals [THEN only_imp_only_g]
  only_get_heap [THEN only_imp_only_g] only_g_set_globals

section \<open>The calls an operation makes\<close>

definition calls :: "'a io \<Rightarrow> os \<Rightarrow> call list" where
  "calls m s = drop (length (trace s)) (trace (snd (run_state m s)))"

abbreviation result :: "'a io \<Rightarrow> os \<Rightarrow> 'a" where
  "result m s \<equiv> fst (run_state m s)"

abbreviation after :: "'a io \<Rightarrow> os \<Rightarrow> os" where
  "after m s \<equiv> snd (run_state m s)"

lemma only_calls: "only P m \<Longrightarrow> list_all P (calls m s)"
  unfolding state_io_rel_def appends_def calls_def
  by (metis append_eq_conv_conj os.select_convs(3) os.surjective os.update_convs(3))

lemma only_g_calls: "only_g P m \<Longrightarrow> list_all P (calls m s)"
  unfolding state_io_rel_def touches_def calls_def
  by (metis (no_types, lifting) append_eq_conv_conj os.select_convs(3) os.surjective os.update_convs(3,4))

lemma only_g_trace: "only_g P m \<Longrightarrow> trace (after m s) = trace s @ calls m s"
  unfolding state_io_rel_def touches_def calls_def
  by (metis (no_types, lifting) append_eq_conv_conj os.select_convs(3) os.surjective os.update_convs(3,4))

lemma only_after: "only P m \<Longrightarrow> after m s = s\<lparr>trace := trace s @ calls m s\<rparr>"
  unfolding state_io_rel_def appends_def calls_def
  by (metis (no_types, lifting) append_eq_conv_conj os.select_convs(3) os.surjective os.update_convs(3))

lemma only_g_env: "only_g P m \<Longrightarrow> answers (after m s) = answers s \<and> heap (after m s) = heap s"
  unfolding state_io_rel_def touches_def
  by (metis (no_types, lifting) os.select_convs(1,2) os.surjective os.update_convs(3,4))

lemma calls_return [simp]: "calls (return_io x) s = []"
  by (simp add: calls_def)

lemma calls_sys [simp]: "calls (sys c) s = [c]"
  by (simp add: calls_def)

lemma calls_bind:
  assumes "only_g P m" and "\<And>x. only_g Q (f x)"
  shows "calls (State_Monad.bind m f) s = calls m s @ calls (f (result m s)) (after m s)"
proof -
  have "trace (after (f (result m s)) (after m s)) =
      trace s @ calls m s @ calls (f (result m s)) (after m s)"
    using only_g_trace [OF assms(2), of "result m s" "after m s"] only_g_trace [OF assms(1), of s] by simp
  moreover have "after (State_Monad.bind m f) s = after (f (result m s)) (after m s)"
    by (simp add: case_prod_beta)
  ultimately show ?thesis unfolding calls_def [of "State_Monad.bind m f"] by simp
qed

section \<open>Counting calls\<close>

text \<open>The number of calls, from position \<open>n\<close> on, that satisfy \<open>Q\<close> together with their answer.\<close>

primrec tally :: "(call \<Rightarrow> answer \<Rightarrow> bool) \<Rightarrow> os \<Rightarrow> nat \<Rightarrow> call list \<Rightarrow> nat" where
  "tally Q s n [] = 0"
| "tally Q s n (c # cs) = of_bool (Q c (answers s n c)) + tally Q s (Suc n) cs"

lemma tally_append: "tally Q s n (cs @ ds) = tally Q s n cs + tally Q s (n + length cs) ds"
  by (induction cs arbitrary: n) simp_all

lemma tally_env [simp]:
  "tally Q (s\<lparr>trace := t\<rparr>) n cs = tally Q s n cs" "tally Q (s\<lparr>globals := g\<rparr>) n cs = tally Q s n cs"
  by (induction cs arbitrary: n) simp_all

lemma tally_answers: "answers s' = answers s \<Longrightarrow> tally Q s' n cs = tally Q s n cs"
  by (induction cs arbitrary: n) simp_all

lemma tally_none: "list_all P cs \<Longrightarrow> (\<And>c a. P c \<Longrightarrow> \<not> Q c a) \<Longrightarrow> tally Q s n cs = 0"
  by (induction cs arbitrary: n) simp_all

text \<open>The number of calls with \<open>Q\<close> that an operation makes from a state.\<close>

definition made :: "(call \<Rightarrow> answer \<Rightarrow> bool) \<Rightarrow> 'a io \<Rightarrow> os \<Rightarrow> nat" where
  "made Q m s = tally Q s (length (trace s)) (calls m s)"

lemma made_return [simp]: "made Q (return_io x) s = 0"
  by (simp add: made_def)

lemma made_sys [simp]: "made Q (sys c) s = of_bool (Q c (answers s (length (trace s)) c))"
  by (simp add: made_def)

lemma made_none: "only_g P m \<Longrightarrow> (\<And>c a. P c \<Longrightarrow> \<not> Q c a) \<Longrightarrow> made Q m s = 0"
  unfolding made_def by (rule tally_none [OF only_g_calls])

lemma made_bind:
  assumes "only_g P m" and "\<And>x. only_g P' (f x)"
  shows "made Q (State_Monad.bind m f) s = made Q m s + made Q (f (result m s)) (after m s)"
proof -
  have len: "length (trace s) + length (calls m s) = length (trace (after m s))"
    unfolding only_g_trace [OF assms(1)] by simp
  have "tally Q (after m s) n cs = tally Q s n cs" for n cs
    by (rule tally_answers) (rule only_g_env [OF assms(1), THEN conjunct1])
  then show ?thesis
    unfolding made_def calls_bind [OF assms] tally_append len by (simp only:)
qed


text \<open>What a partial reading \<open>g\<close> of a call with its answer gives for the calls of an operation, in their order.\<close>

primrec gather :: "(call \<Rightarrow> answer \<Rightarrow> 'b option) \<Rightarrow> os \<Rightarrow> nat \<Rightarrow> call list \<Rightarrow> 'b list" where
  "gather g s n [] = []"
| "gather g s n (c # cs) = (case g c (answers s n c) of None \<Rightarrow> [] | Some y \<Rightarrow> [y]) @ gather g s (Suc n) cs"

lemma gather_append: "gather g s n (cs @ ds) = gather g s n cs @ gather g s (n + length cs) ds"
  by (induction cs arbitrary: n) simp_all

lemma gather_answers: "answers s' = answers s \<Longrightarrow> gather g s' n cs = gather g s n cs"
  by (induction cs arbitrary: n) simp_all

lemma gather_none: "list_all P cs \<Longrightarrow> (\<And>c a. P c \<Longrightarrow> g c a = None) \<Longrightarrow> gather g s n cs = []"
  by (induction cs arbitrary: n) simp_all

definition gathered :: "(call \<Rightarrow> answer \<Rightarrow> 'b option) \<Rightarrow> 'a io \<Rightarrow> os \<Rightarrow> 'b list" where
  "gathered g m s = gather g s (length (trace s)) (calls m s)"

lemma gathered_return [simp]: "gathered g (return_io x) s = []"
  by (simp add: gathered_def)

lemma gathered_sys [simp]:
  "gathered g (sys c) s = (case g c (answers s (length (trace s)) c) of None \<Rightarrow> [] | Some y \<Rightarrow> [y])"
  by (simp add: gathered_def)

lemma gathered_none: "only_g P m \<Longrightarrow> (\<And>c a. P c \<Longrightarrow> g c a = None) \<Longrightarrow> gathered g m s = []"
  unfolding gathered_def by (rule gather_none [OF only_g_calls])

lemma gathered_bind:
  assumes "only_g P m" and "\<And>x. only_g P' (f x)"
  shows "gathered g (State_Monad.bind m f) s = gathered g m s @ gathered g (f (result m s)) (after m s)"
proof -
  have len: "length (trace s) + length (calls m s) = length (trace (after m s))"
    unfolding only_g_trace [OF assms(1)] by simp
  have "gather g (after m s) n cs = gather g s n cs" for n cs
    by (rule gather_answers) (rule only_g_env [OF assms(1), THEN conjunct1])
  then show ?thesis
    unfolding gathered_def calls_bind [OF assms] gather_append len by (simp only:)
qed

text \<open>
  \<open>balances up down m R\<close>: from every state, \<open>R\<close> holds of the result of \<open>m\<close> and the number of calls with
  \<open>up\<close> that it has made less the number of calls with \<open>down\<close>.
\<close>

definition balances ::
  "(call \<Rightarrow> answer \<Rightarrow> bool) \<Rightarrow> (call \<Rightarrow> answer \<Rightarrow> bool) \<Rightarrow> 'a io \<Rightarrow> ('a \<Rightarrow> int \<Rightarrow> bool) \<Rightarrow> bool" where
  "balances up down m R \<longleftrightarrow> only_g (\<lambda>c. True) m \<and> (\<forall>s. R (result m s) (int (made up m s) - int (made down m s)))"

lemma balances_return: "R x 0 \<Longrightarrow> balances up down (return_io x) R"
  by (simp add: balances_def tch.effect_return)

lemma balances_bind:
  assumes "balances up down m R'" and "\<And>x. balances up down (f x) (\<lambda>y k'. \<forall>k. R' x k \<longrightarrow> R y (k + k'))"
  shows "balances up down (State_Monad.bind m f) R"
  unfolding balances_def
proof
  show g: "only_g (\<lambda>c. True) (State_Monad.bind m f)"
    using assms by (intro tch.effect_bind) (simp_all add: balances_def)
  have b: "made Q (State_Monad.bind m f) s = made Q m s + made Q (f (result m s)) (after m s)" for Q s
    using assms by (intro made_bind) (auto simp: balances_def)
  show "\<forall>s. R (result (State_Monad.bind m f) s)
      (int (made up (State_Monad.bind m f) s) - int (made down (State_Monad.bind m f) s))"
  proof
    fix s
    let ?r = "result m s"
    have "R' ?r (int (made up m s) - int (made down m s))" using assms(1) by (simp add: balances_def)
    with assms(2) [of ?r] have "R (result (f ?r) (after m s))
        (int (made up m s) - int (made down m s) +
         (int (made up (f ?r) (after m s)) - int (made down (f ?r) (after m s))))"
      by (auto simp: balances_def)
    then show "R (result (State_Monad.bind m f) s)
      (int (made up (State_Monad.bind m f) s) - int (made down (State_Monad.bind m f) s))"
      unfolding b by (simp add: case_prod_beta algebra_simps)
  qed
qed

lemma balances_quiet:
  assumes "only_g P m" and "\<And>c a. P c \<Longrightarrow> \<not> up c a" and "\<And>c a. P c \<Longrightarrow> \<not> down c a" and "\<And>s. R (result m s) 0"
  shows "balances up down m R"
  using made_none [OF assms(1,2)] made_none [OF assms(1,3)] only_g_mono [OF assms(1), of "\<lambda>c. True"] assms(4)
  by (simp add: balances_def)

lemma balances_sys: "(\<And>a. R a (of_bool (up c a) - of_bool (down c a))) \<Longrightarrow> balances up down (sys c) R"
  by (simp add: balances_def only_imp_only_g [OF only_sys])

lemma balances_if:
  "(b \<Longrightarrow> balances up down m R) \<Longrightarrow> (\<not> b \<Longrightarrow> balances up down m' R) \<Longrightarrow> balances up down (if b then m else m') R"
  by simp

lemma balances_mono: "balances up down m R \<Longrightarrow> (\<And>x k. R x k \<Longrightarrow> R' x k) \<Longrightarrow> balances up down m R'"
  by (auto simp: balances_def)

end
