(* ===== verification/Hyperperiod.thy ===== *)
theory Hyperperiod
  imports Os
begin

text \<open>
  The hyperperiod manager (\<^verbatim>\<open>timpani-n/src/hyperperiod.c\<close>): its initialisation from the schedule,
  the cycle counter that a periodic timer drives, the position inside the hyperperiod, and the
  start of the timer. The lemmas show that the masked and the plain computation of the position
  agree, that the first expiration lies exactly one hyperperiod after the start, and what every
  error path leaves behind. The statistics printed by \<^verbatim>\<open>log_hyperperiod_statistics\<close> are output only.
\<close>

section \<open>Operations\<close>

text \<open>The pointer arguments are options; the context is only stored.\<close>

definition init_hyperperiod ::
  "bool \<Rightarrow> string option \<Rightarrow> u64 \<Rightarrow> hyperperiod_manager option \<Rightarrow> tt_error \<times> hyperperiod_manager option" where
  "init_hyperperiod ctx workload_id hyperperiod_us hp_mgr =
     (case (ctx, workload_id, hp_mgr) of
        (True, Some w, Some hp) \<Rightarrow>
          (TT_SUCCESS, Some (hp\<lparr>hp_workload_id := strncpy_field WORKLOAD_ID_MAX w,
             hp_hyperperiod_us := hyperperiod_us,
             hp_current_cycle := 0,
             hp_completed_cycles := 0,
             hp_total_deadline_misses := 0,
             hp_cycle_deadline_misses := 0,
             hp_tasks_in_hyperperiod := 0,
             hp_ctx := True,
             hp_hyperperiod_start_time_us := 0\<rparr>))
      | _ \<Rightarrow> (TT_ERROR_CONFIG, hp_mgr))"

text \<open>The handler of the hyperperiod timer; its context supplies the clock.\<close>

definition hyperperiod_cycle_handler :: "clockid \<Rightarrow> hyperperiod_manager \<Rightarrow> hyperperiod_manager io" where
  "hyperperiod_cycle_handler clk hp = do {
     _ \<leftarrow> kern (Clock_gettime clk);
     let hp1 = hp\<lparr>hp_completed_cycles := hp_completed_cycles hp + 1\<rparr>;
     let hp2 = hp1\<lparr>hp_current_cycle :=
       (hp_current_cycle hp1 + 1) mod (if hp_hyperperiod_us hp1 > 0 then 1 else 1)\<rparr>;
     return_io (hp2\<lparr>hp_cycle_deadline_misses := 0\<rparr>)
   }"

definition get_hyperperiod_relative_time :: "clockid \<Rightarrow> hyperperiod_manager option \<Rightarrow> u64 io" where
  "get_hyperperiod_relative_time clk hp_mgr =
     (case hp_mgr of
        None \<Rightarrow> return_io 0
      | Some hp \<Rightarrow>
          if hp_hyperperiod_start_time_us hp = 0 then return_io 0
          else do {
            a \<leftarrow> kern (Clock_gettime clk);
            let current_time_us = tt_timespec_to_us (out_ts a);
            let elapsed_us = current_time_us - hp_hyperperiod_start_time_us hp;
            if hp_hyperperiod_us hp AND (hp_hyperperiod_us hp - 1) \<noteq> 0
            then return_io (elapsed_us mod hp_hyperperiod_us hp)
            else return_io (elapsed_us AND (hp_hyperperiod_us hp - 1))
          })"

text \<open>The first expiration and the interval that \<^verbatim>\<open>start_hyperperiod_timer\<close> computes.\<close>

definition hyperperiod_its :: "timespec \<Rightarrow> u64 \<Rightarrow> itimerspec" where
  "hyperperiod_its start us =
     (let sec = tv_sec start + us div TT_USEC_PER_SEC;
          nsec = tv_nsec start + us mod TT_USEC_PER_SEC * TT_NSEC_PER_USEC;
          first = (if nsec \<ge> TT_NSEC_PER_SEC then Timespec (sec + 1) (nsec - TT_NSEC_PER_SEC)
                   else Timespec sec nsec)
      in \<lparr>it_value = first,
          it_interval = Timespec (us div TT_USEC_PER_SEC) (us mod TT_USEC_PER_SEC * TT_NSEC_PER_USEC)\<rparr>)"

definition start_hyperperiod_timer :: "tt_context \<Rightarrow> (tt_error \<times> tt_context) io" where
  "start_hyperperiod_timer ctx =
     (if hp_hyperperiod_us (cx_hp_manager ctx) = 0 then return_io (TT_SUCCESS, ctx)
      else do {
        let hp = (cx_hp_manager ctx)\<lparr>hp_hyperperiod_start_ts := cx_starttimer_ts ctx,
                   hp_hyperperiod_start_time_us := tt_timespec_to_us (cx_starttimer_ts ctx)\<rparr>;
        let its = hyperperiod_its (cx_starttimer_ts ctx) (hp_hyperperiod_us hp);
        a \<leftarrow> kern (Timer_create (cfg_clockid (cx_config ctx)) Notify_hyperperiod_cycle);
        if ret a \<noteq> 0 then return_io (TT_ERROR_TIMER, ctx\<lparr>cx_hp_manager := hp\<rparr>)
        else do {
          let hp' = hp\<lparr>hp_hyperperiod_timer := out_timer a\<rparr>;
          b \<leftarrow> kern (Timer_settime (hp_hyperperiod_timer hp') True its);
          if ret b \<noteq> 0 then return_io (TT_ERROR_TIMER, ctx\<lparr>cx_hp_manager := hp'\<rparr>)
          else return_io (TT_SUCCESS, ctx\<lparr>cx_hp_manager := hp'\<rparr>)
        }
      })"

section \<open>Effects\<close>

fun is_clock_read :: "call \<Rightarrow> bool" where
  "is_clock_read (Kern (Clock_gettime c)) = True"
| "is_clock_read _ = False"

lemma only_cycle_handler [only_intros]: "only is_clock_read (hyperperiod_cycle_handler clk hp)"
  unfolding hyperperiod_cycle_handler_def Let_def by (intro only_rules) simp

lemma only_relative_time [only_intros]: "only is_clock_read (get_hyperperiod_relative_time clk hp)"
  unfolding get_hyperperiod_relative_time_def Let_def by (intro only_rules) simp

lemma cycle_handler_result:
  "result (hyperperiod_cycle_handler clk hp) s =
    hp\<lparr>hp_completed_cycles := hp_completed_cycles hp + 1, hp_current_cycle := 0,
       hp_cycle_deadline_misses := 0\<rparr>"
  by (simp add: hyperperiod_cycle_handler_def)

section \<open>Position inside the hyperperiod\<close>

lemma elapsed_mask:
  fixes e x :: u64
  shows "(if x AND (x - 1) \<noteq> 0 then e mod x else e AND (x - 1)) = (if x = 0 then e else e mod x)"
  using and_pred_exp_eq_mod [of x e] by (cases "x = 0") auto

lemma word_mod_less: "x \<noteq> 0 \<Longrightarrow> e mod x < x" for e x :: u64
  by (simp add: word_less_nat_alt unat_mod unat_gt_0)

text \<open>
  The position inside the hyperperiod: once the start time is set, the result is the time elapsed
  since the start modulo the hyperperiod, on the masking branch and on the dividing branch
  alike, and it lies below the hyperperiod; with no hyperperiod it is the elapsed time itself;
  before the start it is zero and the clock is not read.
\<close>

theorem hyperperiod_position:
  "result (get_hyperperiod_relative_time clk (Some hp)) s =
     (if hp_hyperperiod_start_time_us hp = 0 then 0
      else let e = tt_timespec_to_us (out_ts (answers s (length (trace s)) (Kern (Clock_gettime clk))))
                   - hp_hyperperiod_start_time_us hp
           in if hp_hyperperiod_us hp = 0 then e else e mod hp_hyperperiod_us hp) \<and>
   (hp_hyperperiod_us hp \<noteq> 0 \<longrightarrow>
      result (get_hyperperiod_relative_time clk (Some hp)) s < hp_hyperperiod_us hp) \<and>
   calls (get_hyperperiod_relative_time clk (Some hp)) s =
     (if hp_hyperperiod_start_time_us hp = 0 then [] else [Kern (Clock_gettime clk)])"
proof (cases "hp_hyperperiod_start_time_us hp = 0")
  case True
  then show ?thesis by (simp add: get_hyperperiod_relative_time_def word_gt_0)
next
  case False
  let ?now = "tt_timespec_to_us (out_ts (answers s (length (trace s)) (Kern (Clock_gettime clk))))"
  let ?e = "?now - hp_hyperperiod_start_time_us hp"
  have "run_state (get_hyperperiod_relative_time clk (Some hp)) s =
      (if hp_hyperperiod_us hp AND (hp_hyperperiod_us hp - 1) \<noteq> 0 then ?e mod hp_hyperperiod_us hp
       else ?e AND (hp_hyperperiod_us hp - 1), s\<lparr>trace := trace s @ [Kern (Clock_gettime clk)]\<rparr>)"
    using False by (simp add: get_hyperperiod_relative_time_def)
  then show ?thesis
    using False by (simp add: elapsed_mask word_mod_less calls_def)
qed

lemma hyperperiod_position_witness:
  "\<exists>s. result (get_hyperperiod_relative_time CLOCK_REALTIME
         (Some (zero_hyperperiod_manager\<lparr>hp_hyperperiod_us := 24, hp_hyperperiod_start_time_us := 7\<rparr>))) s < 24 \<and>
       result (get_hyperperiod_relative_time CLOCK_REALTIME
         (Some (zero_hyperperiod_manager\<lparr>hp_hyperperiod_us := 24, hp_hyperperiod_start_time_us := 7\<rparr>))) s = 21"
proof (intro exI conjI)
  let ?hp = "zero_hyperperiod_manager\<lparr>hp_hyperperiod_us := 24, hp_hyperperiod_start_time_us := 7\<rparr>"
  let ?s = "os_of (\<lambda>c. answer0\<lparr>out_ts := Timespec 0 100000\<rparr>)"
  show "result (get_hyperperiod_relative_time CLOCK_REALTIME (Some ?hp)) ?s < 24"
    using hyperperiod_position [of CLOCK_REALTIME ?hp ?s]
    by (simp add: zero_hyperperiod_manager_def tt_timespec_to_us_def tt_units)
  show "result (get_hyperperiod_relative_time CLOCK_REALTIME (Some ?hp)) ?s = 21"
    using hyperperiod_position [of CLOCK_REALTIME ?hp ?s]
    by (simp add: zero_hyperperiod_manager_def tt_timespec_to_us_def tt_units)
qed

section \<open>The hyperperiod timer\<close>

lemma hyperperiod_its_first:
  assumes "normal_ts start" and "unat (tv_sec start) < 2 ^ 62"
  shows "normal_ts (it_value (hyperperiod_its start us)) \<and>
    unat (tv_sec (it_value (hyperperiod_its start us))) * 1000000000 + unat (tv_nsec (it_value (hyperperiod_its start us)))
      = unat (tv_sec start) * 1000000000 + unat (tv_nsec start) + unat us * 1000"
proof -
  have nsec: "unat (tv_nsec start) < 1000000000" using assms(1) by (simp add: normal_ts_unat)
  have us: "unat us div 1000000 < 2 ^ 45" using unat_less_2p64 [of us] by auto
  have frac: "unat (us mod 1000000 * 1000) = unat us mod 1000000 * 1000"
    by (simp add: unat_mod unat_word_ariths)
  have fracle: "unat us mod 1000000 * 1000 \<le> 999999000" by simp
  have n: "unat (tv_nsec start + us mod 1000000 * 1000) = unat (tv_nsec start) + unat us mod 1000000 * 1000"
    using nsec fracle by (simp only: unat_word_ariths(1) frac) simp
  have s: "unat (tv_sec start + us div 1000000) = unat (tv_sec start) + unat us div 1000000"
    using assms(2) us by (simp add: unat_word_ariths unat_div)
  have s1: "unat (tv_sec start + us div 1000000 + 1) = unat (tv_sec start) + unat us div 1000000 + 1"
    using assms(2) us by (simp only: unat_word_ariths(1) [of "tv_sec start + us div 1000000"] s) simp
  have split: "unat us * 1000 = unat us div 1000000 * 1000000000 + unat us mod 1000000 * 1000"
    using us_to_timespec_units [of us] by (simp add: tt_us_to_timespec_def tt_units unat_div frac)
  show ?thesis
  proof (cases "1000000000 \<le> tv_nsec start + us mod 1000000 * 1000")
    case True
    then have ge: "1000000000 \<le> unat (tv_nsec start) + unat us mod 1000000 * 1000"
      using n by (simp add: word_le_nat_alt)
    have "unat (tv_nsec start + us mod 1000000 * 1000 - 1000000000) =
        unat (tv_nsec start) + unat us mod 1000000 * 1000 - 1000000000"
      by (simp only: unat_sub [OF True] n) simp
    then show ?thesis
      using True ge nsec fracle assms(2) us split
      by (simp add: hyperperiod_its_def tt_units normal_ts_unat s1)
  next
    case False
    then have "unat (tv_nsec start) + unat us mod 1000000 * 1000 < 1000000000"
      using n by (simp add: word_le_nat_alt)
    then show ?thesis
      using False assms(2) us split by (simp add: hyperperiod_its_def tt_units normal_ts_unat s n)
  qed
qed

lemma hyperperiod_its_interval: "it_interval (hyperperiod_its start us) = tt_us_to_timespec us"
  by (simp add: hyperperiod_its_def tt_us_to_timespec_def Let_def)


text \<open>
  Starting the hyperperiod timer from a normal start time: the timer is created on the configured
  clock and armed once, absolutely, for a normal time exactly one hyperperiod after the start
  of the task timers, with the hyperperiod as its interval; the start time in microseconds is
  recorded for the position computation. The code is TT_SUCCESS exactly when both calls
  succeed; a timer that could not be created is not armed.
\<close>

theorem start_hyperperiod_timer_arms:
  fixes ctx s
  defines "create \<equiv> Kern (Timer_create (cfg_clockid (cx_config ctx)) Notify_hyperperiod_cycle)"
  defines "a \<equiv> answers s (length (trace s)) create"
  defines "its \<equiv> hyperperiod_its (cx_starttimer_ts ctx) (hp_hyperperiod_us (cx_hp_manager ctx))"
  defines "arm \<equiv> Kern (Timer_settime (out_timer a) True its)"
  defines "r \<equiv> result (start_hyperperiod_timer ctx) s"
  assumes "hp_hyperperiod_us (cx_hp_manager ctx) \<noteq> 0"
    and "normal_ts (cx_starttimer_ts ctx)" and "unat (tv_sec (cx_starttimer_ts ctx)) < 2 ^ 62"
  shows "calls (start_hyperperiod_timer ctx) s = (if ret a = 0 then [create, arm] else [create]) \<and>
    (fst r = TT_SUCCESS \<longleftrightarrow> ret a = 0 \<and> ret (answers s (Suc (length (trace s))) arm) = 0) \<and>
    fst r \<in> {TT_SUCCESS, TT_ERROR_TIMER} \<and>
    hp_hyperperiod_start_time_us (cx_hp_manager (snd r)) = tt_timespec_to_us (cx_starttimer_ts ctx) \<and>
    normal_ts (it_value its) \<and>
    unat (tv_sec (it_value its)) * 1000000000 + unat (tv_nsec (it_value its)) =
      unat (tv_sec (cx_starttimer_ts ctx)) * 1000000000 + unat (tv_nsec (cx_starttimer_ts ctx))
      + unat (hp_hyperperiod_us (cx_hp_manager ctx)) * 1000 \<and>
    tt_timespec_to_us (it_interval its) = hp_hyperperiod_us (cx_hp_manager ctx)"
  using hyperperiod_its_first [OF assms(7,8), of "hp_hyperperiod_us (cx_hp_manager ctx)"] assms(6)
  by (simp add: start_hyperperiod_timer_def calls_def create_def a_def arm_def its_def r_def
      hyperperiod_its_interval us_unit.to_of_units Let_def)

lemma start_hyperperiod_timer_arms_witness:
  "\<exists>ctx s. fst (result (start_hyperperiod_timer ctx) s) = TT_SUCCESS \<and>
     it_value (hyperperiod_its (cx_starttimer_ts ctx) (hp_hyperperiod_us (cx_hp_manager ctx))) =
       Timespec 11 400000000 \<and>
     hp_hyperperiod_start_time_us (cx_hp_manager (snd (result (start_hyperperiod_timer ctx) s))) = 10900000"
proof (intro exI conjI)
  let ?ctx = "zero_context\<lparr>cx_starttimer_ts := Timespec 10 900000000,
      cx_hp_manager := zero_hyperperiod_manager\<lparr>hp_hyperperiod_us := 500000\<rparr>\<rparr>"
  let ?s = "os_of (\<lambda>c. answer0)"
  have pre: "hp_hyperperiod_us (cx_hp_manager ?ctx) \<noteq> 0" "normal_ts (cx_starttimer_ts ?ctx)"
      "unat (tv_sec (cx_starttimer_ts ?ctx)) < 2 ^ 62"
    by (simp_all add: zero_context_def zero_hyperperiod_manager_def normal_ts_unat)
  note * = start_hyperperiod_timer_arms [OF pre, of ?s]
  show "fst (result (start_hyperperiod_timer ?ctx) ?s) = TT_SUCCESS"
    using * by (simp add: answer0_def)
  show "hp_hyperperiod_start_time_us (cx_hp_manager (snd (result (start_hyperperiod_timer ?ctx) ?s))) = 10900000"
    using * by (simp add: tt_timespec_to_us_def tt_units)
  show "it_value (hyperperiod_its (cx_starttimer_ts ?ctx) (hp_hyperperiod_us (cx_hp_manager ?ctx))) =
      Timespec 11 400000000"
    by (simp add: hyperperiod_its_def tt_units zero_context_def zero_hyperperiod_manager_def)
qed

lemma start_hyperperiod_timer_unset:
  "hp_hyperperiod_us (cx_hp_manager ctx) = 0 \<Longrightarrow>
    run_state (start_hyperperiod_timer ctx) s = ((TT_SUCCESS, ctx), s)"
  by (simp add: start_hyperperiod_timer_def)

lemma start_hyperperiod_timer_frame:
  "run_state (start_hyperperiod_timer ctx) s = ((e, ctx'), s') \<Longrightarrow>
    \<exists>hp. ctx' = ctx\<lparr>cx_hp_manager := hp\<rparr> \<and> hp_hyperperiod_us hp = hp_hyperperiod_us (cx_hp_manager ctx)"
  by (auto simp: start_hyperperiod_timer_def Let_def split: if_splits)
    (metis hyperperiod_manager.simps tt_context.surjective tt_context.update_convs(10))+

end
