(* ===== verification/Peer_Dbus.thy ===== *)
theory Peer_Dbus
  imports Os
begin

text \<open>
  The remote procedure calls of libtrpc over a peer-to-peer bus (\<^verbatim>\<open>libtrpc/src/peer_dbus.c\<close>,
  \<^verbatim>\<open>peer_dbus.h\<close>, \<^verbatim>\<open>libtrpc.h\<close>): the client side that the node uses, the server side that the
  orchestrator uses with its call-backs as parameters, and the set-up of the connections with
  their clean-up paths. The bus library is a parameter (\<^verbatim>\<open>Os\<close>). The locale \<open>bus_request\<close> is the
  contract that all four requests of the client keep.
\<close>

section \<open>Names\<close>

definition TRPC_SERVER_NAME :: string where "TRPC_SERVER_NAME = ''com.lge.Timpani''"
definition TRPC_SERVER_DESC :: string where "TRPC_SERVER_DESC = ''Timpani-O''"
definition TRPC_CLIENT_DESC :: string where "TRPC_CLIENT_DESC = ''Timpani-N''"
definition TRPC_METHOD_REGISTER :: string where "TRPC_METHOD_REGISTER = ''Register''"
definition TRPC_METHOD_SCHEDINFO :: string where "TRPC_METHOD_SCHEDINFO = ''SchedInfo''"
definition TRPC_METHOD_DMISS :: string where "TRPC_METHOD_DMISS = ''DMiss''"
definition TRPC_METHOD_SYNC :: string where "TRPC_METHOD_SYNC = ''Sync''"

lemmas trpc_methods = TRPC_METHOD_REGISTER_def TRPC_METHOD_SCHEDINFO_def TRPC_METHOD_DMISS_def
  TRPC_METHOD_SYNC_def

section \<open>Server\<close>

text \<open>
  The call-backs of the server; each may be missing. The call-back for the schedule yields the
  bytes it stored through its pointers (none when it stored nothing).
\<close>

record trpc_server_ops =
  register_cb :: "(string \<Rightarrow> unit io) option"
  schedinfo_cb :: "(string \<Rightarrow> byte list io) option"
  dmiss_cb :: "(string \<Rightarrow> string \<Rightarrow> unit io) option"
  sync_cb :: "(string \<Rightarrow> (int \<times> timespec) io) option"

definition reply_error :: "int io" where
  "reply_error = do { r \<leftarrow> bus Reply_method_error; return_io (ret r) }"

definition trpc_method_register :: "trpc_server_ops option \<Rightarrow> int io" where
  "trpc_method_register ops = do {
     m \<leftarrow> bus (Message_read ''s'');
     if ret m < 0 then reply_error
     else do {
       let name = hd (out_strings m @ [[]]);
       (case ops of
          None \<Rightarrow> return_io ()
        | Some o1 \<Rightarrow> (case register_cb o1 of None \<Rightarrow> return_io () | Some cb \<Rightarrow> cb name));
       r \<leftarrow> bus (Reply_method_return []);
       return_io (ret r)
     }
   }"

definition trpc_method_schedinfo :: "trpc_server_ops option \<Rightarrow> int io" where
  "trpc_method_schedinfo ops = do {
     m \<leftarrow> bus (Message_read ''s'');
     if ret m < 0 then reply_error
     else do {
       let name = hd (out_strings m @ [[]]);
       buf \<leftarrow> (case ops of
          None \<Rightarrow> return_io []
        | Some o1 \<Rightarrow> (case schedinfo_cb o1 of None \<Rightarrow> return_io [] | Some cb \<Rightarrow> cb name));
       n \<leftarrow> bus Message_new_method_return;
       if ret n < 0 then reply_error
       else do {
         a \<leftarrow> bus (Message_append_array buf);
         if ret a < 0 then reply_error
         else do {
           r \<leftarrow> bus Message_send;
           return_io (ret r)
         }
       }
     }
   }"

definition trpc_method_dmiss :: "trpc_server_ops option \<Rightarrow> int io" where
  "trpc_method_dmiss ops = do {
     m \<leftarrow> bus (Message_read ''ss'');
     if ret m < 0 then reply_error
     else do {
       let name = hd (out_strings m @ [[]]);
       let task = hd (tl (out_strings m) @ [[]]);
       (case ops of
          None \<Rightarrow> return_io ()
        | Some o1 \<Rightarrow> (case dmiss_cb o1 of None \<Rightarrow> return_io () | Some cb \<Rightarrow> cb name task));
       r \<leftarrow> bus (Reply_method_return []);
       return_io (ret r)
     }
   }"

text \<open>
  Without a call-back the variables of the reply are not initialised: \<open>junk\<close> is what they hold.
\<close>

definition trpc_method_sync :: "int \<times> timespec \<Rightarrow> trpc_server_ops option \<Rightarrow> int io" where
  "trpc_method_sync junk ops = do {
     m \<leftarrow> bus (Message_read ''s'');
     if ret m < 0 then reply_error
     else do {
       let name = hd (out_strings m @ [[]]);
       (ack, ts) \<leftarrow> (case ops of
          None \<Rightarrow> return_io junk
        | Some o1 \<Rightarrow> (case sync_cb o1 of None \<Rightarrow> return_io junk | Some cb \<Rightarrow> cb name));
       r \<leftarrow> bus (Reply_method_return [Arg_bool ack, Arg_u64 (tv_sec ts), Arg_u64 (tv_nsec ts)]);
       return_io (ret r)
     }
   }"

text \<open>The method table: the handler by its name.\<close>

definition trpc_vtable :: "int \<times> timespec \<Rightarrow> trpc_server_ops option \<Rightarrow> string \<Rightarrow> int io option" where
  "trpc_vtable junk ops method =
     (if method = TRPC_METHOD_REGISTER then Some (trpc_method_register ops)
      else if method = TRPC_METHOD_SCHEDINFO then Some (trpc_method_schedinfo ops)
      else if method = TRPC_METHOD_DMISS then Some (trpc_method_dmiss ops)
      else if method = TRPC_METHOD_SYNC then Some (trpc_method_sync junk ops)
      else None)"

definition create_server_socket :: "int \<Rightarrow> int io" where
  "create_server_socket port = do {
     f \<leftarrow> kern (Socket ''inet'');
     let fd = ret f;
     if fd < 0 then return_io (- errno f)
     else do {
       o1 \<leftarrow> kern (Setsockopt fd ''SO_REUSEADDR'' 1);
       if ret o1 < 0 then return_io (- errno o1)
       else do {
         b \<leftarrow> kern (Bind fd (printf_d (port mod 65536)));
         if ret b < 0 then return_io (- errno b)
         else do {
           l \<leftarrow> kern (Listen fd);
           if ret l < 0 then return_io (- errno l)
           else return_io fd
         }
       }
     }
   }"

primrec sockopts :: "int \<Rightarrow> (string \<times> int) list \<Rightarrow> int io" where
  "sockopts fd [] = return_io 0"
| "sockopts fd (o1 # os) = do {
     r \<leftarrow> kern (Setsockopt fd (fst o1) (snd o1));
     if ret r < 0 then return_io (- errno r) else sockopts fd os
   }"

definition set_server_sockopt :: "int \<Rightarrow> int io" where
  "set_server_sockopt fd =
     sockopts fd [(''TCP_NODELAY'', 1), (''SO_KEEPALIVE'', 1), (''TCP_KEEPIDLE'', 60),
       (''TCP_KEEPINTVL'', 10), (''TCP_KEEPCNT'', 3)]"

text \<open>A run of bus calls that ends at the first negative return value.\<close>

primrec bus_steps :: "bcall list \<Rightarrow> int io" where
  "bus_steps [] = return_io 0"
| "bus_steps (c # cs) = do {
     a \<leftarrow> bus c;
     if ret a < 0 then return_io (ret a) else bus_steps cs
   }"

text \<open>The result tells whether the connection (not NULL) was made.\<close>

definition init_dbus_server :: "int \<Rightarrow> string \<Rightarrow> string \<Rightarrow> bool io" where
  "init_dbus_server fd sender dbus_desc = do {
     i \<leftarrow> bus Id128_randomize;
     if ret i < 0 then return_io False
     else do {
       n \<leftarrow> bus Bus_new;
       if ret n < 0 then return_io False
       else do {
         r \<leftarrow> bus_steps [Bus_set_description dbus_desc, Bus_set_trusted, Bus_set_fd fd, Bus_set_server,
                Bus_set_anonymous, Bus_negotiate_creds, Bus_set_sender sender, Bus_start,
                Bus_add_object_vtable, Bus_attach_event];
         if r < 0 then do { _ \<leftarrow> bus Bus_flush_close_unref; return_io False }
         else return_io True
       }
     }
   }"

definition server_handler :: "int \<Rightarrow> int io" where
  "server_handler fd = do {
     c \<leftarrow> kern (Accept4 fd);
     if ret c < 0 then return_io (if errno c = EAGAIN \<or> errno c = EINTR then 0 else -1)
     else do {
       dbus \<leftarrow> init_dbus_server (ret c) TRPC_SERVER_NAME TRPC_SERVER_DESC;
       if \<not> dbus then return_io (-1)
       else do {
         _ \<leftarrow> set_server_sockopt (ret c);
         return_io 0
       }
     }
   }"

text \<open>The result is the listening socket or -1, and whether the call-backs were installed.\<close>

definition trpc_server_create :: "int \<Rightarrow> (int \<times> bool) io" where
  "trpc_server_create port = do {
     fd \<leftarrow> create_server_socket port;
     if fd < 0 then do { _ \<leftarrow> bus Event_source_unref; return_io (-1, False) }
     else do {
       a \<leftarrow> bus (Event_add_io fd);
       if ret a < 0
       then do { _ \<leftarrow> bus Event_source_unref; _ \<leftarrow> kern (Close fd); return_io (-1, True) }
       else return_io (fd, True)
     }
   }"

section \<open>Client\<close>

definition init_dbus_client :: "string \<Rightarrow> string option \<Rightarrow> bool io" where
  "init_dbus_client dbus_desc serv_addr =
     (case serv_addr of
        None \<Rightarrow> return_io False
      | Some addr \<Rightarrow> do {
          n \<leftarrow> bus Bus_new;
          if ret n < 0 then return_io False
          else do {
            r \<leftarrow> bus_steps [Bus_set_description dbus_desc, Bus_set_trusted, Bus_set_address addr, Bus_start,
                   Bus_attach_event];
            if r < 0 then do { _ \<leftarrow> bus Bus_flush_close_unref; return_io False }
            else return_io True
          }
        })"

definition trpc_client_create :: "string option \<Rightarrow> int io" where
  "trpc_client_create serv_addr = do {
     dbus \<leftarrow> init_dbus_client TRPC_CLIENT_DESC serv_addr;
     return_io (if dbus then 0 else -1)
   }"

text \<open>
  The end of every request: the error is freed, and the reply too when the call delivered one
  (which it does exactly when it returns a non-negative value).
\<close>

definition request_cleanup :: "bool \<Rightarrow> unit io" where
  "request_cleanup reply = do {
     _ \<leftarrow> bus Bus_error_free;
     if reply then do { _ \<leftarrow> bus Message_unref; return_io () } else return_io ()
   }"

definition trpc_client_register :: "string \<Rightarrow> int io" where
  "trpc_client_register name = do {
     c \<leftarrow> bus (Bus_call_method TRPC_METHOD_REGISTER [name]);
     request_cleanup (ret c \<ge> 0);
     return_io (ret c)
   }"

text \<open>The bytes of the reply are copied to a block of their length; the result is the block.\<close>

definition trpc_client_schedinfo :: "string \<Rightarrow> (int \<times> byte list option) io" where
  "trpc_client_schedinfo name = do {
     c \<leftarrow> bus (Bus_call_method TRPC_METHOD_SCHEDINFO [name]);
     if ret c < 0 then do { request_cleanup False; return_io (ret c, None) }
     else do {
       a \<leftarrow> bus Message_read_array;
       if ret a < 0 then do { request_cleanup True; return_io (ret a, None) }
       else do {
         alloc \<leftarrow> get_heap;
         (case alloc (length (out_bytes a)) of
            None \<Rightarrow> do { request_cleanup True; return_io (-1, None) }
          | Some _ \<Rightarrow> do { request_cleanup True; return_io (ret a, Some (out_bytes a)) })
       }
     }
   }"

definition trpc_client_dmiss :: "string \<Rightarrow> string \<Rightarrow> int io" where
  "trpc_client_dmiss name task = do {
     c \<leftarrow> bus (Bus_call_method TRPC_METHOD_DMISS [name, task]);
     request_cleanup (ret c \<ge> 0);
     return_io (ret c)
   }"

text \<open>The result is the code and the acknowledgement and time that were stored, if any were.\<close>

definition trpc_client_sync :: "string \<Rightarrow> (int \<times> (int \<times> timespec) option) io" where
  "trpc_client_sync name = do {
     c \<leftarrow> bus (Bus_call_method TRPC_METHOD_SYNC [name]);
     if ret c < 0 then do { request_cleanup False; return_io (ret c, None) }
     else do {
       a \<leftarrow> bus (Message_read ''btt'');
       request_cleanup True;
       if ret a < 0 then return_io (ret a, None)
       else return_io (ret a, Some (out_ack a, out_ts a))
     }
   }"

section \<open>Effects\<close>

fun is_bus :: "call \<Rightarrow> bool" where
  "is_bus (Bus c) = True"
| "is_bus _ = False"

fun is_request :: "call \<Rightarrow> bool" where
  "is_request (Bus (Bus_call_method m as)) = True"
| "is_request _ = False"

lemma only_cleanup: "only is_bus (request_cleanup b)"
  unfolding request_cleanup_def by (intro only_rules) simp_all

lemma only_bus_steps: "only is_bus (bus_steps cs)"
  by (induction cs) (auto intro!: only_rules)

lemma only_client_schedinfo [only_intros]: "only is_bus (trpc_client_schedinfo name)"
  unfolding trpc_client_schedinfo_def by (intro only_rules only_cleanup) simp_all

lemma only_client_dmiss [only_intros]: "only is_bus (trpc_client_dmiss name task)"
  unfolding trpc_client_dmiss_def by (intro only_rules only_cleanup) simp_all

lemma only_client_register [only_intros]: "only is_bus (trpc_client_register name)"
  unfolding trpc_client_register_def by (intro only_rules only_cleanup) simp_all

lemma only_client_sync [only_intros]: "only is_bus (trpc_client_sync name)"
  unfolding trpc_client_sync_def by (intro only_rules only_cleanup) simp_all

lemma only_init_client: "only is_bus (init_dbus_client d a)"
  unfolding init_dbus_client_def by (intro only_rules only_bus_steps) simp_all

lemma only_client_create [only_intros]: "only is_bus (trpc_client_create a)"
  unfolding trpc_client_create_def by (intro only_rules only_init_client)

section \<open>The contract of a request\<close>

text \<open>
  A request makes one method call, then possibly reads the reply, and ends with the release of
  what the call handed out: always the error, and the reply exactly when there is one.
\<close>

locale bus_request =
  fixes op :: "'a io" and meth :: string and args :: "string list" and code :: "'a \<Rightarrow> int"
  assumes request_calls:
      "\<exists>reads. set reads \<subseteq> {Bus Message_read_array, Bus (Message_read ''btt'')} \<and>
        calls op s = Bus (Bus_call_method meth args) # reads @ [Bus Bus_error_free] @
          (if 0 \<le> ret (answers s (length (trace s)) (Bus (Bus_call_method meth args)))
           then [Bus Message_unref] else [])"
    and request_failed:
      "ret (answers s (length (trace s)) (Bus (Bus_call_method meth args))) < 0 \<Longrightarrow> code (result op s) < 0"
begin

lemma one_request: "filter is_request (calls op s) = [Bus (Bus_call_method meth args)]"
proof -
  from request_calls [of s] obtain reads where
    r: "set reads \<subseteq> {Bus Message_read_array, Bus (Message_read ''btt'')}" and
    c: "calls op s = Bus (Bus_call_method meth args) # reads @ [Bus Bus_error_free] @
          (if 0 \<le> ret (answers s (length (trace s)) (Bus (Bus_call_method meth args)))
           then [Bus Message_unref] else [])"
    by blast
  from r have "filter is_request reads = []" by (auto simp: filter_empty_conv)
  then show ?thesis by (simp add: c)
qed

lemma reply_released:
  "count_list (calls op s) (Bus Bus_error_free) = 1 \<and>
   count_list (calls op s) (Bus Message_unref) =
     (if 0 \<le> ret (answers s (length (trace s)) (Bus (Bus_call_method meth args))) then 1 else 0)"
proof -
  from request_calls [of s] obtain reads where
    r: "set reads \<subseteq> {Bus Message_read_array, Bus (Message_read ''btt'')}" and
    c: "calls op s = Bus (Bus_call_method meth args) # reads @ [Bus Bus_error_free] @
          (if 0 \<le> ret (answers s (length (trace s)) (Bus (Bus_call_method meth args)))
           then [Bus Message_unref] else [])"
    by blast
  from r have "count_list reads (Bus Bus_error_free) = 0" "count_list reads (Bus Message_unref) = 0"
    by (auto simp: count_list_0_iff)
  then show ?thesis by (simp add: c)
qed

end

lemmas request_defs = trpc_client_register_def trpc_client_schedinfo_def trpc_client_dmiss_def
  trpc_client_sync_def request_cleanup_def calls_def

interpretation register_rq: bus_request "trpc_client_register name" TRPC_METHOD_REGISTER "[name]" "\<lambda>r. r" for name
  by unfold_locales (auto simp: request_defs not_le intro: exI [of _ "[]"])

interpretation dmiss_rq: bus_request "trpc_client_dmiss name task" TRPC_METHOD_DMISS "[name, task]" "\<lambda>r. r"
  for name task
  by unfold_locales (auto simp: request_defs not_le intro: exI [of _ "[]"])

interpretation schedinfo_rq: bus_request "trpc_client_schedinfo name" TRPC_METHOD_SCHEDINFO "[name]" fst for name
  by unfold_locales
    (auto simp: request_defs not_le split: option.split
      intro: exI [of _ "[]"] exI [of _ "[Bus Message_read_array]"])

interpretation sync_rq: bus_request "trpc_client_sync name" TRPC_METHOD_SYNC "[name]" fst for name
  by unfold_locales
    (auto simp: request_defs not_le
      intro: exI [of _ "[]"] exI [of _ "[Bus (Message_read ''btt'')]"])


section \<open>Properties\<close>

text \<open>
  Every request of the client (register, schedule, deadline miss, synchronisation) sends exactly
  one method call, with its own method name and arguments, and whatever the bus answers it frees
  the error exactly once and the reply exactly once when there is one and not at all
  otherwise.
\<close>

theorem client_requests:
  "filter is_request (calls (trpc_client_register name) s) = [Bus (Bus_call_method ''Register'' [name])] \<and>
   filter is_request (calls (trpc_client_schedinfo name) s) = [Bus (Bus_call_method ''SchedInfo'' [name])] \<and>
   filter is_request (calls (trpc_client_dmiss name task) s) = [Bus (Bus_call_method ''DMiss'' [name, task])] \<and>
   filter is_request (calls (trpc_client_sync name) s) = [Bus (Bus_call_method ''Sync'' [name])] \<and>
   count_list (calls (trpc_client_schedinfo name) s) (Bus Bus_error_free) = 1 \<and>
   count_list (calls (trpc_client_schedinfo name) s) (Bus Message_unref) =
     (if 0 \<le> ret (answers s (length (trace s)) (Bus (Bus_call_method ''SchedInfo'' [name]))) then 1 else 0) \<and>
   count_list (calls (trpc_client_dmiss name task) s) (Bus Bus_error_free) = 1 \<and>
   count_list (calls (trpc_client_dmiss name task) s) (Bus Message_unref) =
     (if 0 \<le> ret (answers s (length (trace s)) (Bus (Bus_call_method ''DMiss'' [name, task]))) then 1 else 0) \<and>
   count_list (calls (trpc_client_sync name) s) (Bus Bus_error_free) = 1 \<and>
   count_list (calls (trpc_client_sync name) s) (Bus Message_unref) =
     (if 0 \<le> ret (answers s (length (trace s)) (Bus (Bus_call_method ''Sync'' [name]))) then 1 else 0)"
  using register_rq.one_request [of name s] schedinfo_rq.one_request [of name s]
    dmiss_rq.one_request [of name task s] sync_rq.one_request [of name s]
    schedinfo_rq.reply_released [of name s] dmiss_rq.reply_released [of name task s]
    sync_rq.reply_released [of name s]
  by (simp add: trpc_methods)

subsection \<open>Connection set-up\<close>

primrec steps_ok :: "os \<Rightarrow> nat \<Rightarrow> bcall list \<Rightarrow> bool" where
  "steps_ok s n [] \<longleftrightarrow> True"
| "steps_ok s n (c # cs) \<longleftrightarrow> 0 \<le> ret (answers s n (Bus c)) \<and> steps_ok s (Suc n) cs"

lemma steps_ok_trace [simp]: "steps_ok (s\<lparr>trace := t\<rparr>) n cs = steps_ok s n cs"
  by (induction cs arbitrary: n) simp_all

lemma run_bus_steps:
  "\<exists>k r. run_state (bus_steps cs) s = (r, s\<lparr>trace := trace s @ map Bus (take k cs)\<rparr>) \<and>
    (r < 0 \<longleftrightarrow> \<not> steps_ok s (length (trace s)) cs) \<and> (0 \<le> r \<longrightarrow> k = length cs)"
proof (induction cs arbitrary: s)
  case Nil
  show ?case by (intro exI [of _ 0] exI [of _ 0]) simp
next
  case (Cons c cs)
  let ?a = "answers s (length (trace s)) (Bus c)"
  show ?case
  proof (cases "ret ?a < 0")
    case True
    then show ?thesis by (intro exI [of _ 1] exI [of _ "ret ?a"]) simp
  next
    case False
    obtain k r where "run_state (bus_steps cs) (s\<lparr>trace := trace s @ [Bus c]\<rparr>) =
        (r, s\<lparr>trace := (trace s @ [Bus c]) @ map Bus (take k cs)\<rparr>)"
      "r < 0 \<longleftrightarrow> \<not> steps_ok s (Suc (length (trace s))) cs" "0 \<le> r \<longrightarrow> k = length cs"
      using Cons.IH [of "s\<lparr>trace := trace s @ [Bus c]\<rparr>"] by auto
    then show ?thesis
      using False by (intro exI [of _ "Suc k"] exI [of _ r]) auto
  qed
qed

text \<open>
  Setting up the client connection: it succeeds exactly when the bus object is created and every
  step of the configuration succeeds, in the documented order; a bus object that was created
  is closed exactly once when a later step fails, and never when the connection is handed
  out.
\<close>

theorem client_connection_lifecycle:
  fixes s desc addr
  defines "new_ok \<equiv> 0 \<le> ret (answers s (length (trace s)) (Bus Bus_new))"
  defines "conf \<equiv> [Bus_set_description desc, Bus_set_trusted, Bus_set_address addr, Bus_start, Bus_attach_event]"
  shows "(result (init_dbus_client desc (Some addr)) s \<longleftrightarrow> new_ok \<and> steps_ok s (Suc (length (trace s))) conf) \<and>
    (\<exists>k. calls (init_dbus_client desc (Some addr)) s =
       Bus Bus_new # map Bus (take k conf) @
         (if new_ok \<and> \<not> result (init_dbus_client desc (Some addr)) s then [Bus Bus_flush_close_unref] else []) \<and>
       (result (init_dbus_client desc (Some addr)) s \<longrightarrow> k = length conf))"
proof (cases new_ok)
  case False
  then show ?thesis
    by (auto simp: init_dbus_client_def calls_def new_ok_def intro: exI [of _ 0])
next
  case True
  obtain k r where kr: "run_state (bus_steps conf) (s\<lparr>trace := trace s @ [Bus Bus_new]\<rparr>) =
      (r, s\<lparr>trace := (trace s @ [Bus Bus_new]) @ map Bus (take k conf)\<rparr>)"
    "r < 0 \<longleftrightarrow> \<not> steps_ok s (Suc (length (trace s))) conf" "0 \<le> r \<longrightarrow> k = length conf"
    using run_bus_steps [of conf "s\<lparr>trace := trace s @ [Bus Bus_new]\<rparr>"] by auto
  have run: "run_state (init_dbus_client desc (Some addr)) s =
      (if r < 0 then (False, s\<lparr>trace := trace s @ Bus Bus_new # map Bus (take k conf) @ [Bus Bus_flush_close_unref]\<rparr>)
       else (True, s\<lparr>trace := trace s @ Bus Bus_new # map Bus (take k conf)\<rparr>))"
    using True kr(1) by (simp add: init_dbus_client_def new_ok_def conf_def)
  show ?thesis
    using True kr(2,3) by (intro conjI exI [of _ k]) (auto simp: run calls_def)
qed

lemma client_connection_lifecycle_witness:
  "result (init_dbus_client ''d'' (Some ''a'')) (os_of (\<lambda>c. answer0)) \<and>
   \<not> result (init_dbus_client ''d'' (Some ''a'')) (os_of (\<lambda>c. answer0\<lparr>ret := if c = Bus Bus_start then -1 else 0\<rparr>))"
  using client_connection_lifecycle [of "''d''" "''a''" "os_of (\<lambda>c. answer0)"]
    client_connection_lifecycle [of "''d''" "''a''" "os_of (\<lambda>c. answer0\<lparr>ret := if c = Bus Bus_start then -1 else 0\<rparr>)"]
  by (simp add: answer0_def)

subsection \<open>Replies of the server\<close>

fun is_reply :: "call \<Rightarrow> bool" where
  "is_reply (Bus Reply_method_error) = True"
| "is_reply (Bus (Reply_method_return as)) = True"
| "is_reply (Bus Message_send) = True"
| "is_reply _ = False"

text \<open>Call-backs answer through their results; they do not send messages themselves.\<close>

definition ops_quiet :: "trpc_server_ops option \<Rightarrow> bool" where
  "ops_quiet ops \<longleftrightarrow> (case ops of None \<Rightarrow> True | Some o1 \<Rightarrow>
     pred_option (\<lambda>cb. \<forall>n. only_g (\<lambda>c. \<not> is_reply c) (cb n)) (register_cb o1) \<and>
     pred_option (\<lambda>cb. \<forall>n. only_g (\<lambda>c. \<not> is_reply c) (cb n)) (schedinfo_cb o1) \<and>
     pred_option (\<lambda>cb. \<forall>n t. only_g (\<lambda>c. \<not> is_reply c) (cb n t)) (dmiss_cb o1) \<and>
     pred_option (\<lambda>cb. \<forall>n. only_g (\<lambda>c. \<not> is_reply c) (cb n)) (sync_cb o1))"

definition one_reply :: "'a io \<Rightarrow> bool" where
  "one_reply m \<longleftrightarrow> only_g (\<lambda>_. True) m \<and> (\<forall>s. length (filter is_reply (calls m s)) = 1)"

lemma one_reply_sys: "is_reply c \<Longrightarrow> one_reply (do { r \<leftarrow> sys c; return_io (f r) })"
  unfolding one_reply_def
  by (intro conjI allI only_g_rules) (simp_all add: calls_def)

lemma one_reply_bind:
  assumes "only_g (\<lambda>c. \<not> is_reply c) m" and "\<And>x. one_reply (f x)"
  shows "one_reply (State_Monad.bind m f)"
proof -
  have f: "only_g (\<lambda>_. True) (f x)" for x using assms(2) by (simp add: one_reply_def)
  have "filter is_reply (calls m s) = []" for s
    using only_g_calls [OF assms(1), of s] by (auto simp: list_all_iff filter_empty_conv)
  then show ?thesis
    unfolding one_reply_def calls_bind [OF assms(1) f]
    using assms f by (auto intro: tch.effect_bind only_g_mono simp: one_reply_def)
qed

lemma one_reply_if: "one_reply m \<Longrightarrow> one_reply m' \<Longrightarrow> one_reply (if b then m else m')"
  by simp

lemma one_reply_error: "one_reply reply_error"
  unfolding reply_error_def by (rule one_reply_sys) simp

lemma one_reply_prod: "(\<And>x y. one_reply (f x y)) \<Longrightarrow> one_reply (case p of (x, y) \<Rightarrow> f x y)"
  by (cases p) simp

lemma quiet_sys: "\<not> is_reply c \<Longrightarrow> only_g (\<lambda>c. \<not> is_reply c) (sys c)"
  by (rule only_imp_only_g, rule only_sys)

lemma quiet_return: "only_g (\<lambda>c. \<not> is_reply c) (return_io x)"
  by (rule tch.effect_return)

lemmas one_reply_rules = one_reply_bind one_reply_if one_reply_error one_reply_prod one_reply_sys quiet_sys

lemma quiet_callbacks:
  assumes "ops_quiet ops"
  shows "only_g (\<lambda>c. \<not> is_reply c) (case ops of None \<Rightarrow> return_io () | Some o1 \<Rightarrow>
      (case register_cb o1 of None \<Rightarrow> return_io () | Some cb \<Rightarrow> cb n))"
    and "only_g (\<lambda>c. \<not> is_reply c) (case ops of None \<Rightarrow> return_io [] | Some o1 \<Rightarrow>
      (case schedinfo_cb o1 of None \<Rightarrow> return_io [] | Some cb \<Rightarrow> cb n))"
    and "only_g (\<lambda>c. \<not> is_reply c) (case ops of None \<Rightarrow> return_io () | Some o1 \<Rightarrow>
      (case dmiss_cb o1 of None \<Rightarrow> return_io () | Some cb \<Rightarrow> cb n t))"
    and "only_g (\<lambda>c. \<not> is_reply c) (case ops of None \<Rightarrow> return_io junk | Some o1 \<Rightarrow>
      (case sync_cb o1 of None \<Rightarrow> return_io junk | Some cb \<Rightarrow> cb n))"
  using assms by (auto simp: ops_quiet_def quiet_return split: option.splits)

text \<open>
  The contract between the server and its call-backs: call-backs that send no message themselves. Whatever the bus
  answers, every method handler then sends exactly one reply: a method return, the array message, or an error.
\<close>

locale server_callbacks =
  fixes ops :: "trpc_server_ops option"
  assumes quiet: "ops_quiet ops"
begin

lemma replies_once: "pred_option one_reply (trpc_vtable junk ops method)"
proof -
  note defs = trpc_method_register_def trpc_method_schedinfo_def trpc_method_dmiss_def trpc_method_sync_def
  have "one_reply (trpc_method_register ops)" "one_reply (trpc_method_schedinfo ops)"
      "one_reply (trpc_method_dmiss ops)" "one_reply (trpc_method_sync junk ops)"
    unfolding defs Let_def by ((intro one_reply_rules quiet_callbacks quiet); simp)+
  then show ?thesis by (simp add: trpc_vtable_def)
qed

end

end
