(* ===== verification/Trpc.thy ===== *)
theory Trpc
  imports Hyperperiod Peer_Dbus
begin

text \<open>
  The node's side of the protocol with the orchestrator (\<^verbatim>\<open>timpani-n/src/trpc.c\<close> and the task list
  helper of \<^verbatim>\<open>task.c\<close>): connecting with retries, fetching and decoding the schedule, waiting for
  the common start time, and reporting deadline misses. Decoding writes strings into arrays of
  fixed size; a message that overruns one is the outcome \<open>None\<close>. The lemmas show which messages
  decode to which schedule, that the retry loop ends within its bound and what it leaves
  behind, and that the wait ends as soon as the server acknowledges.
\<close>

section \<open>Connection\<close>

definition init_trpc_connection :: "string \<Rightarrow> int \<Rightarrow> tt_context \<Rightarrow> (int \<times> tt_context) io" where
  "init_trpc_connection addr port ctx = do {
     e \<leftarrow> bus Event_default;
     if ret e < 0 then return_io (ret e, ctx)
     else do {
       let ctx1 = ctx\<lparr>cx_event := True\<rparr>;
       let serv_addr = take 127 (''tcp:host='' @ addr @ '',port='' @ printf_d (port mod 2 ^ 32));
       r \<leftarrow> trpc_client_create (Some serv_addr);
       if r < 0 then do {
         _ \<leftarrow> bus Event_unref;
         return_io (r, ctx1\<lparr>cx_event := False\<rparr>)
       }
       else return_io (r, ctx1\<lparr>cx_dbus := True\<rparr>)
     }
   }"

definition cleanup_trpc_connection :: "tt_context \<Rightarrow> tt_context io" where
  "cleanup_trpc_connection ctx = do {
     ctx1 \<leftarrow> (if cx_dbus ctx
              then do { _ \<leftarrow> bus Bus_flush_close_unref; return_io (ctx\<lparr>cx_dbus := False\<rparr>) }
              else return_io ctx);
     (if cx_event ctx1
      then do { _ \<leftarrow> bus Event_unref; return_io (ctx1\<lparr>cx_event := False\<rparr>) }
      else return_io ctx1)
   }"

section \<open>Decoding of the schedule\<close>

text \<open>The task list is freed from its head (\<^verbatim>\<open>task.c\<close>).\<close>

primrec destroy_task_info_list :: "task_info list \<Rightarrow> unit io" where
  "destroy_task_info_list [] = return_io ()"
| "destroy_task_info_list (t # ts) = do {
     _ \<leftarrow> kern (Free ''task_info'');
     destroy_task_info_list ts
   }"

text \<open>The fields of one task in the order they are read.\<close>

definition deserialize_task :: "bool \<Rightarrow> serial_buf \<Rightarrow> task_info ser" where
  "deserialize_task le b =
     and_then (deserialize_str le TINFO_NODEID_MAX b) (\<lambda>node_id b.
     and_then (deserialize_int32_t le b) (\<lambda>allowable_deadline_misses b.
     and_then (deserialize_int64_t le b) (\<lambda>cpu_affinity b.
     and_then (deserialize_int32_t le b) (\<lambda>deadline b.
     and_then (deserialize_int32_t le b) (\<lambda>runtime b.
     and_then (deserialize_int32_t le b) (\<lambda>release_time b.
     and_then (deserialize_int32_t le b) (\<lambda>period b.
     and_then (deserialize_int32_t le b) (\<lambda>sched_policy b.
     and_then (deserialize_int32_t le b) (\<lambda>sched_priority b.
     and_then (deserialize_str le TINFO_NAME_MAX b) (\<lambda>name b.
       Ok (zero_task_info\<lparr>ti_node_id := node_id,
             ti_allowable_deadline_misses := allowable_deadline_misses,
             ti_cpu_affinity := cpu_affinity, ti_deadline := deadline, ti_runtime := runtime,
             ti_release_time := release_time, ti_period := period, ti_sched_policy := sched_policy,
             ti_sched_priority := sched_priority, ti_name := name\<rparr>) b))))))))))"

text \<open>The loop over the tasks; the list grows at its head.\<close>

primrec deserialize_tasks ::
  "bool \<Rightarrow> nat \<Rightarrow> serial_buf \<Rightarrow> task_info list \<Rightarrow> (tt_error \<times> serial_buf \<times> task_info list) option io" where
  "deserialize_tasks le 0 b tasks = return_io (Some (TT_SUCCESS, b, tasks))"
| "deserialize_tasks le (Suc n) b tasks = do {
     m \<leftarrow> kern (Calloc ''task_info'');
     if ret m = 0 then return_io (Some (TT_ERROR_MEMORY, b, tasks))
     else (case deserialize_task le b of
             Overrun \<Rightarrow> return_io None
           | Err b' \<Rightarrow> do {
               _ \<leftarrow> kern (Free ''task_info'');
               destroy_task_info_list tasks;
               return_io (Some (TT_ERROR_NETWORK, b', []))
             }
           | Ok t b' \<Rightarrow> deserialize_tasks le n b' (t # tasks))
   }"

definition deserialize_workload :: "bool \<Rightarrow> serial_buf \<Rightarrow> (string \<times> u64) ser" where
  "deserialize_workload le b =
     and_then (deserialize_str le WORKLOAD_ID_MAX b) (\<lambda>w b.
     and_then (deserialize_int64_t le b) (\<lambda>h b. Ok (w, h) b))"

text \<open>When the hyperperiod cannot be read, the workload id has already been stored.\<close>

definition deserialize_sched_info ::
  "bool \<Rightarrow> tt_context \<Rightarrow> serial_buf \<Rightarrow> sched_info \<Rightarrow> (tt_error \<times> tt_context \<times> sched_info) option io" where
  "deserialize_sched_info le ctx sbuf sinfo =
     (case deserialize_int32_t le sbuf of
        Overrun \<Rightarrow> return_io None
      | Err _ \<Rightarrow> return_io (Some (TT_ERROR_NETWORK, ctx, sinfo))
      | Ok n b \<Rightarrow> do {
          r \<leftarrow> deserialize_tasks le (unat n) b [];
          (case r of
             None \<Rightarrow> return_io None
           | Some (e, b1, tasks) \<Rightarrow>
               let sinfo1 = sinfo\<lparr>si_nr_tasks := n, si_tasks := tasks\<rparr> in
               if e \<noteq> TT_SUCCESS then return_io (Some (e, ctx, sinfo1))
               else (case deserialize_workload le b1 of
                       Overrun \<Rightarrow> return_io None
                     | Err _ \<Rightarrow> do {
                         destroy_task_info_list tasks;
                         return_io (Some (TT_ERROR_NETWORK, ctx, sinfo1\<lparr>si_tasks := [],
                           si_workload_id := (case deserialize_str le WORKLOAD_ID_MAX b1 of
                             Ok w _ \<Rightarrow> w | _ \<Rightarrow> si_workload_id sinfo)\<rparr>))
                       }
                     | Ok (w, hyperperiod_us) _ \<Rightarrow>
                         let sinfo2 = sinfo1\<lparr>si_workload_id := w\<rparr> in
                         (case init_hyperperiod True (Some w) hyperperiod_us (Some (cx_hp_manager ctx)) of
                            (TT_SUCCESS, Some hp) \<Rightarrow>
                              return_io (Some (TT_SUCCESS, ctx\<lparr>cx_hp_manager := hp\<rparr>, sinfo2))
                          | _ \<Rightarrow> do {
                              destroy_task_info_list tasks;
                              return_io (Some (TT_ERROR_CONFIG, ctx, sinfo2\<lparr>si_tasks := []\<rparr>))
                            })))
        })"

text \<open>The schedule is stored in the context; the result is the code as an integer.\<close>

definition get_sched_info :: "bool \<Rightarrow> tt_context \<Rightarrow> (int \<times> tt_context) option io" where
  "get_sched_info le ctx = do {
     (r, buf) \<leftarrow> trpc_client_schedinfo (cfg_node_id (cx_config ctx));
     if r < 0 then return_io (Some (r, ctx))
     else (case buf of
             None \<Rightarrow> return_io (Some (-1, ctx))
           | Some bytes \<Rightarrow>
               if length bytes = 0 then return_io (Some (-1, ctx))
               else do {
                 alloc \<leftarrow> get_heap;
                 (case make_serial_buf alloc bytes (length bytes) of
                    None \<Rightarrow> return_io (Some (-1, ctx))
                  | Some sbuf \<Rightarrow> do {
                      d \<leftarrow> deserialize_sched_info le ctx sbuf (cx_sched_info ctx);
                      (case d of
                         None \<Rightarrow> return_io None
                       | Some (e, ctx', sinfo) \<Rightarrow> do {
                           _ \<leftarrow> kern (Free ''serial_buf'');
                           return_io (Some (tt_code e, ctx'\<lparr>cx_sched_info := sinfo\<rparr>))
                         })
                    })
               })
   }"

section \<open>Start-up and reports\<close>

text \<open>The retry loop, by the number of attempts that are left.\<close>

primrec init_trpc_loop :: "bool \<Rightarrow> nat \<Rightarrow> tt_context \<Rightarrow> (tt_error \<times> tt_context) option io" where
  "init_trpc_loop le 0 ctx = return_io (Some (TT_ERROR_NETWORK, ctx))"
| "init_trpc_loop le (Suc left) ctx = do {
     (r, ctx1) \<leftarrow> init_trpc_connection (cfg_addr (cx_config ctx)) (cfg_port (cx_config ctx)) ctx;
     if r = 0 then
       (if cfg_enable_apex (cx_config ctx1) then return_io (Some (TT_SUCCESS, ctx1))
        else do {
          g \<leftarrow> get_sched_info le ctx1;
          (case g of
             None \<Rightarrow> return_io None
           | Some (q, ctx2) \<Rightarrow>
               if q = 0 then return_io (Some (TT_SUCCESS, ctx2))
               else do {
                 ctx3 \<leftarrow> cleanup_trpc_connection ctx2;
                 _ \<leftarrow> kern (Usleep TT_RETRY_INTERVAL_US);
                 init_trpc_loop le left ctx3
               })
        })
     else do {
       _ \<leftarrow> kern (Usleep TT_RETRY_INTERVAL_US);
       init_trpc_loop le left ctx1
     }
   }"

definition init_trpc :: "bool \<Rightarrow> tt_context \<Rightarrow> (tt_error \<times> tt_context) option io" where
  "init_trpc le ctx = init_trpc_loop le TT_MAX_CONNECTION_RETRIES ctx"

text \<open>
  The wait for the common start: it goes on until the server acknowledges or a request fails. The
  first argument bounds the number of requests; \<open>None\<close> means that the bound was reached.
\<close>

primrec sync_timer_internal :: "nat \<Rightarrow> string \<Rightarrow> timespec \<Rightarrow> (int \<times> timespec) option io" where
  "sync_timer_internal 0 node_id ts = return_io None"
| "sync_timer_internal (Suc fuel) node_id ts = do {
     (r, out) \<leftarrow> trpc_client_sync node_id;
     if r < 0 then return_io (Some (r, ts))
     else (case out of
             None \<Rightarrow> return_io (Some (r, ts))
           | Some (ack, ts') \<Rightarrow>
               if ack \<noteq> 0 then return_io (Some (0, ts'))
               else do {
                 _ \<leftarrow> kern (Usleep TT_POLLING_INTERVAL_US);
                 sync_timer_internal fuel node_id ts'
               })
   }"

definition sync_timer_with_server :: "nat \<Rightarrow> tt_context \<Rightarrow> (tt_error \<times> tt_context) option io" where
  "sync_timer_with_server fuel ctx =
     (if \<not> cfg_enable_sync (cx_config ctx) then return_io (Some (TT_SUCCESS, ctx))
      else do {
        r \<leftarrow> sync_timer_internal fuel (cfg_node_id (cx_config ctx)) (cx_starttimer_ts ctx);
        (case r of
           None \<Rightarrow> return_io None
         | Some (e, ts) \<Rightarrow>
             if e < 0 then return_io (Some (TT_ERROR_NETWORK, ctx\<lparr>cx_starttimer_ts := ts\<rparr>))
             else return_io (Some (TT_SUCCESS, ctx\<lparr>cx_starttimer_ts := ts\<rparr>)))
      })"

definition report_deadline_miss :: "tt_context \<Rightarrow> string \<Rightarrow> tt_error io" where
  "report_deadline_miss ctx taskname = do {
     r \<leftarrow> trpc_client_dmiss (cfg_node_id (cx_config ctx)) taskname;
     return_io (if r < 0 then TT_ERROR_NETWORK else TT_SUCCESS)
   }"

lemma only_report [only_intros]: "only is_bus (report_deadline_miss ctx t)"
  unfolding report_deadline_miss_def by (intro only_rules only_client_dmiss)


section \<open>Frame of the decoder\<close>

lemma deserialize_sched_info_frame:
  "result (deserialize_sched_info le ctx b si) s = Some (e, ctx', si') \<Longrightarrow>
    \<exists>hp. ctx' = ctx\<lparr>cx_hp_manager := hp\<rparr>"
proof -
  have id: "ctx = ctx\<lparr>cx_hp_manager := cx_hp_manager ctx\<rparr>" by simp
  assume "result (deserialize_sched_info le ctx b si) s = Some (e, ctx', si')"
  then show ?thesis
    by (auto simp: deserialize_sched_info_def init_hyperperiod_def Let_def case_prod_beta
        split: ser.splits option.splits prod.splits if_splits)
      (metis id)+
qed

lemma get_sched_info_frame:
  assumes "result (get_sched_info le ctx) s = Some (r, ctx')"
  shows "cx_dbus ctx' = cx_dbus ctx \<and> cx_event ctx' = cx_event ctx \<and> cx_config ctx' = cx_config ctx"
proof -
  have "ctx' = ctx \<or> (\<exists>b s' e si ctx1 si'. result (deserialize_sched_info le ctx b si) s' = Some (e, ctx1, si') \<and>
      ctx' = ctx1\<lparr>cx_sched_info := si'\<rparr>)"
    using assms
    by (auto simp: get_sched_info_def case_prod_beta split: option.splits if_splits prod.splits) (metis fst_conv)+
  then show ?thesis by (auto dest: deserialize_sched_info_frame)
qed

section \<open>Retries\<close>

lemma only_destroy: "only (\<lambda>c. c = Kern (Free ''task_info'')) (destroy_task_info_list ts)"
  by (induction ts) (auto intro!: only_rules)

abbreviation not_connect :: "call \<Rightarrow> bool" where
  "not_connect c \<equiv> c \<noteq> Bus Event_default"

lemma only_deserialize_tasks: "only not_connect (deserialize_tasks le n b ts)"
proof (induction n arbitrary: b ts)
  case 0
  show ?case by (simp add: app.effect_return)
next
  case (Suc n)
  show ?case
    by (auto intro!: only_rules Suc.IH only_destroy [THEN only_mono] split: ser.split)
qed

lemma only_deserialize_sched_info: "only not_connect (deserialize_sched_info le ctx b si)"
  unfolding deserialize_sched_info_def
  by (auto intro!: only_rules only_deserialize_tasks only_destroy [THEN only_mono]
      simp: Let_def split: ser.split prod.split tt_error.split option.split)

lemma only_schedinfo_not_connect: "only not_connect (trpc_client_schedinfo n)"
  unfolding trpc_client_schedinfo_def request_cleanup_def by (intro only_rules) simp_all

lemma only_get_sched_info: "only not_connect (get_sched_info le ctx)"
  unfolding get_sched_info_def
  by (auto intro!: only_rules only_deserialize_sched_info only_schedinfo_not_connect
      split: option.split prod.split)

lemma only_cleanup_connection: "only not_connect (cleanup_trpc_connection ctx)"
  unfolding cleanup_trpc_connection_def by (intro only_rules) simp_all

lemma cleanup_connection_result:
  "\<exists>cs. run_state (cleanup_trpc_connection ctx) s =
    (ctx\<lparr>cx_dbus := False, cx_event := False\<rparr>, s\<lparr>trace := trace s @ cs\<rparr>) \<and> Bus Event_default \<notin> set cs"
proof -
  have "result (cleanup_trpc_connection ctx) s = ctx\<lparr>cx_dbus := False, cx_event := False\<rparr>"
    by (cases ctx) (simp add: cleanup_trpc_connection_def)
  moreover note only_after [OF only_cleanup_connection, of ctx s]
    only_calls [OF only_cleanup_connection, of ctx s]
  ultimately show ?thesis
    by (intro exI [of _ "calls (cleanup_trpc_connection ctx) s"]) (auto simp: list_all_iff prod_eq_iff)
qed

lemma only_create_not_connect: "only not_connect (trpc_client_create a)"
proof -
  have steps: "only not_connect (bus_steps cs)" if "Event_default \<notin> set cs" for cs
    using that by (induction cs) (auto intro!: only_rules)
  show ?thesis
    unfolding trpc_client_create_def init_dbus_client_def by (intro only_rules steps) simp_all
qed

lemma init_connection_result:
  "\<exists>r ctx1 cs. run_state (init_trpc_connection addr port ctx) s =
      ((r, ctx1), s\<lparr>trace := trace s @ Bus Event_default # cs\<rparr>) \<and> Bus Event_default \<notin> set cs \<and>
    (r = 0 \<longrightarrow> ctx1 = ctx\<lparr>cx_event := True, cx_dbus := True\<rparr>) \<and>
    (r \<noteq> 0 \<longrightarrow> \<not> cx_event ctx \<longrightarrow> ctx1 = ctx)"
proof -
  let ?s = "s\<lparr>trace := trace s @ [Bus Event_default]\<rparr>"
  let ?a = "Some (take 127 (''tcp:host='' @ addr @ '',port='' @ printf_d (port mod 2 ^ 32)))"
  have code: "result (trpc_client_create ?a) ?s \<in> {0, -1}"
    by (simp add: trpc_client_create_def case_prod_beta)
  let ?cs = "calls (trpc_client_create ?a) ?s"
  obtain r where r: "r = result (trpc_client_create ?a) ?s" by simp
  have aft: "run_state (trpc_client_create ?a) ?s = (r, s\<lparr>trace := trace s @ Bus Event_default # ?cs\<rparr>)"
    using only_after [OF only_create_not_connect, of ?a ?s] r by (simp add: prod_eq_iff)
  have nc: "Bus Event_default \<notin> set ?cs"
    using only_calls [OF only_create_not_connect, of ?a ?s] by (auto simp: list_all_iff)
  show ?thesis
  proof (cases "ret (answers s (length (trace s)) (Bus Event_default)) < 0")
    case True
    then show ?thesis
      by (intro exI [of _ "ret (answers s (length (trace s)) (Bus Event_default))"] exI [of _ ctx] exI [of _ "[]"])
        (simp add: init_trpc_connection_def)
  next
    case False
    show ?thesis
    proof (cases "r = 0")
      case True
      with False aft nc show ?thesis
        by (intro exI [of _ 0] exI [of _ "ctx\<lparr>cx_event := True, cx_dbus := True\<rparr>"] exI [of _ ?cs])
          (simp add: init_trpc_connection_def Let_def)
    next
      case no: False
      with code r have "r = -1" by simp
      with False aft nc show ?thesis
        by (intro exI [of _ "-1"] exI [of _ "ctx\<lparr>cx_event := False\<rparr>"] exI [of _ "?cs @ [Bus Event_unref]"], cases ctx)
          (simp add: init_trpc_connection_def Let_def)
    qed
  qed
qed

text \<open>The outcome of the loop with \<open>n\<close> attempts left.\<close>

definition retry_post :: "nat \<Rightarrow> os \<Rightarrow> (tt_error \<times> tt_context) option \<times> os \<Rightarrow> bool" where
  "retry_post n s r \<longleftrightarrow>
     (\<exists>cs. snd r = s\<lparr>trace := trace s @ cs\<rparr> \<and> count_list cs (Bus Event_default) \<le> n \<and>
       (case fst r of
          None \<Rightarrow> True
        | Some (e, ctx') \<Rightarrow>
            e = TT_SUCCESS \<and> cx_dbus ctx' \<and> cx_event ctx' \<or>
            e = TT_ERROR_NETWORK \<and> \<not> cx_dbus ctx' \<and> \<not> cx_event ctx' \<and> count_list cs (Bus Event_default) = n))"

lemma retry_post_Suc:
  assumes "retry_post n (s\<lparr>trace := trace s @ Bus Event_default # cs\<rparr>) r" and "Bus Event_default \<notin> set cs"
  shows "retry_post (Suc n) s r"
proof -
  have "count_list cs (Bus Event_default) = 0" using assms(2) by (simp add: count_list_0_iff)
  with assms(1) show ?thesis
    unfolding retry_post_def
    by (elim exE conjE) (rule exI [of _ "Bus Event_default # cs @ _"], auto split: option.splits)
qed

lemma retry_post_stop:
  assumes "Bus Event_default \<notin> set cs"
    and "\<And>e ctx'. out = Some (e, ctx') \<Longrightarrow> e = TT_SUCCESS \<and> cx_dbus ctx' \<and> cx_event ctx'"
  shows "retry_post (Suc n) s (out, s\<lparr>trace := trace s @ Bus Event_default # cs\<rparr>)"
proof -
  have "count_list cs (Bus Event_default) = 0" using assms(1) by (simp add: count_list_0_iff)
  with assms(2) show ?thesis
    unfolding retry_post_def by (intro exI [of _ "Bus Event_default # cs"]) (auto split: option.split)
qed

lemma run_get_sched_info:
  "\<exists>out ds. run_state (get_sched_info le ctx) s = (out, s\<lparr>trace := trace s @ ds\<rparr>) \<and> Bus Event_default \<notin> set ds \<and>
    (\<forall>q ctx'. out = Some (q, ctx') \<longrightarrow> cx_dbus ctx' = cx_dbus ctx \<and> cx_event ctx' = cx_event ctx)"
proof (intro exI conjI allI impI)
  show "run_state (get_sched_info le ctx) s =
      (result (get_sched_info le ctx) s, s\<lparr>trace := trace s @ calls (get_sched_info le ctx) s\<rparr>)"
    using only_after [OF only_get_sched_info, of le ctx s] by (simp add: prod_eq_iff)
  show "Bus Event_default \<notin> set (calls (get_sched_info le ctx) s)"
    using only_calls [OF only_get_sched_info, of le ctx s] by (auto simp: list_all_iff)
qed (auto dest: get_sched_info_frame)

lemma init_trpc_loop_post:
  "\<not> cx_dbus ctx \<Longrightarrow> \<not> cx_event ctx \<Longrightarrow> retry_post n s (run_state (init_trpc_loop le n ctx) s)"
proof (induction n arbitrary: ctx s)
  case 0
  then show ?case by (auto simp: retry_post_def intro: exI [of _ "[]"])
next
  case (Suc n)
  let ?sleep = "Kern (Usleep TT_RETRY_INTERVAL_US)"
  obtain r ctx1 cs where run: "run_state (init_trpc_connection (cfg_addr (cx_config ctx)) (cfg_port (cx_config ctx)) ctx) s =
      ((r, ctx1), s\<lparr>trace := trace s @ Bus Event_default # cs\<rparr>)" and nc: "Bus Event_default \<notin> set cs" and
    got: "r = 0 \<longrightarrow> ctx1 = ctx\<lparr>cx_event := True, cx_dbus := True\<rparr>" and
    keep: "r \<noteq> 0 \<longrightarrow> \<not> cx_event ctx \<longrightarrow> ctx1 = ctx"
    using init_connection_result by blast
  obtain out ds where g: "run_state (get_sched_info le ctx1) (s\<lparr>trace := trace s @ Bus Event_default # cs\<rparr>) =
      (out, s\<lparr>trace := trace s @ Bus Event_default # cs @ ds\<rparr>)" and nd: "Bus Event_default \<notin> set ds" and
    fr: "\<forall>q ctx'. out = Some (q, ctx') \<longrightarrow> cx_dbus ctx' = cx_dbus ctx1 \<and> cx_event ctx' = cx_event ctx1"
    using run_get_sched_info [of le ctx1 "s\<lparr>trace := trace s @ Bus Event_default # cs\<rparr>"] by auto
  have again: "retry_post (Suc n) s
      (run_state (init_trpc_loop le n c) (s\<lparr>trace := trace s @ Bus Event_default # es\<rparr>))"
    if "\<not> cx_dbus c" "\<not> cx_event c" "Bus Event_default \<notin> set es" for c es
    using Suc.IH [OF that(1,2)] that(3) by (rule retry_post_Suc)
  consider "r \<noteq> 0" | "r = 0" "cfg_enable_apex (cx_config ctx)"
    | "r = 0" "\<not> cfg_enable_apex (cx_config ctx)" "out = None \<or> (\<exists>c. out = Some (0, c))"
    | q c where "r = 0" "\<not> cfg_enable_apex (cx_config ctx)" "out = Some (q, c)" "q \<noteq> 0"
    by (metis not_Some_eq surj_pair)
  then show ?case
  proof cases
    case 1
    then show ?thesis using again [of ctx "cs @ [?sleep]"] keep Suc.prems nc by (simp add: run)
  next
    case 2
    then show ?thesis using got retry_post_stop [OF nc, of "Some (TT_SUCCESS, ctx1)"] by (simp add: run)
  next
    case 3
    then show ?thesis using nc nd got fr g by (auto simp: run intro!: retry_post_stop [of "cs @ ds", simplified])
  next
    case 4
    obtain es where "run_state (cleanup_trpc_connection c) (s\<lparr>trace := trace s @ Bus Event_default # cs @ ds\<rparr>) =
        (c\<lparr>cx_dbus := False, cx_event := False\<rparr>, s\<lparr>trace := trace s @ Bus Event_default # cs @ ds @ es\<rparr>)"
        "Bus Event_default \<notin> set es"
      using cleanup_connection_result [of c "s\<lparr>trace := trace s @ Bus Event_default # cs @ ds\<rparr>"] by auto
    then show ?thesis
      using again [of "c\<lparr>cx_dbus := False, cx_event := False\<rparr>" "cs @ ds @ es @ [?sleep]"] 4 nc nd got g
      by (simp add: run)
  qed
qed

section \<open>Properties\<close>

text \<open>
  C17. Connecting to the orchestrator: from a context without a connection, at most 300 attempts are
  made; the result is success with both the bus and the event loop held, or, after exactly 300
  attempts, TT_ERROR_NETWORK with neither held, whatever the bus and the server answer (a
  message that overruns an array, the outcome None, excepted).
\<close>

theorem init_trpc_retries:
  assumes "\<not> cx_dbus ctx" and "\<not> cx_event ctx"
  shows "count_list (calls (init_trpc le ctx) s) (Bus Event_default) \<le> 300 \<and>
    (case result (init_trpc le ctx) s of
       None \<Rightarrow> True
     | Some (e, ctx') \<Rightarrow>
         e = TT_SUCCESS \<and> cx_dbus ctx' \<and> cx_event ctx' \<or>
         e = TT_ERROR_NETWORK \<and> \<not> cx_dbus ctx' \<and> \<not> cx_event ctx' \<and>
           count_list (calls (init_trpc le ctx) s) (Bus Event_default) = 300)"
  using init_trpc_loop_post [OF assms, of 300 s le]
  by (auto simp: retry_post_def init_trpc_def TT_MAX_CONNECTION_RETRIES_def calls_def split: option.splits)

lemma init_trpc_retries_witness:
  "\<exists>s. result (init_trpc True zero_context) s = Some (TT_ERROR_NETWORK, zero_context) \<and>
     count_list (calls (init_trpc True zero_context) s) (Bus Event_default) = 300"
proof -
  let ?s = "os_of (\<lambda>c. answer0\<lparr>ret := -1\<rparr>)"
  have c: "\<not> cx_dbus zero_context" "\<not> cx_event zero_context" by (simp_all add: zero_context_def)
  have "run_state (init_trpc_loop True n zero_context) s =
      (Some (TT_ERROR_NETWORK, zero_context), after (init_trpc_loop True n zero_context) s)"
    if "\<forall>k c. ret (answers s k c) = -1" for n s
    using that
  proof (induction n arbitrary: s)
    case (Suc n)
    then show ?case by (simp add: init_trpc_connection_def)
  qed simp
  from this [of ?s 300] have r: "result (init_trpc True zero_context) ?s = Some (TT_ERROR_NETWORK, zero_context)"
    unfolding init_trpc_def TT_MAX_CONNECTION_RETRIES_def by (simp del: init_trpc_loop.simps) (metis fst_conv)
  from init_trpc_retries [OF c, of True ?s] r show ?thesis by (intro exI [of _ ?s]) simp
qed


subsection \<open>Waiting for the start\<close>

text \<open>The request number \<open>n\<close> of the bus succeeds; its reply holds the acknowledgement and the time.\<close>

definition sync_ok :: "os \<Rightarrow> string \<Rightarrow> nat \<Rightarrow> bool" where
  "sync_ok s node n \<longleftrightarrow> 0 \<le> ret (answers s n (Bus (Bus_call_method ''Sync'' [node]))) \<and>
     0 \<le> ret (answers s (Suc n) (Bus (Message_read ''btt'')))"

lemma sync_ok_trace [simp]: "sync_ok (s\<lparr>trace := t\<rparr>) node n = sync_ok s node n"
  by (simp add: sync_ok_def)

abbreviation sync_reply :: "os \<Rightarrow> nat \<Rightarrow> answer" where
  "sync_reply s n \<equiv> answers s (Suc n) (Bus (Message_read ''btt''))"

lemma run_client_sync:
  assumes "sync_ok s node (length (trace s))"
  shows "run_state (trpc_client_sync node) s =
    ((ret (sync_reply s (length (trace s))),
      Some (out_ack (sync_reply s (length (trace s))), out_ts (sync_reply s (length (trace s))))),
     s\<lparr>trace := trace s @ [Bus (Bus_call_method ''Sync'' [node]), Bus (Message_read ''btt''),
       Bus Bus_error_free, Bus Message_unref]\<rparr>)"
  using assms by (simp add: trpc_client_sync_def request_cleanup_def trpc_methods sync_ok_def)

lemma sync_loop:
  assumes "\<forall>i\<le>k. sync_ok s node (length (trace s) + 5 * i)"
    and "\<forall>i<k. out_ack (sync_reply s (length (trace s) + 5 * i)) = 0"
    and "out_ack (sync_reply s (length (trace s) + 5 * k)) \<noteq> 0" and "k < fuel"
  shows "result (sync_timer_internal fuel node ts) s = Some (0, out_ts (sync_reply s (length (trace s) + 5 * k)))"
  using assms
proof (induction k arbitrary: s fuel ts)
  case 0
  then obtain f where "fuel = Suc f" by (cases fuel) auto
  moreover have ok: "sync_ok s node (length (trace s))" using 0 by simp
  ultimately show ?case
    using 0 by (simp add: run_client_sync [OF ok]) (simp add: sync_ok_def)
next
  case (Suc k)
  let ?cs = "[Bus (Bus_call_method ''Sync'' [node]), Bus (Message_read ''btt''), Bus Bus_error_free,
    Bus Message_unref, Kern (Usleep TT_POLLING_INTERVAL_US)]"
  let ?s = "s\<lparr>trace := trace s @ ?cs\<rparr>"
  obtain f where f: "fuel = Suc f" "k < f" using Suc.prems(4) by (cases fuel) auto
  have ok: "sync_ok s node (length (trace s))" using Suc.prems(1) by (metis add_0_right le0 mult_0_right)
  have ack: "out_ack (sync_reply s (length (trace s))) = 0"
    using Suc.prems(2) by (metis add_0_right mult_0_right zero_less_Suc)
  have pos: "length (trace ?s) + 5 * i = length (trace s) + 5 * Suc i" for i by simp
  have "result (sync_timer_internal f node ts') ?s = Some (0, out_ts (sync_reply ?s (length (trace ?s) + 5 * k)))" for ts'
  proof (rule Suc.IH [OF _ _ _ f(2)])
    show "\<forall>i\<le>k. sync_ok ?s node (length (trace ?s) + 5 * i)"
      unfolding pos sync_ok_trace using Suc.prems(1) by (metis Suc_le_mono)
    have "out_ack (sync_reply ?s (length (trace ?s) + 5 * i)) = 0" if "i < k" for i
      unfolding pos using Suc.prems(2) [rule_format, of "Suc i"] that by simp
    then show "\<forall>i<k. out_ack (sync_reply ?s (length (trace ?s) + 5 * i)) = 0" by blast
    show "out_ack (sync_reply ?s (length (trace ?s) + 5 * k)) \<noteq> 0"
      unfolding pos using Suc.prems(3) by simp
  qed
  from this [unfolded pos] show ?case
    using ok ack f(1) by (simp add: run_client_sync [OF ok]) (simp add: sync_ok_def)
qed

text \<open>
  With synchronisation enabled, the node polls until the server acknowledges: if the requests
  succeed and the one after \<open>k\<close> refusals is acknowledged, the wait returns success and the start
  time of the timers is the time in that acknowledgement, however large a bound above \<open>k\<close>
  is put on the number of requests.
\<close>

theorem sync_returns_on_ack:
  assumes "cfg_enable_sync (cx_config ctx)"
    and "\<forall>i\<le>k. sync_ok s (cfg_node_id (cx_config ctx)) (length (trace s) + 5 * i)"
    and "\<forall>i<k. out_ack (sync_reply s (length (trace s) + 5 * i)) = 0"
    and "out_ack (sync_reply s (length (trace s) + 5 * k)) \<noteq> 0" and "k < fuel"
  shows "result (sync_timer_with_server fuel ctx) s =
    Some (TT_SUCCESS, ctx\<lparr>cx_starttimer_ts := out_ts (sync_reply s (length (trace s) + 5 * k))\<rparr>)"
  using sync_loop [OF assms(2-5), of "cx_starttimer_ts ctx"] assms(1)
  by (simp add: sync_timer_with_server_def case_prod_beta)

lemma sync_returns_on_ack_witness:
  "\<exists>s ctx. result (sync_timer_with_server 10 ctx) s =
     Some (TT_SUCCESS, ctx\<lparr>cx_starttimer_ts := Timespec 7 0\<rparr>)"
proof -
  define ctx where "ctx = zero_context\<lparr>cx_config := (cx_config zero_context)\<lparr>cfg_enable_sync := True\<rparr>\<rparr>"
  define s where "s = \<lparr>answers = \<lambda>n c. answer0\<lparr>out_ack := (if n < 15 then 0 else 1), out_ts := Timespec 7 0\<rparr>,
    heap = zero_alloc, trace = [], globals = globals0\<rparr>"
  have "result (sync_timer_with_server 10 ctx) s =
      Some (TT_SUCCESS, ctx\<lparr>cx_starttimer_ts := out_ts (sync_reply s (length (trace s) + 5 * 3))\<rparr>)"
    by (rule sync_returns_on_ack) (auto simp: ctx_def s_def sync_ok_def answer0_def)
  then show ?thesis by (auto simp: s_def)
qed

end
