(* ===== verification/Orchestrator.thy ===== *)
theory Orchestrator
  imports Trpc
begin

text \<open>
  The orchestrator's end of the protocol (\<^verbatim>\<open>timpani-o/src/dbus_server.cpp\<close>, \<^verbatim>\<open>sched_info.h\<close>): how the
  schedule of a workload is packed into the buffer that the nodes fetch, and the barrier that
  releases the nodes when all of them are ready. The main results are the end-to-end round trip
  with the decoder of the node and the correctness of the barrier.
\<close>

section \<open>Packing the schedule\<close>

record sched_task =
  st_task_name :: string
  st_period_ns :: u64
  st_runtime_ns :: u64
  st_deadline_ns :: u64
  st_release_time :: u32
  st_cpu_affinity :: u64
  st_sched_policy :: u32
  st_sched_priority :: u32
  st_max_dmiss :: u32
  st_assigned_node :: string

definition kNsToUs :: u64 where
  "kNsToUs = 1000"

text \<open>The results of the writes are not looked at: after a failed write the next one follows.\<close>

fun and_next :: "unit ser \<Rightarrow> (serial_buf \<Rightarrow> unit ser) \<Rightarrow> unit ser" where
  "and_next (Ok u b) f = f b"
| "and_next (Err b) f = f b"
| "and_next Overrun f = Overrun"

definition serialize_sched_task :: "allocator \<Rightarrow> bool \<Rightarrow> sched_task \<Rightarrow> serial_buf \<Rightarrow> unit ser" where
  "serialize_sched_task alloc le task b =
     and_next (serialize_str alloc le (take 15 (cstr (st_task_name task))) b) (\<lambda>b.
     and_next (serialize_int32_t alloc le (st_sched_priority task) b) (\<lambda>b.
     and_next (serialize_int32_t alloc le (st_sched_policy task) b) (\<lambda>b.
     and_next (serialize_int32_t alloc le (ucast (st_period_ns task div kNsToUs)) b) (\<lambda>b.
     and_next (serialize_int32_t alloc le (st_release_time task) b) (\<lambda>b.
     and_next (serialize_int32_t alloc le (ucast (st_runtime_ns task div kNsToUs)) b) (\<lambda>b.
     and_next (serialize_int32_t alloc le (ucast (st_deadline_ns task div kNsToUs)) b) (\<lambda>b.
     and_next (serialize_int64_t alloc le (st_cpu_affinity task) b) (\<lambda>b.
     and_next (serialize_int32_t alloc le (st_max_dmiss task) b) (\<lambda>b.
       serialize_str alloc le (take 63 (cstr (st_assigned_node task))) b)))))))))"

primrec serialize_sched_tasks :: "allocator \<Rightarrow> bool \<Rightarrow> sched_task list \<Rightarrow> serial_buf \<Rightarrow> unit ser" where
  "serialize_sched_tasks alloc le [] b = Ok () b"
| "serialize_sched_tasks alloc le (t # ts) b =
     and_next (serialize_sched_task alloc le t b) (serialize_sched_tasks alloc le ts)"

text \<open>
  The first workload of the schedule map: its name, its hyperperiod (zero when unknown) and the task
  lists of its nodes in the order of the map.
\<close>

definition pack_schedule ::
  "allocator \<Rightarrow> bool \<Rightarrow> string \<Rightarrow> u64 option \<Rightarrow> (string \<times> sched_task list) list \<Rightarrow> unit ser option" where
  "pack_schedule alloc le workload_id hyperperiod nodes =
     (case new_serial_buf alloc (1024 + 256) of
        None \<Rightarrow> None
      | Some b \<Rightarrow>
          Some (and_next (serialize_int64_t alloc le (case hyperperiod of None \<Rightarrow> 0 | Some h \<Rightarrow> h) b) (\<lambda>b.
            and_next (serialize_str alloc le (take 63 (cstr workload_id)) b) (\<lambda>b.
            and_next (serialize_sched_tasks alloc le (concat (map snd nodes)) b) (\<lambda>b.
              serialize_int32_t alloc le (of_nat (length (concat (map snd nodes)))) b)))))"

section \<open>The synchronisation barrier\<close>

text \<open>
  The readiness of the nodes; the table is filled with the nodes of the first workload when it is
  empty. The result is the acknowledgement and, when positive, the start time, one second
  after \<open>now\<close>; otherwise the time is not written.
\<close>

definition SyncCallback ::
  "string list \<Rightarrow> string \<Rightarrow> timespec \<Rightarrow> (string \<times> bool) list \<Rightarrow> (int \<times> timespec option) \<times> (string \<times> bool) list" where
  "SyncCallback nodes name now node_sync_map =
     (let m = (if node_sync_map = [] then map (\<lambda>n. (n, False)) nodes else node_sync_map)
      in if name \<notin> fst ` set m then ((0, None), m)
         else let m' = map (\<lambda>(n, r). if n = name then (n, True) else (n, r)) m
              in if list_all snd m'
                 then ((1, Some (Timespec (tv_sec now + 1) (tv_nsec now))), m')
                 else ((0, None), m'))"

section \<open>The encoding\<close>

text \<open>What the node gets to see of a task, and its bytes.\<close>

definition node_task :: "sched_task \<Rightarrow> task_info" where
  "node_task t = zero_task_info\<lparr>ti_name := take 15 (cstr (st_task_name t)),
     ti_sched_priority := st_sched_priority t, ti_sched_policy := st_sched_policy t,
     ti_period := ucast (st_period_ns t div 1000), ti_release_time := st_release_time t,
     ti_runtime := ucast (st_runtime_ns t div 1000), ti_deadline := ucast (st_deadline_ns t div 1000),
     ti_cpu_affinity := st_cpu_affinity t, ti_allowable_deadline_misses := st_max_dmiss t,
     ti_node_id := take 63 (cstr (st_assigned_node t))\<rparr>"

definition enc_task :: "task_info \<Rightarrow> byte list" where
  "enc_task t = enc_str (ti_name t) @ be 4 (ti_sched_priority t) @ be 4 (ti_sched_policy t) @
     be 4 (ti_period t) @ be 4 (ti_release_time t) @ be 4 (ti_runtime t) @ be 4 (ti_deadline t) @
     be 8 (ti_cpu_affinity t) @ be 4 (ti_allowable_deadline_misses t) @ enc_str (ti_node_id t)"

text \<open>The fields the protocol transports; the others are zero.\<close>

definition wire_task :: "task_info \<Rightarrow> bool" where
  "wire_task t \<longleftrightarrow> task_ok t \<and> ti_pid t = 0 \<and> ti_pidfd t = 0"

lemma fits_take_cstr: "fits (Suc n) (take n (cstr s))"
  using NUL_notin_cstr [of s] by (auto simp: fits_def dest: in_set_takeD)

lemma wire_node_task: "wire_task (node_task t)"
  using fits_take_cstr [of 15] fits_take_cstr [of 63]
  by (simp add: wire_task_def node_task_def task_ok_def field_sizes zero_task_info_def)

subsection \<open>Writing\<close>

text \<open>A write that surely succeeds: memory is available.\<close>

definition plenty :: "allocator \<Rightarrow> bool" where
  "plenty alloc \<longleftrightarrow> malloc_spec alloc \<and> (\<forall>n. alloc n \<noteq> None)"

definition appends_bytes :: "(serial_buf \<Rightarrow> unit ser) \<Rightarrow> byte list \<Rightarrow> bool" where
  "appends_bytes w bs \<longleftrightarrow> (\<forall>b. buf_ok b \<longrightarrow> (\<exists>b'. w b = Ok () b' \<and> buf_ok b' \<and> content b' = content b @ bs))"

lemma appends_bytesD:
  "appends_bytes w bs \<Longrightarrow> buf_ok b \<Longrightarrow> \<exists>b'. w b = Ok () b' \<and> buf_ok b' \<and> content b' = content b @ bs"
  by (simp add: appends_bytes_def)

lemma reserve_plenty: "plenty alloc \<Longrightarrow> reserve_space alloc (Some b) n \<noteq> None"
  by (auto simp: plenty_def realloc_def Let_def split: option.split) (metis option.distinct(1))+

lemma appends_bytes_next:
  "appends_bytes v bs \<Longrightarrow> appends_bytes w cs \<Longrightarrow> appends_bytes (\<lambda>b. and_next (v b) w) (bs @ cs)"
  by (fastforce simp: appends_bytes_def)

lemma channel_appends:
  assumes "byte_channel put get enc V" and "V x" and "\<And>b b'. put x b \<noteq> Err b'"
  shows "appends_bytes (put x) (enc x)"
  unfolding appends_bytes_def
proof (intro allI impI)
  fix b assume b: "buf_ok b"
  show "\<exists>b'. put x b = Ok () b' \<and> buf_ok b' \<and> content b' = content b @ enc x"
    using assms(3) [of b] byte_channel.put_inside [OF assms(1) b assms(2)]
      byte_channel.put_Ok [OF assms(1) b assms(2)]
    by (cases "put x b") auto
qed

lemma put_bytes_no_Err: "put_bytes bs b \<noteq> Err b'"
  by (simp add: put_bytes_def)

lemma serialize_T_no_Err: "plenty alloc \<Longrightarrow> serialize_T alloc le n x b \<noteq> Err b'"
  using reserve_plenty [of alloc b n] put_bytes_no_Err
  by (cases "reserve_space alloc (Some b) n") (auto simp: serialize_T_def simp del: reserve_space.simps)

lemma serialize_str_no_Err: "plenty alloc \<Longrightarrow> serialize_str alloc le s b \<noteq> Err b'"
proof -
  assume "plenty alloc"
  then obtain b1 where r: "reserve_space alloc (Some b) (unat (of_nat (length (cstr s)) :: u32) + 4) = Some b1"
    using reserve_plenty by blast
  have "and_then (put_bytes bs b1) (\<lambda>_. put_bytes cs) \<noteq> Err b'" for bs cs
    by (cases "put_bytes bs b1") (auto simp: put_bytes_no_Err)
  then show ?thesis
    by (simp add: serialize_str_def serialize_blob_def r del: reserve_space.simps)
qed

lemma plenty_appends:
  assumes "plenty alloc"
  shows "appends_bytes (serialize_int32_t alloc le x) (be 4 x)"
    and "appends_bytes (serialize_int64_t alloc le y) (be 8 y)"
    and "fits n s \<Longrightarrow> n \<le> 2 ^ 32 \<Longrightarrow> appends_bytes (serialize_str alloc le s) (enc_str s)"
proof -
  have m: "malloc_spec alloc" using assms by (simp add: plenty_def)
  show "appends_bytes (serialize_int32_t alloc le x) (be 4 x)"
    by (rule channel_appends [OF i32.byte_channel_axioms [of alloc le True] m])
      (simp add: serialize_int32_t_def serialize_T_no_Err [OF assms])
  show "appends_bytes (serialize_int64_t alloc le y) (be 8 y)"
    by (rule channel_appends [OF i64.byte_channel_axioms [of alloc le True] m])
      (simp add: serialize_int64_t_def serialize_T_no_Err [OF assms])
  show "appends_bytes (serialize_str alloc le s) (enc_str s)" if "fits n s" "n \<le> 2 ^ 32"
    using that m
    by (intro channel_appends [OF str.byte_channel_axioms [where alloc = alloc and cap = n and le = le and le' = True]] serialize_str_no_Err [OF assms])
      simp
qed

lemma sched_task_appends:
  assumes "plenty alloc"
  shows "appends_bytes (serialize_sched_task alloc le t) (enc_task (node_task t))"
proof -
  have "appends_bytes (serialize_str alloc le (take 15 (cstr (st_task_name t)))) (enc_str (take 15 (cstr (st_task_name t))))"
    "appends_bytes (serialize_str alloc le (take 63 (cstr (st_assigned_node t)))) (enc_str (take 63 (cstr (st_assigned_node t))))"
    by (rule plenty_appends(3) [OF assms fits_take_cstr], simp)+
  then show ?thesis
    unfolding serialize_sched_task_def [abs_def] enc_task_def node_task_def kNsToUs_def
    by (simp add: zero_task_info_def appends_bytes_next plenty_appends(1,2) [OF assms])
qed

lemma sched_tasks_appends:
  assumes "plenty alloc"
  shows "appends_bytes (serialize_sched_tasks alloc le ts) (concat (map (\<lambda>t. enc_task (node_task t)) ts))"
proof (induction ts)
  case Nil
  show ?case by (simp add: appends_bytes_def)
next
  case (Cons t ts)
  then show ?case
    using appends_bytes_next [OF sched_task_appends [OF assms, of le t] Cons.IH] by (simp add: appends_bytes_def)
qed

definition enc_schedule :: "u64 \<Rightarrow> string \<Rightarrow> task_info list \<Rightarrow> byte list" where
  "enc_schedule h w ts = be 8 h @ enc_str w @ concat (map enc_task ts) @ be 4 (of_nat (length ts) :: u32)"

lemma pack_schedule_content:
  assumes "plenty alloc"
  shows "\<exists>b. pack_schedule alloc le w h nodes = Some (Ok () b) \<and> buf_ok b \<and>
    content b = enc_schedule (case h of None \<Rightarrow> 0 | Some h \<Rightarrow> h) (take 63 (cstr w))
      (map node_task (concat (map snd nodes)))"
proof -
  let ?h = "case h of None \<Rightarrow> 0 | Some h \<Rightarrow> h" and ?ts = "concat (map snd nodes)"
  obtain m1 m2 where "alloc sizeof_serial_buf = Some m1" "alloc 1280 = Some m2"
    using assms unfolding plenty_def by blast
  then obtain b where b: "new_serial_buf alloc (1024 + 256) = Some b"
    by (simp add: new_serial_buf_def)
  from new_serial_buf_ok [OF _ this] assms have ok: "buf_ok b" "content b = []" by (auto simp: plenty_def)
  have "appends_bytes (\<lambda>b. and_next (serialize_int64_t alloc le ?h b) (\<lambda>b.
      and_next (serialize_str alloc le (take 63 (cstr w)) b) (\<lambda>b.
      and_next (serialize_sched_tasks alloc le ?ts b) (\<lambda>b.
        serialize_int32_t alloc le (of_nat (length ?ts)) b))))
    (be 8 ?h @ enc_str (take 63 (cstr w)) @ concat (map (\<lambda>t. enc_task (node_task t)) ?ts) @ be 4 (of_nat (length ?ts) :: u32))"
    by (intro appends_bytes_next plenty_appends [OF assms] plenty_appends(3) [OF assms fits_take_cstr]
        sched_tasks_appends [OF assms]) simp
  from appends_bytesD [OF this ok(1)] ok(2) have "\<exists>b'. and_next (serialize_int64_t alloc le ?h b) (\<lambda>b.
      and_next (serialize_str alloc le (take 63 (cstr w)) b) (\<lambda>b.
      and_next (serialize_sched_tasks alloc le ?ts b) (\<lambda>b.
        serialize_int32_t alloc le (of_nat (length ?ts)) b))) = Ok () b' \<and> buf_ok b' \<and>
      content b' = enc_schedule ?h (take 63 (cstr w)) (map node_task ?ts)"
    by (simp add: enc_schedule_def comp_def)
  then show ?thesis unfolding pack_schedule_def b by simp
qed

subsection \<open>Reading\<close>

definition reads :: "(serial_buf \<Rightarrow> 'a ser) \<Rightarrow> serial_buf \<Rightarrow> 'a \<Rightarrow> byte list \<Rightarrow> bool" where
  "reads r b x c \<longleftrightarrow> (\<exists>b'. r b = Ok x b' \<and> buf_ok b' \<and> content b' = c)"

lemma reads_and_then:
  assumes "reads g b x c'" and "\<And>b'. buf_ok b' \<Longrightarrow> content b' = c' \<Longrightarrow> reads (f x) b' y c"
  shows "reads (\<lambda>b. and_then (g b) f) b y c"
  using assms by (fastforce simp: reads_def)

lemma reads_Ok: "buf_ok b \<Longrightarrow> content b = c \<Longrightarrow> reads (\<lambda>b. Ok x b) b x c"
  by (simp add: reads_def)

lemma reads_i32: "buf_ok b \<Longrightarrow> content b = c @ be 4 x \<Longrightarrow> reads (deserialize_int32_t le) b x c"
  using i32.get_popped [where alloc = zero_alloc and x = x] by (simp add: reads_def)

lemma reads_i64: "buf_ok b \<Longrightarrow> content b = c @ be 8 x \<Longrightarrow> reads (deserialize_int64_t le) b x c"
  using i64.get_popped [where alloc = zero_alloc and x = x] by (simp add: reads_def)

lemma reads_str:
  "fits n x \<Longrightarrow> n \<le> 2 ^ 32 \<Longrightarrow> buf_ok b \<Longrightarrow> content b = c @ enc_str x \<Longrightarrow> reads (deserialize_str le n) b x c"
  using str.get_popped [where alloc = zero_alloc and cap = n and x = x] by (simp add: reads_def)

lemma enc_task_left:
  "content b = c @ enc_task t \<Longrightarrow>
    content b = (((((((((c @ enc_str (ti_name t)) @ be 4 (ti_sched_priority t)) @ be 4 (ti_sched_policy t)) @
     be 4 (ti_period t)) @ be 4 (ti_release_time t)) @ be 4 (ti_runtime t)) @ be 4 (ti_deadline t)) @
     be 8 (ti_cpu_affinity t)) @ be 4 (ti_allowable_deadline_misses t)) @ enc_str (ti_node_id t)"
  by (simp add: enc_task_def)

lemma reads_task:
  assumes "wire_task t" and "buf_ok b" and "content b = c @ enc_task t"
  shows "reads (deserialize_task le) b t c"
proof -
  note c = enc_task_left [OF assms(3)]
  have n: "fits TINFO_NODEID_MAX (ti_node_id t)" "fits TINFO_NAME_MAX (ti_name t)"
      "TINFO_NODEID_MAX \<le> 2 ^ 32" "TINFO_NAME_MAX \<le> 2 ^ 32"
    using assms(1) by (simp_all add: wire_task_def task_ok_def field_sizes)
  have t: "t = zero_task_info\<lparr>ti_node_id := ti_node_id t,
      ti_allowable_deadline_misses := ti_allowable_deadline_misses t,
      ti_cpu_affinity := ti_cpu_affinity t, ti_deadline := ti_deadline t, ti_runtime := ti_runtime t,
      ti_release_time := ti_release_time t, ti_period := ti_period t, ti_sched_policy := ti_sched_policy t,
      ti_sched_priority := ti_sched_priority t, ti_name := ti_name t\<rparr>"
    using assms(1) by (cases t) (simp add: zero_task_info_def wire_task_def)
  show ?thesis
    unfolding deserialize_task_def [abs_def]
    apply (rule reads_and_then, rule reads_str [OF n(1,3) assms(2) c])
    apply (rule reads_and_then, rule reads_i32, assumption, assumption)
    apply (rule reads_and_then, rule reads_i64, assumption, assumption)
    apply (rule reads_and_then, rule reads_i32, assumption, assumption)
    apply (rule reads_and_then, rule reads_i32, assumption, assumption)
    apply (rule reads_and_then, rule reads_i32, assumption, assumption)
    apply (rule reads_and_then, rule reads_i32, assumption, assumption)
    apply (rule reads_and_then, rule reads_i32, assumption, assumption)
    apply (rule reads_and_then, rule reads_i32, assumption, assumption)
    apply (rule reads_and_then, rule reads_str [OF n(2,4)], assumption, assumption)
    apply (subst t [symmetric], rule reads_Ok; assumption)
    done
qed

text \<open>The system has memory for every task description.\<close>

definition calloc_ok :: "os \<Rightarrow> bool" where
  "calloc_ok s \<longleftrightarrow> (\<forall>n. ret (answers s n (Kern (Calloc ''task_info''))) \<noteq> 0)"

lemma run_deserialize_tasks:
  assumes "calloc_ok s" and "list_all wire_task ts" and "buf_ok b" and "content b = c @ concat (map enc_task ts)"
  shows "\<exists>b'. run_state (deserialize_tasks le (length ts) b acc) s =
      (Some (TT_SUCCESS, b', ts @ acc), s\<lparr>trace := trace s @ replicate (length ts) (Kern (Calloc ''task_info''))\<rparr>) \<and>
    buf_ok b' \<and> content b' = c"
  using assms
proof (induction ts arbitrary: b acc s rule: rev_induct)
  case Nil
  then show ?case by simp
next
  case (snoc t ts)
  let ?s = "s\<lparr>trace := trace s @ [Kern (Calloc ''task_info'')]\<rparr>"
  obtain b1 where b1: "deserialize_task le b = Ok t b1" "buf_ok b1" "content b1 = c @ concat (map enc_task ts)"
    using reads_task [of t b "c @ concat (map enc_task ts)" le] snoc.prems by (auto simp: reads_def)
  have ok: "calloc_ok ?s" using snoc.prems(1) by (simp add: calloc_ok_def)
  have ts: "list_all wire_task ts" using snoc.prems(2) by simp
  have m: "ret (answers s (length (trace s)) (Kern (Calloc ''task_info''))) \<noteq> 0"
    using snoc.prems(1) by (simp add: calloc_ok_def)
  from snoc.IH [OF ok ts b1(2,3), of "t # acc"] show ?case
    using m b1(1) by (simp add: replicate_app_Cons_same [symmetric] del: replicate_append_same)
qed

text \<open>The hyperperiod manager after a schedule with workload \<open>w\<close> and hyperperiod \<open>h\<close> has been read.\<close>

definition fresh_hp :: "string \<Rightarrow> u64 \<Rightarrow> hyperperiod_manager \<Rightarrow> hyperperiod_manager" where
  "fresh_hp w h hp = hp\<lparr>hp_workload_id := w, hp_hyperperiod_us := h, hp_current_cycle := 0,
     hp_completed_cycles := 0, hp_total_deadline_misses := 0, hp_cycle_deadline_misses := 0,
     hp_tasks_in_hyperperiod := 0, hp_ctx := True, hp_hyperperiod_start_time_us := 0\<rparr>"

lemma init_hyperperiod_fits:
  "fits WORKLOAD_ID_MAX w \<Longrightarrow> init_hyperperiod True (Some w) h (Some hp) = (TT_SUCCESS, Some (fresh_hp w h hp))"
  by (simp add: init_hyperperiod_def fresh_hp_def strncpy_field_fits)

text \<open>The node reads the header as the pair of channels does, naming the second part first.\<close>

lemma deserialize_workload_header:
  "deserialize_workload le b =
    and_then (header.get_pair le WORKLOAD_ID_MAX b) (\<lambda>p b. Ok (snd p, fst p) b)"
  unfolding deserialize_workload_def header.get_pair_def
  by (cases "deserialize_str le WORKLOAD_ID_MAX b"; simp; case_tac "deserialize_int64_t le x12"; simp)

lemma run_deserialize_sched_info:
  assumes "calloc_ok s" and "list_all wire_task ts" and "length ts < 2 ^ 32" and "fits WORKLOAD_ID_MAX w"
    and "buf_ok b" and "content b = enc_schedule h w ts"
  shows "run_state (deserialize_sched_info le ctx b si) s =
    (Some (TT_SUCCESS, ctx\<lparr>cx_hp_manager := fresh_hp w h (cx_hp_manager ctx)\<rparr>,
       si\<lparr>si_nr_tasks := of_nat (length ts), si_tasks := ts, si_workload_id := w\<rparr>),
     s\<lparr>trace := trace s @ replicate (length ts) (Kern (Calloc ''task_info''))\<rparr>)"
proof -
  have c: "content b = (be 8 h @ enc_str w @ concat (map enc_task ts)) @ be 4 (of_nat (length ts) :: u32)"
    using assms(6) by (simp add: enc_schedule_def)
  obtain b1 where b1: "deserialize_int32_t le b = Ok (of_nat (length ts)) b1" "buf_ok b1"
      "content b1 = (be 8 h @ enc_str w) @ concat (map enc_task ts)"
    using reads_i32 [OF assms(5) c] by (auto simp: reads_def)
  obtain b2 where b2: "run_state (deserialize_tasks le (length ts) b1 []) s =
      (Some (TT_SUCCESS, b2, ts), s\<lparr>trace := trace s @ replicate (length ts) (Kern (Calloc ''task_info''))\<rparr>)"
      "buf_ok b2" "content b2 = be 8 h @ enc_str w"
    using run_deserialize_tasks [OF assms(1,2) b1(2,3), of le "[]"] by auto
  have w: "malloc_spec zero_alloc \<and> fits WORKLOAD_ID_MAX w \<and> WORKLOAD_ID_MAX \<le> 2 ^ 32"
    using assms(4) by (simp add: field_sizes)
  have "content b2 = [] @ be 8 h @ enc_str w" using b2(3) by simp
  from header.get_pair_enc [OF b2(2) malloc_spec_zero_alloc w this, of le]
  obtain b3 where b3: "deserialize_workload le b2 = Ok (w, h) b3"
    by (simp add: deserialize_workload_header)
  have n: "unat (of_nat (length ts) :: u32) = length ts"
    using assms(3) by (simp add: unat_of_nat)
  show ?thesis
    by (simp add: deserialize_sched_info_def b1(1) n b2(1) b3
        init_hyperperiod_fits [OF assms(4)] Let_def)
qed

section \<open>Properties\<close>

text \<open>What the bus is documented to do: it hands the caller the array the server appended.\<close>

definition bus_delivers :: "os \<Rightarrow> string \<Rightarrow> byte list \<Rightarrow> bool" where
  "bus_delivers s node bytes \<longleftrightarrow> (\<forall>n. 0 \<le> ret (answers s n (Bus (Bus_call_method ''SchedInfo'' [node]))) \<and>
     0 \<le> ret (answers s n (Bus Message_read_array)) \<and> out_bytes (answers s n (Bus Message_read_array)) = bytes)"

lemma run_client_schedinfo:
  assumes "bus_delivers s node bytes" and "plenty (heap s)"
  shows "\<exists>r cs. 0 \<le> r \<and> run_state (trpc_client_schedinfo node) s = ((r, Some bytes), s\<lparr>trace := trace s @ cs\<rparr>)"
proof -
  obtain m where m: "heap s (length bytes) = Some m"
    using assms(2) unfolding plenty_def by blast
  have "0 \<le> ret (answers s (length (trace s)) (Bus (Bus_call_method ''SchedInfo'' [node])))"
      "0 \<le> ret (answers s (Suc (length (trace s))) (Bus Message_read_array))"
      "out_bytes (answers s (Suc (length (trace s))) (Bus Message_read_array)) = bytes"
    using assms(1) unfolding bus_delivers_def by blast+
  then show ?thesis
    using m by (auto simp: trpc_client_schedinfo_def request_cleanup_def trpc_methods)
qed

lemma enc_schedule_nonempty: "enc_schedule h w ts \<noteq> []"
  by (auto simp: enc_schedule_def dest: arg_cong [where f = length])

lemma get_sched_info_decodes:
  assumes "plenty (heap s)" and "calloc_ok s" and "list_all wire_task tasks" and "length tasks < 2 ^ 32"
    and del: "bus_delivers s (cfg_node_id (cx_config ctx)) (enc_schedule h (take 63 (cstr w)) tasks)"
  shows "result (get_sched_info le ctx) s = Some (0, ctx
    \<lparr>cx_hp_manager := fresh_hp (take 63 (cstr w)) h (cx_hp_manager ctx),
     cx_sched_info := (cx_sched_info ctx)\<lparr>si_nr_tasks := of_nat (length tasks), si_tasks := tasks,
       si_workload_id := take 63 (cstr w)\<rparr>\<rparr>)"
proof -
  let ?w = "take 63 (cstr w)"
  let ?bytes = "enc_schedule h ?w tasks"
  obtain r cs where r: "0 \<le> r" "run_state (trpc_client_schedinfo (cfg_node_id (cx_config ctx))) s =
      ((r, Some ?bytes), s\<lparr>trace := trace s @ cs\<rparr>)"
    using run_client_schedinfo [OF del assms(1)] by blast
  obtain m where m: "heap s sizeof_serial_buf = Some m"
    using assms(1) unfolding plenty_def by blast
  let ?b = "\<lparr>sb_data = ?bytes, sb_pos = length ?bytes, sb_size = length ?bytes\<rparr>"
  have ok: "buf_ok ?b" "content ?b = ?bytes" by (simp_all add: buf_ok_def content_def)
  have fit: "fits WORKLOAD_ID_MAX ?w" using fits_take_cstr [of 63 w] by (simp add: field_sizes)
  have ok': "calloc_ok (s\<lparr>trace := trace s @ cs\<rparr>)" using assms(2) by (simp add: calloc_ok_def)
  note run = run_deserialize_sched_info [OF ok' assms(3,4) fit ok, of le ctx "cx_sched_info ctx"]
  show ?thesis
    using r(1) enc_schedule_nonempty m by (simp add: get_sched_info_def r(2) make_serial_buf_def run)
qed

lemma wire_node_tasks: "list_all wire_task (map node_task ts)"
  by (simp add: list_all_iff wire_node_task)

text \<open>
  C3. The schedule arrives as it was sent. The orchestrator packs the first workload of its map, the
  bus transports the bytes, the node unpacks them, each side on a machine of either byte
  order: the node then holds exactly the tasks of all nodes in the order of the map, each
  with its priority, policy, release time, CPU affinity and allowed misses, its times in
  microseconds and its names cut to the size of the arrays, together with the workload's name
  and hyperperiod; the result code is success.
\<close>

theorem schedule_delivery:
  fixes nodes w h ctx s
  defines "tasks \<equiv> map node_task (concat (map snd nodes))"
  assumes "plenty alloc" and "plenty (heap s)" and "calloc_ok s" and "length tasks < 2 ^ 32"
  shows "\<exists>b. pack_schedule alloc le w h nodes = Some (Ok () b) \<and>
    (bus_delivers s (cfg_node_id (cx_config ctx)) (content b) \<longrightarrow>
      result (get_sched_info le' ctx) s = Some (0, ctx
        \<lparr>cx_hp_manager := fresh_hp (take 63 (cstr w)) (case h of None \<Rightarrow> 0 | Some h \<Rightarrow> h) (cx_hp_manager ctx),
         cx_sched_info := (cx_sched_info ctx)\<lparr>si_nr_tasks := of_nat (length tasks), si_tasks := tasks,
           si_workload_id := take 63 (cstr w)\<rparr>\<rparr>))"
proof -
  obtain b where b: "pack_schedule alloc le w h nodes = Some (Ok () b)"
      "content b = enc_schedule (case h of None \<Rightarrow> 0 | Some h \<Rightarrow> h) (take 63 (cstr w)) tasks"
    using pack_schedule_content [OF assms(2), of le w h nodes] by (auto simp: tasks_def)
  note dec = get_sched_info_decodes [OF assms(3,4) wire_node_tasks assms(5) [unfolded tasks_def], folded tasks_def]
  show ?thesis
    unfolding b(1) by (rule exI [of _ b], rule conjI [OF refl], rule impI) (unfold b(2), erule dec)
qed

lemma plenty_zero_alloc [simp]: "plenty zero_alloc"
  by (simp add: plenty_def) (simp add: zero_alloc_def)

lemma schedule_delivery_witness:
  "\<exists>s ctx'. result (get_sched_info False zero_context) s = Some (0, ctx') \<and>
     map ti_name (si_tasks (cx_sched_info ctx')) = [''camera'', ''planner''] \<and>
     map ti_period (si_tasks (cx_sched_info ctx')) = [10, 20] \<and>
     hp_hyperperiod_us (cx_hp_manager ctx') = 20"
proof -
  let ?t = "\<lambda>n p. \<lparr>st_task_name = n, st_period_ns = p, st_runtime_ns = 2000, st_deadline_ns = 9000,
    st_release_time = 0, st_cpu_affinity = 1, st_sched_policy = 1, st_sched_priority = 50,
    st_max_dmiss = 3, st_assigned_node = ''n1''\<rparr>"
  let ?nodes = "[(''n1'', [?t ''camera'' 10000]), (''n2'', [?t ''planner'' 20999])]"
  let ?ts = "map node_task (concat (map snd ?nodes))"
  define s where "s = os_of (\<lambda>c. answer0\<lparr>ret := 1, out_bytes := enc_schedule 20 (take 63 (cstr ''w'')) ?ts\<rparr>)"
  have h: "plenty (heap s)" by (simp add: s_def)
  have c: "calloc_ok s" by (simp add: s_def calloc_ok_def)
  have n: "length ?ts < 2 ^ 32" by simp
  note main = schedule_delivery [OF plenty_zero_alloc h c n, of True "''w''" "Some 20" zero_context False]
  from pack_schedule_content [OF plenty_zero_alloc, of True "''w''" "Some 20" ?nodes] main
  obtain b where b: "content b = enc_schedule 20 (take 63 (cstr ''w'')) ?ts" and
    imp: "bus_delivers s (cfg_node_id (cx_config zero_context)) (content b) \<longrightarrow>
      result (get_sched_info False zero_context) s = Some (0, zero_context
        \<lparr>cx_hp_manager := fresh_hp (take 63 (cstr ''w'')) 20 (cx_hp_manager zero_context),
         cx_sched_info := (cx_sched_info zero_context)\<lparr>si_nr_tasks := of_nat (length ?ts), si_tasks := ?ts,
           si_workload_id := take 63 (cstr ''w'')\<rparr>\<rparr>)"
    by auto
  have "bus_delivers s (cfg_node_id (cx_config zero_context)) (content b)"
    by (simp add: bus_delivers_def s_def b)
  with imp show ?thesis
    by (intro exI conjI) (auto simp: node_task_def cstr_def fresh_hp_def unsigned_eq_0_iff)
qed

subsection \<open>Messages that do not fit\<close>

lemma str_overrun:
  assumes "buf_ok b" and "content b = c @ enc_str x" and "cap \<le> length x" and "length x < 2 ^ 32"
  shows "deserialize_str le cap b = Overrun"
proof -
  have "deserialize_blob le (length x) b = Ok (bytes_of x) (popped b c)"
    using assms by (intro deserialize_blob_enc) (simp_all add: enc_str_def)
  then have inside: "\<not> sb_pos b < 4" "\<not> sb_pos b - 4 < blob_len le b"
    and eq: "take (blob_len le b) (drop (sb_pos b - 4 - blob_len le b) (sb_data b)) = bytes_of x"
    by (simp_all add: deserialize_blob_untrusted [OF assms(1)] split: if_splits)
  show ?thesis
    unfolding deserialize_str_def deserialize_blob_untrusted [OF assms(1)] eq
    using inside assms(3) by simp
qed

lemma overrun_and_then:
  assumes "reads g b x c'" and "\<And>b'. buf_ok b' \<Longrightarrow> content b' = c' \<Longrightarrow> f x b' = Overrun"
  shows "and_then (g b) f = Overrun"
  using assms by (auto simp: reads_def)

lemma task_overrun:
  assumes "buf_ok b" and "content b = c @ enc_task t" and "fits TINFO_NODEID_MAX (ti_node_id t)"
    and "TINFO_NAME_MAX \<le> length (ti_name t)" and "length (ti_name t) < 2 ^ 32"
  shows "deserialize_task le b = Overrun"
proof -
  have n: "TINFO_NODEID_MAX \<le> 2 ^ 32" by (simp add: field_sizes)
  note name = str_overrun [OF _ _ assms(4,5), THEN arg_cong [where f = "\<lambda>r. and_then r _"], simplified]
  show ?thesis
    unfolding deserialize_task_def
    apply (rule overrun_and_then, rule reads_str [OF assms(3) n assms(1) enc_task_left [OF assms(2)]])
    apply (rule overrun_and_then, rule reads_i32, assumption, assumption)
    apply (rule overrun_and_then, rule reads_i64, assumption, assumption)
    apply (rule overrun_and_then, rule reads_i32, assumption, assumption)+
    apply (rule name; assumption)
    done
qed

text \<open>
  C33. A schedule message whose task name does not fit its array makes the node write outside of the
  array: the decoder copies as many bytes as the message announces, for every name of 16 bytes
  or more, and no error is reported.
\<close>

theorem oversized_name_overruns:
  assumes "calloc_ok s" and "buf_ok b" and "content b = c @ enc_task t @ be 4 (1 :: u32)"
    and "fits TINFO_NODEID_MAX (ti_node_id t)" and "16 \<le> length (ti_name t)" and "length (ti_name t) < 2 ^ 32"
  shows "result (deserialize_sched_info le ctx b si) s = None"
proof -
  have "content b = (c @ enc_task t) @ be 4 (1 :: u32)" using assms(3) by simp
  from reads_i32 [OF assms(2) this, of le] obtain b1 where
    b1: "deserialize_int32_t le b = Ok 1 b1" "buf_ok b1" "content b1 = c @ enc_task t"
    by (auto simp: reads_def)
  have "deserialize_task le b1 = Overrun"
    using task_overrun [OF b1(2,3) assms(4)] assms(5,6) by (simp add: field_sizes)
  moreover have "ret (answers s (length (trace s)) (Kern (Calloc ''task_info''))) \<noteq> 0"
    using assms(1) by (simp add: calloc_ok_def)
  ultimately show ?thesis by (simp add: deserialize_sched_info_def b1(1))
qed

lemma oversized_name_overruns_witness:
  "\<exists>b. buf_ok b \<and> sb_size b = 68 \<and>
     result (deserialize_sched_info True zero_context b zero_sched_info) (os_of (\<lambda>c. answer0\<lparr>ret := 1\<rparr>)) = None"
proof -
  let ?t = "zero_task_info\<lparr>ti_name := replicate 18 (CHR ''x''), ti_node_id := ''n1''\<rparr>"
  define bs where "bs = enc_task ?t @ be 4 (1 :: u32)"
  define b where "b = \<lparr>sb_data = bs, sb_pos = length bs, sb_size = length bs\<rparr>"
  have ok: "buf_ok b" "content b = [] @ enc_task ?t @ be 4 (1 :: u32)"
    by (simp_all add: b_def buf_ok_def content_def bs_def)
  have fit: "fits TINFO_NODEID_MAX (ti_node_id ?t)" by (simp add: fits_def field_sizes)
  have c: "calloc_ok (os_of (\<lambda>c. answer0\<lparr>ret := 1\<rparr>))" by (simp add: calloc_ok_def)
  have len: "16 \<le> length (ti_name ?t)" "length (ti_name ?t) < 2 ^ 32" by simp_all
  have "length bs = 68" by (simp add: bs_def enc_task_def enc_str_def enc_blob_def zero_task_info_def)
  with oversized_name_overruns [OF c ok fit len, of True zero_context zero_sched_info] ok(1) show ?thesis
    by (auto simp: b_def)
qed

subsection \<open>The barrier\<close>

text \<open>The requests of the nodes in the order they arrive, each with the time at the server.\<close>

primrec sync_requests ::
  "string list \<Rightarrow> (string \<times> timespec) list \<Rightarrow> (string \<times> bool) list \<Rightarrow> (int \<times> timespec option) list \<times> (string \<times> bool) list" where
  "sync_requests nodes [] m = ([], m)"
| "sync_requests nodes (r # rs) m =
     (let (a, m') = SyncCallback nodes (fst r) (snd r) m; (as, m'') = sync_requests nodes rs m'
      in (a # as, m''))"

text \<open>The table after requests from the nodes in \<open>ready\<close>.\<close>

definition sync_table :: "string list \<Rightarrow> string set \<Rightarrow> (string \<times> bool) list" where
  "sync_table nodes ready = map (\<lambda>n. (n, n \<in> ready)) nodes"

lemma SyncCallback_table:
  assumes "nodes \<noteq> []" and "m = sync_table nodes ready \<or> m = [] \<and> ready = {}"
  shows "SyncCallback nodes name now m =
    ((if name \<in> set nodes \<and> set nodes \<subseteq> insert name ready
      then (1, Some (Timespec (tv_sec now + 1) (tv_nsec now))) else (0, None)),
     sync_table nodes (if name \<in> set nodes then insert name ready else ready))"
proof -
  have start: "(if m = [] then map (\<lambda>n. (n, False)) nodes else m) = sync_table nodes ready"
    using assms by (auto simp: sync_table_def)
  have upd: "map (\<lambda>(n, r). if n = name then (n, True) else (n, r)) (sync_table nodes ready) =
      sync_table nodes (insert name ready)"
    by (auto simp: sync_table_def)
  have keys: "fst ` set (sync_table nodes ready) = set nodes"
    by (force simp: sync_table_def)
  show ?thesis
    unfolding SyncCallback_def start Let_def keys upd
    by (auto simp: sync_table_def list_all_iff)
qed

text \<open>The answer to each of a sequence of requests, from a table in which the nodes of \<open>ready\<close> have asked.\<close>

lemma sync_requests_nth:
  assumes "nodes \<noteq> []" and "i < length rs" and "m = sync_table nodes ready \<or> m = [] \<and> ready = {}"
  shows "fst (sync_requests nodes rs m) ! i =
    (if fst (rs ! i) \<in> set nodes \<and> set nodes \<subseteq> ready \<union> fst ` set (take (Suc i) rs)
     then (1, Some (Timespec (tv_sec (snd (rs ! i)) + 1) (tv_nsec (snd (rs ! i)))))
     else (0, None))"
  using assms(2,3)
proof (induction rs arbitrary: m ready i)
  case Nil
  then show ?case by simp
next
  case (Cons r rs)
  note step = SyncCallback_table [OF assms(1) Cons.prems(2), of "fst r" "snd r"]
  show ?case
  proof (cases i)
    case 0
    then show ?thesis by (auto simp: step case_prod_beta Let_def)
  next
    case (Suc j)
    let ?ready = "if fst r \<in> set nodes then insert (fst r) ready else ready"
    have "set nodes \<subseteq> ?ready \<union> fst ` set (take (Suc j) rs) \<longleftrightarrow>
        set nodes \<subseteq> ready \<union> fst ` set (take (Suc i) (r # rs))"
      using Suc by auto
    then show ?thesis
      using Suc Cons.prems(1) Cons.IH [of j "sync_table nodes ?ready" ?ready]
      by (simp add: step case_prod_beta Let_def)
  qed
qed

text \<open>
  C10. The start barrier: requests of the nodes are answered in any order and any number of times, each at
  once; a request is acknowledged exactly when it comes from a node of the schedule and every node of
  the schedule has asked by then, and an acknowledged node is told to start one second
  after the time of its request. A request before that is not held back but answered with an
  acknowledgement of zero, and the node asks again (the design document describes a
  call-back that blocks an early node until all have checked in).
\<close>

theorem sync_barrier:
  assumes "nodes \<noteq> []" and "i < length rs"
  shows "fst (sync_requests nodes rs []) ! i =
    (if fst (rs ! i) \<in> set nodes \<and> set nodes \<subseteq> fst ` set (take (Suc i) rs)
     then (1, Some (Timespec (tv_sec (snd (rs ! i)) + 1) (tv_nsec (snd (rs ! i)))))
     else (0, None))"
  using sync_requests_nth [OF assms, of "[]" "{}"] by simp

lemma sync_barrier_witness:
  "fst (sync_requests [''a'', ''b''] [(''a'', Timespec 1 0), (''c'', Timespec 2 0), (''b'', Timespec 3 0),
     (''a'', Timespec 4 0)] []) ! 3 = (1, Some (Timespec 5 0)) \<and>
   fst (sync_requests [''a'', ''b''] [(''a'', Timespec 1 0), (''c'', Timespec 2 0), (''b'', Timespec 3 0),
     (''a'', Timespec 4 0)] []) ! 0 = (0, None)"
  using sync_barrier [of "[''a'', ''b'']" 3 "[(''a'', Timespec 1 0), (''c'', Timespec 2 0), (''b'', Timespec 3 0), (''a'', Timespec 4 0)]"]
    sync_barrier [of "[''a'', ''b'']" 0 "[(''a'', Timespec 1 0), (''c'', Timespec 2 0), (''b'', Timespec 3 0), (''a'', Timespec 4 0)]"]
  by simp

end
