(* ===== verification/Global_Scheduler.thy ===== *)
theory Global_Scheduler
  imports Hyperperiod_Manager Node_Config Orchestrator "HOL-Library.Multiset"
begin

text \<open>
  The placement of tasks on nodes and CPUs (\<^verbatim>\<open>timpani-o/src/global_scheduler.cpp\<close>): the three
  algorithms, the bookkeeping of free CPUs and of CPU utilisation in double arithmetic, and the
  generation of the schedules of the nodes. The lemmas give, for every rounding of the
  arithmetic, the utilisation bound of the algorithm in use, its completeness at the moment of
  each decision, the exclusive use of CPUs by the two older algorithms, and the exact contents
  of the generated schedules. (\<^verbatim>\<open>get_sorted_cpus_by_utilization\<close> is never called.)
\<close>

section \<open>State\<close>

record global_scheduler =
  gs_manager :: "node_config_manager option"
  gs_available_cpus :: "(string, int list) omap"
  gs_cpu_utilization :: "(string, (int, double) omap) omap"
  gs_tasks :: "otask list"
  gs_sched_info_map :: "(string, sched_task list) omap"

definition initialize_available_cpus :: "global_scheduler \<Rightarrow> global_scheduler" where
  "initialize_available_cpus gs =
     (case gs_manager gs of
        None \<Rightarrow> gs\<lparr>gs_available_cpus := []\<rparr>
      | Some m \<Rightarrow>
          if \<not> IsLoaded m then gs\<lparr>gs_available_cpus := []\<rparr>
          else gs\<lparr>gs_available_cpus :=
            fold (\<lambda>nc. omap_put (fst nc) (nc_available_cpus (snd nc))) (ncm_nodes m) []\<rparr>)"

definition set_cpu_utilization ::
  "string \<Rightarrow> int \<Rightarrow> double \<Rightarrow> (string, (int, double) omap) omap \<Rightarrow> (string, (int, double) omap) omap" where
  "set_cpu_utilization node_id cpu v u = omap_put node_id (omap_put cpu v (omap_at [] node_id u)) u"

definition initialize_cpu_utilization_tracking :: "global_scheduler \<Rightarrow> global_scheduler" where
  "initialize_cpu_utilization_tracking gs = gs\<lparr>gs_cpu_utilization :=
     fold (\<lambda>(node_id, cpus). fold (\<lambda>cpu. set_cpu_utilization node_id cpu 0) cpus) (gs_available_cpus gs) []\<rparr>"

definition GlobalScheduler :: "node_config_manager option \<Rightarrow> global_scheduler" where
  "GlobalScheduler m =
     (let gs = \<lparr>gs_manager = m, gs_available_cpus = [], gs_cpu_utilization = [], gs_tasks = [], gs_sched_info_map = []\<rparr>
      in case m of
           None \<Rightarrow> gs
         | Some c \<Rightarrow> if IsLoaded c then initialize_cpu_utilization_tracking (initialize_available_cpus gs) else gs)"

definition set_tasks :: "otask list \<Rightarrow> global_scheduler \<Rightarrow> global_scheduler" where
  "set_tasks tasks gs = gs\<lparr>gs_tasks := tasks\<rparr>"

definition cleanup_schedules :: "global_scheduler \<Rightarrow> global_scheduler" where
  "cleanup_schedules gs = gs\<lparr>gs_sched_info_map := []\<rparr>"

definition has_schedules :: "global_scheduler \<Rightarrow> bool" where
  "has_schedules gs = (gs_sched_info_map gs \<noteq> [])"

definition get_total_scheduled_tasks :: "global_scheduler \<Rightarrow> nat" where
  "get_total_scheduled_tasks gs = sum_list (map (\<lambda>e. length (snd e)) (gs_sched_info_map gs))"

definition clear :: "global_scheduler \<Rightarrow> global_scheduler" where
  "clear gs = (cleanup_schedules gs)\<lparr>gs_tasks := [], gs_available_cpus := [], gs_cpu_utilization := []\<rparr>"

section \<open>Utilisation\<close>

definition CPU_UTILIZATION_THRESHOLD :: "rounding \<Rightarrow> double" where
  "CPU_UTILIZATION_THRESHOLD rnd = rnd (9 / 10)"

definition task_utilization :: "rounding \<Rightarrow> otask \<Rightarrow> double" where
  "task_utilization rnd task =
     (if ot_period_us task > 0
      then double_div rnd (double_of_u64 rnd (ot_runtime_us task)) (double_of_u64 rnd (ot_period_us task)) else 0)"

lemma task_utilization_assigned [simp]:
  "task_utilization rnd (t\<lparr>ot_assigned_node := n\<rparr>) = task_utilization rnd t"
  "task_utilization rnd (t\<lparr>ot_assigned_cpu := c\<rparr>) = task_utilization rnd t"
  by (simp_all add: task_utilization_def)

definition calculate_cpu_utilization :: "global_scheduler \<Rightarrow> string \<Rightarrow> int \<Rightarrow> double" where
  "calculate_cpu_utilization gs node_id cpu_id =
     (case omap_find (gs_cpu_utilization gs) node_id of
        None \<Rightarrow> 0
      | Some cpus \<Rightarrow> (case omap_find cpus cpu_id of None \<Rightarrow> 0 | Some u \<Rightarrow> u))"

text \<open>The sum runs over all tasks that are assigned to the node by now; the new task comes last.\<close>

definition calculate_node_utilization :: "rounding \<Rightarrow> global_scheduler \<Rightarrow> string \<Rightarrow> otask option \<Rightarrow> double" where
  "calculate_node_utilization rnd gs node_id extra =
     (let add = (\<lambda>u t. if ot_period_us t > 0 then double_add rnd u (task_utilization rnd t) else u);
          utilization = foldl (\<lambda>u t. if ot_assigned_node t = node_id then add u t else u) 0 (gs_tasks gs)
      in case extra of None \<Rightarrow> utilization | Some t \<Rightarrow> add utilization t)"

definition has_affinity :: "otask \<Rightarrow> bool" where
  "has_affinity task \<longleftrightarrow> ot_affinity task \<noteq> ''any'' \<and> ot_affinity task \<noteq> []"

text \<open>An exception of \<^verbatim>\<open>stoi\<close> or \<^verbatim>\<open>at\<close> is caught and means that any CPU will do.\<close>

definition is_task_schedulable_on_node :: "global_scheduler \<Rightarrow> otask \<Rightarrow> string \<Rightarrow> bool" where
  "is_task_schedulable_on_node gs task node_id =
     (case gs_manager gs of
        None \<Rightarrow> True
      | Some m \<Rightarrow>
         (case GetNodeConfig m node_id of
            None \<Rightarrow> (case omap_find (gs_available_cpus gs) node_id of None \<Rightarrow> False | Some cpus \<Rightarrow> cpus \<noteq> [])
          | Some c \<Rightarrow>
              if ot_memory_mb task > nc_max_memory_mb c then False
              else if has_affinity task
              then (case (stoi (ot_affinity task), omap_find (gs_available_cpus gs) node_id) of
                      (Some required_cpu, Some cpus) \<Rightarrow> required_cpu \<in> set cpus
                    | _ \<Rightarrow> True)
              else True))"

section \<open>Target node priority\<close>

text \<open>The caller has checked that the node has an entry, so \<^verbatim>\<open>operator[]\<close> does not add one.\<close>

definition fits_on :: "rounding \<Rightarrow> global_scheduler \<Rightarrow> otask \<Rightarrow> string \<Rightarrow> int \<Rightarrow> bool" where
  "fits_on rnd gs task node_id cpu \<longleftrightarrow>
     double_add rnd (calculate_cpu_utilization gs node_id cpu) (task_utilization rnd task) \<le> CPU_UTILIZATION_THRESHOLD rnd"

definition find_best_cpu_for_task :: "rounding \<Rightarrow> global_scheduler \<Rightarrow> otask \<Rightarrow> string \<Rightarrow> int" where
  "find_best_cpu_for_task rnd gs task node_id =
     (let available_cpus = omap_at [] node_id (gs_available_cpus gs) in
      if available_cpus = [] then -1
      else let any = (case find (fits_on rnd gs task node_id) (rev (sort available_cpus)) of None \<Rightarrow> -1 | Some cpu \<Rightarrow> cpu)
      in if has_affinity task
         then (case stoi (ot_affinity task) of
                 None \<Rightarrow> any
               | Some required_cpu \<Rightarrow>
                   if required_cpu \<in> set available_cpus \<and> fits_on rnd gs task node_id required_cpu then required_cpu else any)
         else any)"

definition assign_task_to_node_cpu ::
  "rounding \<Rightarrow> global_scheduler \<Rightarrow> otask \<Rightarrow> string \<Rightarrow> int \<Rightarrow> bool \<times> otask \<times> global_scheduler" where
  "assign_task_to_node_cpu rnd gs task node_id cpu_id =
     (if cpu_id \<notin> set (omap_at [] node_id (gs_available_cpus gs)) then (False, task, gs)
      else let new_cpu_util = double_add rnd (calculate_cpu_utilization gs node_id cpu_id) (task_utilization rnd task)
      in if new_cpu_util > CPU_UTILIZATION_THRESHOLD rnd then (False, task, gs)
         else (True, task\<lparr>ot_assigned_cpu := cpu_id\<rparr>,
               gs\<lparr>gs_cpu_utilization := set_cpu_utilization node_id cpu_id new_cpu_util (gs_cpu_utilization gs)\<rparr>))"

text \<open>The body of the loop for the task at position \<open>i\<close>; the tasks are changed in place.\<close>

definition target_node_step :: "rounding \<Rightarrow> nat \<Rightarrow> global_scheduler \<Rightarrow> global_scheduler" where
  "target_node_step rnd i gs =
     (let task = gs_tasks gs ! i; target = ot_target_node task in
      if ot_workload_id task = [] then gs
      else if target = [] then gs
      else case omap_find (gs_available_cpus gs) target of
        None \<Rightarrow> gs
      | Some cpus \<Rightarrow>
          if cpus = [] then gs
          else let task1 = task\<lparr>ot_assigned_node := target\<rparr>;
                   gs1 = gs\<lparr>gs_tasks := (gs_tasks gs)[i := task1]\<rparr>;
                   best_cpu = find_best_cpu_for_task rnd gs1 task1 target
               in if best_cpu \<noteq> -1
                  then let (ok, task2, gs2) = assign_task_to_node_cpu rnd gs1 task1 target best_cpu
                       in gs2\<lparr>gs_tasks := (gs_tasks gs2)[i := task2]\<rparr>
                  else gs1)"

definition schedule_with_target_node_priority :: "rounding \<Rightarrow> global_scheduler \<Rightarrow> global_scheduler" where
  "schedule_with_target_node_priority rnd gs = fold (target_node_step rnd) [0..<length (gs_tasks gs)] gs"

section \<open>Least loaded and best fit decreasing\<close>

text \<open>Taking the first free CPU of a node; \<open>None\<close> is \<^verbatim>\<open>front\<close> of an empty vector.\<close>

definition take_front :: "string \<Rightarrow> global_scheduler \<Rightarrow> (int \<times> global_scheduler) option" where
  "take_front node_id gs =
     (case omap_at [] node_id (gs_available_cpus gs) of
        [] \<Rightarrow> None
      | cpu # cpus \<Rightarrow> Some (cpu, gs\<lparr>gs_available_cpus := omap_put node_id cpus (gs_available_cpus gs)\<rparr>))"

definition assign :: "nat \<Rightarrow> string \<Rightarrow> int \<Rightarrow> global_scheduler \<Rightarrow> global_scheduler" where
  "assign i node_id cpu gs = gs\<lparr>gs_tasks :=
     (gs_tasks gs)[i := (gs_tasks gs ! i)\<lparr>ot_assigned_node := node_id, ot_assigned_cpu := cpu\<rparr>]\<rparr>"

definition find_best_node_least_loaded :: "rounding \<Rightarrow> global_scheduler \<Rightarrow> otask \<Rightarrow> string" where
  "find_best_node_least_loaded rnd gs task =
     fst (foldl (\<lambda>(best_node, lowest_utilization) (node_id, cpus).
            if cpus = [] \<or> \<not> is_task_schedulable_on_node gs task node_id then (best_node, lowest_utilization)
            else let utilization = calculate_node_utilization rnd gs node_id None in
              if utilization < lowest_utilization then (node_id, utilization) else (best_node, lowest_utilization))
          ([], 1) (gs_available_cpus gs))"

definition least_loaded_step :: "rounding \<Rightarrow> nat \<Rightarrow> global_scheduler \<Rightarrow> global_scheduler option" where
  "least_loaded_step rnd i gs =
     (let best_node = find_best_node_least_loaded rnd gs (gs_tasks gs ! i) in
      if best_node \<noteq> []
      then map_option (\<lambda>(cpu, gs'). assign i best_node cpu gs') (take_front best_node gs)
      else Some gs)"

primrec steps :: "(nat \<Rightarrow> global_scheduler \<Rightarrow> global_scheduler option) \<Rightarrow> nat list \<Rightarrow> global_scheduler \<Rightarrow> global_scheduler option" where
  "steps f [] gs = Some gs"
| "steps f (i # is) gs = (case f i gs of None \<Rightarrow> None | Some gs' \<Rightarrow> steps f is gs')"

definition schedule_with_least_loaded :: "rounding \<Rightarrow> global_scheduler \<Rightarrow> global_scheduler option" where
  "schedule_with_least_loaded rnd gs = steps (least_loaded_step rnd) [0..<length (gs_tasks gs)] gs"

definition find_best_node_best_fit_decreasing :: "rounding \<Rightarrow> global_scheduler \<Rightarrow> otask \<Rightarrow> string" where
  "find_best_node_best_fit_decreasing rnd gs task =
     fst (foldl (\<lambda>(best_node, best_fit_utilization) (node_id, cpus).
            if cpus = [] \<or> \<not> is_task_schedulable_on_node gs task node_id then (best_node, best_fit_utilization)
            else let new_utilization = calculate_node_utilization rnd gs node_id (Some task) in
              if new_utilization \<le> 1 \<and> new_utilization > best_fit_utilization then (node_id, new_utilization)
              else (best_node, best_fit_utilization))
          ([], -1) (gs_available_cpus gs))"

text \<open>The test of a target node that is not configured leaves an empty entry behind (\<^verbatim>\<open>operator[]\<close>).\<close>

definition touch_node :: "string \<Rightarrow> global_scheduler \<Rightarrow> global_scheduler" where
  "touch_node node_id gs =
     gs\<lparr>gs_available_cpus := omap_put node_id (omap_at [] node_id (gs_available_cpus gs)) (gs_available_cpus gs)\<rparr>"

text \<open>
  The order of CPUs by utilisation, which nothing calls. \<open>std_sort\<close> stands for \<^verbatim>\<open>std::sort\<close>, which requires a strict
  weak order.
\<close>

definition cpu_before :: "rounding \<Rightarrow> global_scheduler \<Rightarrow> string \<Rightarrow> bool \<Rightarrow> int \<Rightarrow> int \<Rightarrow> bool" where
  "cpu_before rnd gs node_id prefer_high_utilization cpu_a cpu_b =
     (let util_a = calculate_cpu_utilization gs node_id cpu_a;
          util_b = calculate_cpu_utilization gs node_id cpu_b
      in if \<bar>rnd (util_a - util_b)\<bar> > rnd (1 / 100)
         then (if prefer_high_utilization then util_a > util_b else util_a < util_b)
         else cpu_a > cpu_b)"

definition get_sorted_cpus_by_utilization ::
  "((int \<Rightarrow> int \<Rightarrow> bool) \<Rightarrow> int list \<Rightarrow> int list) \<Rightarrow> rounding \<Rightarrow> string \<Rightarrow> bool \<Rightarrow> global_scheduler \<Rightarrow> int list \<times> global_scheduler" where
  "get_sorted_cpus_by_utilization std_sort rnd node_id prefer_high_utilization gs =
     (let gs1 = touch_node node_id gs
      in (std_sort (cpu_before rnd gs1 node_id prefer_high_utilization) (omap_at [] node_id (gs_available_cpus gs1)), gs1))"

text \<open>The threshold of one percent makes the comparison cyclic.\<close>

lemma cpu_before_cycle:
  assumes "gs_cpu_utilization gs = [(''n'', [(1, 16 / 1000), (2, 8 / 1000), (3, 0)])]"
  shows "cpu_before (\<lambda>x. x) gs ''n'' True 3 2 \<and> cpu_before (\<lambda>x. x) gs ''n'' True 2 1 \<and> cpu_before (\<lambda>x. x) gs ''n'' True 1 3"
  by (simp add: cpu_before_def calculate_cpu_utilization_def assms)

definition choose_node_best_fit :: "rounding \<Rightarrow> global_scheduler \<Rightarrow> otask \<Rightarrow> string \<times> global_scheduler" where
  "choose_node_best_fit rnd gs task =
     (if ot_target_node task \<noteq> []
      then if is_task_schedulable_on_node gs task (ot_target_node task)
           then let gs' = touch_node (ot_target_node task) gs in
             (if omap_at [] (ot_target_node task) (gs_available_cpus gs') \<noteq> [] then ot_target_node task else [], gs')
           else ([], gs)
      else (find_best_node_best_fit_decreasing rnd gs task, gs))"

definition choose_cpu_best_fit :: "otask \<Rightarrow> string \<Rightarrow> global_scheduler \<Rightarrow> (int \<times> global_scheduler) option" where
  "choose_cpu_best_fit task node_id gs =
     (case (if has_affinity task then stoi (ot_affinity task) else None) of
        None \<Rightarrow> take_front node_id gs
      | Some required_cpu \<Rightarrow>
          let cpus = omap_at [] node_id (gs_available_cpus gs) in
          if required_cpu \<in> set cpus
          then Some (required_cpu, gs\<lparr>gs_available_cpus := omap_put node_id (remove1 required_cpu cpus) (gs_available_cpus gs)\<rparr>)
          else take_front node_id gs)"

definition best_fit_step :: "rounding \<Rightarrow> nat \<Rightarrow> global_scheduler \<Rightarrow> global_scheduler option" where
  "best_fit_step rnd i gs =
     (let task = gs_tasks gs ! i; (best_node, gs1) = choose_node_best_fit rnd gs task in
      if best_node \<noteq> []
      then map_option (\<lambda>(cpu, gs'). assign i best_node cpu gs') (choose_cpu_best_fit task best_node gs1)
      else Some gs1)"

text \<open>
  The order that \<^verbatim>\<open>std::sort\<close> gives to tasks of the same run time is not specified: the sort is an
  argument.
\<close>

definition sorts_by_runtime :: "(otask list \<Rightarrow> otask list) \<Rightarrow> bool" where
  "sorts_by_runtime std_sort \<longleftrightarrow> (\<forall>ts. mset (std_sort ts) = mset ts \<and>
     sorted_wrt (\<lambda>a b. ot_runtime_us a \<ge> ot_runtime_us b) (std_sort ts))"

definition schedule_with_best_fit_decreasing ::
  "rounding \<Rightarrow> (otask list \<Rightarrow> otask list) \<Rightarrow> global_scheduler \<Rightarrow> global_scheduler option" where
  "schedule_with_best_fit_decreasing rnd std_sort gs =
     steps (best_fit_step rnd) [0..<length (gs_tasks gs)] (gs\<lparr>gs_tasks := std_sort (gs_tasks gs)\<rparr>)"

section \<open>The schedules of the nodes\<close>

definition to_sched_task :: "otask \<Rightarrow> sched_task" where
  "to_sched_task task =
     \<lparr>st_task_name = strncpy_field 16 (ot_name task),
      st_period_ns = ot_period_us task * 1000, st_runtime_ns = ot_runtime_us task * 1000,
      st_deadline_ns = ot_deadline_us task * 1000, st_release_time = word_of_int (ot_release_time task),
      st_cpu_affinity = word_of_int (ot_assigned_cpu task), st_sched_policy = word_of_int (ot_policy task),
      st_sched_priority = word_of_int (ot_priority task), st_max_dmiss = word_of_int (ot_max_dmiss task),
      st_assigned_node = strncpy_field 64 (ot_assigned_node task)\<rparr>"

definition task_counts :: "otask list \<Rightarrow> (string, nat) omap" where
  "task_counts tasks =
     fold (\<lambda>t m. omap_put (ot_assigned_node t) (case omap_find m (ot_assigned_node t) of None \<Rightarrow> 1 | Some n \<Rightarrow> n + 1) m)
       (filter (\<lambda>t. ot_assigned_node t \<noteq> []) tasks) []"

text \<open>
  One node: its array has room for \<open>count\<close> tasks. \<open>None\<close> stands for the failed allocation and for a write
  behind the end of the array.
\<close>

definition node_schedule :: "(nat \<Rightarrow> bool) \<Rightarrow> otask list \<Rightarrow> string \<times> nat \<Rightarrow> sched_task list option" where
  "node_schedule malloc_ok tasks entry =
     (let node_id = fst entry; count = snd entry;
          entries = map to_sched_task (filter (\<lambda>t. ot_assigned_node t = node_id) tasks)
      in if \<not> malloc_ok count \<or> length entries > count then None else Some entries)"

primrec node_schedules ::
  "(nat \<Rightarrow> bool) \<Rightarrow> otask list \<Rightarrow> (string \<times> nat) list \<Rightarrow> (string, sched_task list) omap \<Rightarrow> (string, sched_task list) omap option" where
  "node_schedules malloc_ok tasks [] m = Some m"
| "node_schedules malloc_ok tasks (e # es) m =
     (case node_schedule malloc_ok tasks e of
        None \<Rightarrow> None
      | Some s \<Rightarrow> node_schedules malloc_ok tasks es (omap_put (fst e) s m))"

definition generate_schedules :: "(nat \<Rightarrow> bool) \<Rightarrow> global_scheduler \<Rightarrow> global_scheduler option" where
  "generate_schedules malloc_ok gs =
     map_option (\<lambda>m. gs\<lparr>gs_sched_info_map := m\<rparr>)
       (node_schedules malloc_ok (gs_tasks gs) (task_counts (gs_tasks gs)) (gs_sched_info_map gs))"

text \<open>The whole operation: the result of the call and the new state; \<open>None\<close> if its behaviour is undefined.\<close>

definition schedule ::
  "rounding \<Rightarrow> (otask list \<Rightarrow> otask list) \<Rightarrow> (nat \<Rightarrow> bool) \<Rightarrow> string \<Rightarrow> global_scheduler \<Rightarrow> (bool \<times> global_scheduler) option" where
  "schedule rnd std_sort malloc_ok algorithm gs =
     (if gs_tasks gs = [] then Some (False, gs)
      else if (case gs_manager gs of None \<Rightarrow> True | Some m \<Rightarrow> \<not> IsLoaded m) then Some (False, gs)
      else let gs1 = initialize_cpu_utilization_tracking (initialize_available_cpus (cleanup_schedules gs)) in
        if algorithm \<notin> {''target_node_priority'', ''least_loaded'', ''best_fit_decreasing''} then Some (False, gs1)
        else case (if algorithm = ''target_node_priority'' then Some (schedule_with_target_node_priority rnd gs1)
                   else if algorithm = ''least_loaded'' then schedule_with_least_loaded rnd gs1
                   else schedule_with_best_fit_decreasing rnd std_sort gs1) of
               None \<Rightarrow> None
             | Some gs2 \<Rightarrow> map_option (\<lambda>gs3. (has_schedules gs3, gs3)) (generate_schedules malloc_ok gs2))"

section \<open>Contents of the schedules\<close>

abbreviation on_node :: "string \<Rightarrow> otask list \<Rightarrow> otask list" where
  "on_node n ts \<equiv> filter (\<lambda>t. ot_assigned_node t = n) ts"

lemma count_foldl:
  "foldl (\<lambda>v x. if f x = k then Some (case v of None \<Rightarrow> 1 | Some n \<Rightarrow> n + 1) else v) v xs =
     (let c = length (filter (\<lambda>x. f x = k) xs) in if c = 0 then v else Some (c + (case v of None \<Rightarrow> 0 | Some n \<Rightarrow> n)))"
  for v :: "nat option"
  by (induction xs arbitrary: v) (auto simp: Let_def split: option.split)

lemma task_counts_find:
  "omap_find (task_counts ts) n = (if n = [] \<or> on_node n ts = [] then None else Some (length (on_node n ts)))"
proof -
  have "filter (\<lambda>x. ot_assigned_node x \<noteq> [] \<and> ot_assigned_node x = n) ts = (if n = [] then [] else on_node n ts)"
    by (auto intro: filter_cong)
  then show ?thesis
    unfolding task_counts_def
    by (simp add: sm.get_fold_count [where upd = "\<lambda>_ v. case v of None \<Rightarrow> 1 | Some n \<Rightarrow> n + 1"] count_foldl Let_def
        conj_commute)
qed

lemma task_counts_ok: "omap_ok (task_counts ts)"
proof -
  have "omap_ok (fold (\<lambda>t m. omap_put (ot_assigned_node t) (g t m) m) xs m)" if "omap_ok m" for xs g and m :: "(string, nat) omap"
    using that by (induction xs arbitrary: m) (simp_all add: omap_ok_put)
  from this [OF omap_ok_Nil] show ?thesis unfolding task_counts_def .
qed

lemma node_schedules_fold:
  assumes "\<forall>e\<in>set es. node_schedule malloc_ok ts e = Some (map to_sched_task (on_node (fst e) ts))"
  shows "node_schedules malloc_ok ts es m = Some (fold (\<lambda>e. omap_put (fst e) (map to_sched_task (on_node (fst e) ts))) es m)"
  using assms by (induction es arbitrary: m) simp_all

definition schedules_of :: "otask list \<Rightarrow> (string, sched_task list) omap" where
  "schedules_of ts = fold (\<lambda>e. omap_put (fst e) (map to_sched_task (on_node (fst e) ts))) (task_counts ts) []"

lemma generate_schedules_run:
  assumes "\<forall>n. malloc_ok n" and "gs_sched_info_map gs = []"
  shows "generate_schedules malloc_ok gs = Some (gs\<lparr>gs_sched_info_map := schedules_of (gs_tasks gs)\<rparr>)"
proof -
  have "\<forall>e\<in>set (task_counts (gs_tasks gs)). node_schedule malloc_ok (gs_tasks gs) e =
      Some (map to_sched_task (on_node (fst e) (gs_tasks gs)))"
    using assms(1) omap_find_mem [OF task_counts_ok] by (auto simp: task_counts_find node_schedule_def Let_def split: if_splits)
  from node_schedules_fold [OF this] show ?thesis
    by (simp add: generate_schedules_def assms(2) schedules_of_def)
qed

lemma schedules_of_ok: "omap_ok (schedules_of ts)"
  unfolding schedules_of_def by (rule sm.fold_put_ok) simp

lemma schedules_of_find:
  "omap_find (schedules_of ts) n = (if n = [] \<or> on_node n ts = [] then None else Some (map to_sched_task (on_node n ts)))"
proof (cases "omap_find (task_counts ts) n")
  case None
  then have "n \<notin> fst ` set (task_counts ts)" by (simp add: map_of_eq_None_iff)
  with None show ?thesis
    unfolding schedules_of_def by (simp add: sm.get_fold_put_notin task_counts_find split: if_splits)
next
  case (Some k)
  then have "(n, k) \<in> set (task_counts ts)" using omap_find_mem [OF task_counts_ok] by blast
  from sm.get_fold_put [OF omap_ok_Nil omap_distinct [OF task_counts_ok] this, of "\<lambda>e. map to_sched_task (on_node (fst e) ts)"]
  show ?thesis using Some unfolding schedules_of_def by (simp add: task_counts_find split: if_splits)
qed

lemma mset_by_key:
  "distinct ks \<Longrightarrow> mset (concat (map (\<lambda>k. filter (\<lambda>t. f t = k) ts) ks)) = mset (filter (\<lambda>t. f t \<in> set ks) ts)"
proof (induction ks)
  case (Cons k ks)
  then have "filter_mset (\<lambda>t. f t = k \<or> f t \<in> set ks) M = filter_mset (\<lambda>t. f t = k) M + filter_mset (\<lambda>t. f t \<in> set ks) M" for M
    by (induction M) auto
  with Cons show ?case by simp
qed simp

text \<open>Over all nodes, the schedules hold each task that has a node once, and no other.\<close>

lemma schedules_of_mset:
  "mset (concat (map snd (schedules_of ts))) = image_mset to_sched_task (mset (filter (\<lambda>t. ot_assigned_node t \<noteq> []) ts))"
proof -
  let ?m = "schedules_of ts" and ?f = "\<lambda>n. on_node n ts"
  have at: "snd e = map to_sched_task (?f (fst e))" "fst e \<noteq> []" if "e \<in> set ?m" for e
    using that omap_find_mem [OF schedules_of_ok, of "fst e" "snd e" ts] by (auto simp: schedules_of_find split: if_splits)
  have keys: "ot_assigned_node t \<in> fst ` set ?m" if "t \<in> set ts" "ot_assigned_node t \<noteq> []" for t
  proof -
    have "on_node (ot_assigned_node t) ts \<noteq> []" using that(1) by (auto simp: filter_empty_conv)
    with that(2) schedules_of_find [of ts "ot_assigned_node t"] show ?thesis
      using map_of_eq_None_iff [of ?m "ot_assigned_node t"] by auto
  qed
  have "filter (\<lambda>t. ot_assigned_node t \<in> set (map fst ?m)) ts = filter (\<lambda>t. ot_assigned_node t \<noteq> []) ts"
    using keys at(2) by (intro filter_cong refl) (metis imageE list.set_map)
  moreover have "concat (map snd ?m) = map to_sched_task (concat (map ?f (map fst ?m)))"
    using at(1) by (simp add: map_concat comp_def cong: map_cong)
  ultimately show ?thesis
    using mset_by_key [of "map fst ?m" ot_assigned_node ts] omap_distinct [OF schedules_of_ok, of ts] by simp
qed

lemma schedules_of_total: "sum_list (map (\<lambda>e. length (snd e)) (schedules_of ts)) = length (filter (\<lambda>t. ot_assigned_node t \<noteq> []) ts)"
  using arg_cong [OF schedules_of_mset, of size ts] by (simp add: length_concat comp_def del: mset_concat mset_filter)

section \<open>Tracking of the utilisation\<close>

definition util_ok :: "(string, (int, double) omap) omap \<Rightarrow> bool" where
  "util_ok u \<longleftrightarrow> omap_ok u \<and> (\<forall>n m. omap_find u n = Some m \<longrightarrow> omap_ok m)"

lemma util_ok_set: "util_ok u \<Longrightarrow> util_ok (set_cpu_utilization n c v u)"
  by (auto simp: util_ok_def set_cpu_utilization_def omap_ok_put omap_at_def sm.get_put split: option.split if_splits)

lemma cpu_utilization_set:
  assumes "util_ok (gs_cpu_utilization gs)"
  shows "calculate_cpu_utilization (gs\<lparr>gs_cpu_utilization := set_cpu_utilization n c v (gs_cpu_utilization gs)\<rparr>) n' c' =
    (if n' = n \<and> c' = c then v else calculate_cpu_utilization gs n' c')"
  using assms
  by (auto simp: util_ok_def calculate_cpu_utilization_def set_cpu_utilization_def omap_at_def sm.get_put split: option.split)

text \<open>The tracking starts from zero everywhere.\<close>

lemma tracking_initial:
  "util_ok (gs_cpu_utilization (initialize_cpu_utilization_tracking gs)) \<and>
   calculate_cpu_utilization (initialize_cpu_utilization_tracking gs) n c = 0"
proof -
  define z :: "(string, (int, double) omap) omap \<Rightarrow> bool" where
    "z u \<longleftrightarrow> util_ok u \<and> (\<forall>n m c v. omap_find u n = Some m \<longrightarrow> omap_find m c = Some v \<longrightarrow> v = 0)" for u
  have one: "z (set_cpu_utilization n c 0 u)" if "z u" for n c u
    using that util_ok_set [of u n c 0]
    by (auto simp: z_def util_ok_def set_cpu_utilization_def omap_at_def sm.get_put split: option.splits if_splits)
  have cpus: "z u \<Longrightarrow> z (fold (\<lambda>cpu. set_cpu_utilization n cpu 0) cs u)" for n cs u
    by (induction cs arbitrary: u) (simp_all add: one)
  have "z u \<Longrightarrow> z (fold (\<lambda>(n, cs). fold (\<lambda>cpu. set_cpu_utilization n cpu 0) cs) as u)" for as u
    by (induction as arbitrary: u) (simp_all add: cpus case_prod_beta)
  from this [of "[]" "gs_available_cpus gs"] show ?thesis
    by (auto simp: z_def initialize_cpu_utilization_tracking_def calculate_cpu_utilization_def util_ok_def split: option.split)
qed

text \<open>The utilisation of a CPU by the tasks of a list, added up in their order.\<close>

definition load :: "rounding \<Rightarrow> otask list \<Rightarrow> string \<Rightarrow> int \<Rightarrow> double" where
  "load rnd ts n c = foldl (double_add rnd) 0
     (map (task_utilization rnd) (filter (\<lambda>t. ot_assigned_node t = n \<and> ot_assigned_cpu t = c) ts))"

lemma load_Nil [simp]: "load rnd [] n c = 0"
  by (simp add: load_def)

lemma load_snoc:
  "load rnd (ts @ [t]) n c =
    (if ot_assigned_node t = n \<and> ot_assigned_cpu t = c then double_add rnd (load rnd ts n c) (task_utilization rnd t)
     else load rnd ts n c)"
  by (simp add: load_def)

lemma find_best_cpu_sound:
  assumes "find_best_cpu_for_task rnd gs task n = c" and "c \<noteq> -1"
  shows "c \<in> set (omap_at [] n (gs_available_cpus gs)) \<and> fits_on rnd gs task n c"
proof -
  have "x \<in> set xs \<and> P x" if "find P xs = Some x" for P :: "int \<Rightarrow> bool" and xs x
    using that by (auto simp: find_Some_iff)
  from this [of "fits_on rnd gs task n" "rev (sort (omap_at [] n (gs_available_cpus gs)))"] show ?thesis
    using assms by (auto simp: find_best_cpu_for_task_def Let_def split: if_splits option.splits)
qed

lemma find_best_cpu_complete:
  assumes "find_best_cpu_for_task rnd gs task n = -1" and "c \<in> set (omap_at [] n (gs_available_cpus gs))"
    and "\<forall>c\<in>set (omap_at [] n (gs_available_cpus gs)). 0 \<le> c"
  shows "\<not> fits_on rnd gs task n c"
proof -
  let ?cpus = "omap_at [] n (gs_available_cpus gs)"
  have "find (fits_on rnd gs task n) (rev (sort ?cpus)) = None"
  proof (rule ccontr)
    assume "find (fits_on rnd gs task n) (rev (sort ?cpus)) \<noteq> None"
    then obtain d where d: "find (fits_on rnd gs task n) (rev (sort ?cpus)) = Some d" by auto
    then have "d \<in> set ?cpus" by (metis find_Some_iff nth_mem set_rev set_sort)
    with assms(3) have "d \<noteq> -1" by auto
    with assms(1,2,3) d show False
      by (auto simp: find_best_cpu_for_task_def Let_def split: if_splits option.splits)
  qed
  with assms(2) show ?thesis by (auto simp: find_None_iff)
qed

section \<open>Specification of the placement\<close>

text \<open>
  The specification decides for each task in turn, given the tasks decided before it: a task with a
  workload and a known target node that has CPUs goes to that node; it gets the CPU its affinity
  names if that one has room, and otherwise the highest CPU with room. Room is what the threshold
  leaves of the utilisation by the earlier tasks.
\<close>

definition eligible :: "(string, int list) omap \<Rightarrow> otask \<Rightarrow> bool" where
  "eligible avail t \<longleftrightarrow> ot_workload_id t \<noteq> [] \<and> ot_target_node t \<noteq> [] \<and> omap_at [] (ot_target_node t) avail \<noteq> []"

definition has_room :: "rounding \<Rightarrow> (string, int list) omap \<Rightarrow> otask list \<Rightarrow> otask \<Rightarrow> int set" where
  "has_room rnd avail before t = {c \<in> set (omap_at [] (ot_target_node t) avail).
     double_add rnd (load rnd before (ot_target_node t) c) (task_utilization rnd t) \<le> CPU_UTILIZATION_THRESHOLD rnd}"

definition spec_cpu :: "rounding \<Rightarrow> (string, int list) omap \<Rightarrow> otask list \<Rightarrow> otask \<Rightarrow> int option" where
  "spec_cpu rnd avail before t =
     (let room = has_room rnd avail before t in
      case (if has_affinity t then stoi (ot_affinity t) else None) of
        Some r \<Rightarrow> if r \<in> room then Some r else if room = {} then None else Some (Max room)
      | None \<Rightarrow> if room = {} then None else Some (Max room))"

definition spec_place :: "rounding \<Rightarrow> (string, int list) omap \<Rightarrow> otask list \<Rightarrow> otask \<Rightarrow> otask" where
  "spec_place rnd avail before t =
     (if \<not> eligible avail t then t
      else case spec_cpu rnd avail before t of
             None \<Rightarrow> t\<lparr>ot_assigned_node := ot_target_node t\<rparr>
           | Some c \<Rightarrow> t\<lparr>ot_assigned_node := ot_target_node t, ot_assigned_cpu := c\<rparr>)"

definition spec_tasks :: "rounding \<Rightarrow> (string, int list) omap \<Rightarrow> otask list \<Rightarrow> otask list" where
  "spec_tasks rnd avail ts = foldl (\<lambda>before t. before @ [spec_place rnd avail before t]) [] ts"

lemma spec_tasks_snoc: "spec_tasks rnd avail (ts @ [t]) = spec_tasks rnd avail ts @ [spec_place rnd avail (spec_tasks rnd avail ts) t]"
  by (simp add: spec_tasks_def)

lemma length_spec_tasks [simp]: "length (spec_tasks rnd avail ts) = length ts"
  by (induction ts rule: rev_induct) (simp_all add: spec_tasks_snoc, simp add: spec_tasks_def)

lemma find_descending:
  "sorted_wrt (\<ge>) ys \<Longrightarrow> find P ys = (if {y \<in> set ys. P y} = {} then None else Some (Max {y \<in> set ys. P y}))"
  for ys :: "int list"
proof (induction ys)
  case (Cons y ys)
  show ?case
  proof (cases "P y")
    case True
    then have "Max {z \<in> set (y # ys). P z} = y" using Cons.prems by (intro Max_eqI) auto
    then show ?thesis using True by auto
  next
    case False
    then have "{z \<in> set (y # ys). P z} = {z \<in> set ys. P z}" by auto
    then show ?thesis using Cons False by simp
  qed
qed simp

lemma find_rev_sort:
  "find P (rev (sort xs)) = (if {x \<in> set xs. P x} = {} then None else Some (Max {x \<in> set xs. P x}))" for xs :: "int list"
proof -
  have "sorted_wrt (\<ge>) (rev (sort xs))" by (simp add: sorted_wrt_rev)
  then show ?thesis by (simp add: find_descending)
qed

text \<open>The search of the code is the choice of the specification, when the tracked utilisation is that of the tasks.\<close>

definition cpus_nonneg :: "(string, int list) omap \<Rightarrow> bool" where
  "cpus_nonneg avail \<longleftrightarrow> (\<forall>n cpus. omap_find avail n = Some cpus \<longrightarrow> (\<forall>c\<in>set cpus. 0 \<le> c))"

lemma cpus_nonnegD: "cpus_nonneg avail \<Longrightarrow> c \<in> set (omap_at [] n avail) \<Longrightarrow> 0 \<le> c"
  by (cases "omap_find avail n") (auto simp: cpus_nonneg_def omap_at_def)

lemma find_best_cpu_spec:
  assumes nn: "cpus_nonneg (gs_available_cpus gs)"
    and tracked: "\<forall>n c. 0 \<le> c \<longrightarrow> calculate_cpu_utilization gs n c = load rnd before n c"
    and "eligible (gs_available_cpus gs) t"
  shows "find_best_cpu_for_task rnd gs t (ot_target_node t) =
    (case spec_cpu rnd (gs_available_cpus gs) before t of None \<Rightarrow> -1 | Some c \<Rightarrow> c)"
proof -
  let ?cpus = "omap_at [] (ot_target_node t) (gs_available_cpus gs)"
  have room: "{c \<in> set ?cpus. fits_on rnd gs t (ot_target_node t) c} = has_room rnd (gs_available_cpus gs) before t"
    using tracked cpus_nonnegD [OF nn] by (auto simp: has_room_def fits_on_def)
  have mem: "r \<in> set ?cpus \<and> fits_on rnd gs t (ot_target_node t) r \<longleftrightarrow> r \<in> has_room rnd (gs_available_cpus gs) before t" for r
    unfolding room [symmetric] by simp
  show ?thesis
    using assms(3) unfolding find_best_cpu_for_task_def find_rev_sort room spec_cpu_def mem Let_def
    by (auto simp: eligible_def split: option.split)
qed

lemma find_best_cpu_cong:
  assumes "gs_available_cpus gs' = gs_available_cpus gs" and "gs_cpu_utilization gs' = gs_cpu_utilization gs"
    and "ot_affinity t' = ot_affinity t" and "ot_period_us t' = ot_period_us t" and "ot_runtime_us t' = ot_runtime_us t"
  shows "find_best_cpu_for_task rnd gs' t' n = find_best_cpu_for_task rnd gs t n"
proof -
  have f: "fits_on rnd gs' t' n = fits_on rnd gs t n"
    by (simp add: fits_on_def calculate_cpu_utilization_def task_utilization_def fun_eq_iff assms)
  show ?thesis unfolding find_best_cpu_for_task_def has_affinity_def f assms ..
qed

lemma find_best_cpu_tasks [simp]:
  "find_best_cpu_for_task rnd (gs\<lparr>gs_tasks := ts\<rparr>) t n = find_best_cpu_for_task rnd gs t n"
  by (rule find_best_cpu_cong) simp_all

subsection \<open>The loop implements the specification\<close>

definition fresh :: "otask list \<Rightarrow> bool" where
  "fresh ts \<longleftrightarrow> (\<forall>t\<in>set ts. ot_assigned_node t = [] \<and> ot_assigned_cpu t = -1)"

text \<open>After \<open>k\<close> rounds: the first \<open>k\<close> tasks are decided, and their utilisation is tracked.\<close>

definition tracks_load :: "rounding \<Rightarrow> global_scheduler \<Rightarrow> otask list \<Rightarrow> bool" where
  "tracks_load rnd gs ts \<longleftrightarrow> util_ok (gs_cpu_utilization gs) \<and>
     (\<forall>n c. 0 \<le> c \<longrightarrow> calculate_cpu_utilization gs n c = load rnd ts n c)"

lemma tracks_load_tasks [simp]: "tracks_load rnd (gs\<lparr>gs_tasks := x\<rparr>) ts = tracks_load rnd gs ts"
  by (simp add: tracks_load_def calculate_cpu_utilization_def)

lemma target_node_step_eligible:
  assumes "eligible (gs_available_cpus gs) t" and "gs_tasks gs = before @ t # rest"
  defines "t1 \<equiv> t\<lparr>ot_assigned_node := ot_target_node t\<rparr>"
  shows "target_node_step rnd (length before) gs =
     (let gs1 = gs\<lparr>gs_tasks := before @ t1 # rest\<rparr>; best_cpu = find_best_cpu_for_task rnd gs t1 (ot_target_node t)
      in if best_cpu \<noteq> -1
         then let (ok, task2, gs2) = assign_task_to_node_cpu rnd gs1 t1 (ot_target_node t) best_cpu
              in gs2\<lparr>gs_tasks := (gs_tasks gs2)[length before := task2]\<rparr>
         else gs1)"
proof -
  have "gs_tasks gs ! length before = t" "(gs_tasks gs)[length before := x] = before @ x # rest" for x
    by (simp_all add: assms(2))
  then show ?thesis
    using assms(1) unfolding target_node_step_def t1_def by (auto simp: eligible_def omap_at_def Let_def split: option.splits)
qed

text \<open>The placement on a CPU that has room: the task gets it, and the load of the CPU grows by its utilisation.\<close>

lemma assign_with_room:
  assumes "tracks_load rnd gs before" and "c \<in> has_room rnd (gs_available_cpus gs) before t" and "0 \<le> c"
  defines "n \<equiv> ot_target_node t"
  defines "t1 \<equiv> t\<lparr>ot_assigned_node := n\<rparr>"
  defines "u \<equiv> set_cpu_utilization n c (double_add rnd (load rnd before n c) (task_utilization rnd t)) (gs_cpu_utilization gs)"
  shows "assign_task_to_node_cpu rnd (gs\<lparr>gs_tasks := x\<rparr>) t1 n c =
      (True, t1\<lparr>ot_assigned_cpu := c\<rparr>, gs\<lparr>gs_tasks := x, gs_cpu_utilization := u\<rparr>) \<and>
    tracks_load rnd (gs\<lparr>gs_cpu_utilization := u\<rparr>) (before @ [t1\<lparr>ot_assigned_cpu := c\<rparr>])"
proof
  have "calculate_cpu_utilization (gs\<lparr>gs_tasks := x\<rparr>) n c = load rnd before n c"
    using assms(1,3) by (simp add: tracks_load_def calculate_cpu_utilization_def)
  then show "assign_task_to_node_cpu rnd (gs\<lparr>gs_tasks := x\<rparr>) t1 n c =
      (True, t1\<lparr>ot_assigned_cpu := c\<rparr>, gs\<lparr>gs_tasks := x, gs_cpu_utilization := u\<rparr>)"
    using assms(2,3) by (simp add: assign_task_to_node_cpu_def Let_def has_room_def n_def t1_def u_def not_less [symmetric] del: not_less)
  show "tracks_load rnd (gs\<lparr>gs_cpu_utilization := u\<rparr>) (before @ [t1\<lparr>ot_assigned_cpu := c\<rparr>])"
    using assms(1) by (auto simp: tracks_load_def cpu_utilization_set util_ok_set load_snoc u_def t1_def)
qed

lemma spec_cpu_room: "spec_cpu rnd avail before t = Some c \<Longrightarrow> c \<in> has_room rnd avail before t"
  using Max_in [of "has_room rnd avail before t"]
  by (auto simp: spec_cpu_def Let_def has_room_def split: option.splits if_splits)

lemma target_node_step_spec:
  assumes "cpus_nonneg (gs_available_cpus gs)" and "tracks_load rnd gs before" and "gs_tasks gs = before @ t # rest"
    and "ot_assigned_cpu t = -1"
  shows "\<exists>u. target_node_step rnd (length before) gs =
      gs\<lparr>gs_tasks := before @ spec_place rnd (gs_available_cpus gs) before t # rest, gs_cpu_utilization := u\<rparr> \<and>
    tracks_load rnd (gs\<lparr>gs_cpu_utilization := u\<rparr>) (before @ [spec_place rnd (gs_available_cpus gs) before t])"
proof (cases "eligible (gs_available_cpus gs) t")
  case False
  have "target_node_step rnd (length before) gs = gs"
    using False assms(3) by (auto simp: target_node_step_def eligible_def omap_at_def Let_def split: option.split)
  moreover have "tracks_load rnd gs (before @ [t])"
    using assms(2,4) by (auto simp: tracks_load_def load_snoc)
  ultimately show ?thesis
    using False assms(3) by (intro exI [of _ "gs_cpu_utilization gs"]) (simp add: spec_place_def)
next
  case True
  let ?n = "ot_target_node t" and ?avail = "gs_available_cpus gs"
  let ?t1 = "t\<lparr>ot_assigned_node := ?n\<rparr>"
  have best: "find_best_cpu_for_task rnd gs ?t1 ?n = (case spec_cpu rnd ?avail before t of None \<Rightarrow> -1 | Some c \<Rightarrow> c)"
    using find_best_cpu_spec [OF assms(1) _ True, of rnd before] assms(2) find_best_cpu_cong [of gs gs ?t1 t rnd ?n]
    by (simp add: tracks_load_def)
  note step = target_node_step_eligible [OF True assms(3)]
  show ?thesis
  proof (cases "spec_cpu rnd ?avail before t")
    case None
    have "tracks_load rnd gs (before @ [?t1])"
      using assms(2,4) by (auto simp: tracks_load_def load_snoc)
    with None True show ?thesis
      unfolding step best by (intro exI [of _ "gs_cpu_utilization gs"]) (simp add: spec_place_def)
  next
    case (Some c)
    have room: "c \<in> has_room rnd ?avail before t" by (rule spec_cpu_room [OF Some])
    then have "0 \<le> c" using cpus_nonnegD [OF assms(1)] by (auto simp: has_room_def)
    with assign_with_room [OF assms(2) room] True Some show ?thesis
      unfolding step best
      by (intro exI [of _ "set_cpu_utilization ?n c (double_add rnd (load rnd before ?n c) (task_utilization rnd t)) (gs_cpu_utilization gs)"])
        (simp add: spec_place_def Let_def)
  qed
qed

lemma target_node_loop:
  assumes "cpus_nonneg (gs_available_cpus gs)" and "tracks_load rnd gs []" and "\<forall>t\<in>set (gs_tasks gs). ot_assigned_cpu t = -1"
    and "k \<le> length (gs_tasks gs)"
  shows "\<exists>u. fold (target_node_step rnd) [0..<k] gs =
      gs\<lparr>gs_tasks := spec_tasks rnd (gs_available_cpus gs) (take k (gs_tasks gs)) @ drop k (gs_tasks gs), gs_cpu_utilization := u\<rparr> \<and>
    tracks_load rnd (gs\<lparr>gs_cpu_utilization := u\<rparr>) (spec_tasks rnd (gs_available_cpus gs) (take k (gs_tasks gs)))"
  using assms(4)
proof (induction k)
  case 0
  show ?case using assms(2) by (intro exI [of _ "gs_cpu_utilization gs"]) (simp add: spec_tasks_def)
next
  case (Suc k)
  let ?avail = "gs_available_cpus gs" and ?ts = "gs_tasks gs"
  let ?before = "spec_tasks rnd ?avail (take k ?ts)"
  from Suc obtain u where u: "fold (target_node_step rnd) [0..<k] gs = gs\<lparr>gs_tasks := ?before @ drop k ?ts, gs_cpu_utilization := u\<rparr>"
    "tracks_load rnd (gs\<lparr>gs_cpu_utilization := u\<rparr>) ?before" by auto
  let ?g = "gs\<lparr>gs_tasks := ?before @ drop k ?ts, gs_cpu_utilization := u\<rparr>"
  have k: "k < length ?ts" using Suc.prems by simp
  have len: "length ?before = k" using k by simp
  have tr: "tracks_load rnd ?g ?before" using u(2) by (simp add: tracks_load_def calculate_cpu_utilization_def)
  have dk: "gs_tasks ?g = ?before @ ?ts ! k # drop (Suc k) ?ts" using k by (simp add: Cons_nth_drop_Suc)
  have cpu: "ot_assigned_cpu (?ts ! k) = -1" using assms(3) k by simp
  have nn: "cpus_nonneg (gs_available_cpus ?g)" using assms(1) by simp
  from target_node_step_spec [OF nn tr dk cpu] obtain u' where
    "target_node_step rnd k ?g = ?g\<lparr>gs_tasks := ?before @ spec_place rnd ?avail ?before (?ts ! k) # drop (Suc k) ?ts, gs_cpu_utilization := u'\<rparr>"
    "tracks_load rnd (?g\<lparr>gs_cpu_utilization := u'\<rparr>) (?before @ [spec_place rnd ?avail ?before (?ts ! k)])"
    unfolding len by auto
  then show ?case
    using k by (intro exI [of _ u'])
      (simp add: u(1) take_Suc_conv_app_nth spec_tasks_snoc tracks_load_def calculate_cpu_utilization_def)
qed

text \<open>The specification keeps the threshold on every CPU.\<close>

lemma spec_place_fields:
  "spec_place rnd avail before t = t\<lparr>ot_assigned_node := ot_assigned_node (spec_place rnd avail before t),
     ot_assigned_cpu := ot_assigned_cpu (spec_place rnd avail before t)\<rparr>"
  by (simp add: spec_place_def split: option.split)

lemma spec_load_bound:
  assumes "cpus_nonneg avail" and "fresh ts" and "0 \<le> c"
  shows "(\<exists>t\<in>set (spec_tasks rnd avail ts). ot_assigned_node t = n \<and> ot_assigned_cpu t = c) \<longrightarrow>
    load rnd (spec_tasks rnd avail ts) n c \<le> CPU_UTILIZATION_THRESHOLD rnd"
  using assms(2)
proof (induction ts rule: rev_induct)
  case (snoc t ts)
  let ?b = "spec_tasks rnd avail ts"
  have cpu: "ot_assigned_cpu t = -1" using snoc.prems by (simp add: fresh_def)
  have IH: "(\<exists>t\<in>set ?b. ot_assigned_node t = n \<and> ot_assigned_cpu t = c) \<longrightarrow> load rnd ?b n c \<le> CPU_UTILIZATION_THRESHOLD rnd"
    using snoc by (simp add: fresh_def)
  show ?case
  proof (cases "ot_assigned_node (spec_place rnd avail ?b t) = n \<and> ot_assigned_cpu (spec_place rnd avail ?b t) = c")
    case True
    with cpu assms(3) have "eligible avail t" "spec_cpu rnd avail ?b t = Some c" "n = ot_target_node t"
      by (auto simp: spec_place_def split: if_splits option.splits)
    with spec_cpu_room [of rnd avail ?b t c] True show ?thesis
      by (simp add: spec_tasks_snoc load_snoc has_room_def) (subst spec_place_fields, simp)
  qed (use IH in \<open>auto simp: spec_tasks_snoc load_snoc\<close>)
qed (simp add: spec_tasks_def)

lemma spec_tasks_placed:
  assumes "fresh ts" and "cpus_nonneg avail" and "t \<in> set (spec_tasks rnd avail ts)"
  shows "(ot_assigned_node t = [] \<or> ot_assigned_node t = ot_target_node t) \<and>
    (ot_assigned_cpu t = -1 \<or> ot_assigned_cpu t \<in> set (omap_at [] (ot_target_node t) avail) \<and> ot_assigned_node t = ot_target_node t)"
  using assms
proof (induction ts rule: rev_induct)
  case (snoc u ts)
  show ?case
  proof (cases "t \<in> set (spec_tasks rnd avail ts)")
    case False
    then have t: "t = spec_place rnd avail (spec_tasks rnd avail ts) u" using snoc.prems(3) by (simp add: spec_tasks_snoc)
    have "ot_assigned_node u = []" "ot_assigned_cpu u = -1" using snoc.prems(1) by (simp_all add: fresh_def)
    then show ?thesis
      unfolding t using spec_cpu_room [of rnd avail "spec_tasks rnd avail ts" u]
      by (auto simp: spec_place_def has_room_def split: option.split)
  qed (use snoc in \<open>simp add: fresh_def\<close>)
qed (simp add: spec_tasks_def)

section \<open>Accounting for exclusive CPUs\<close>

abbreviation cpus_of :: "string \<Rightarrow> global_scheduler \<Rightarrow> int list" where
  "cpus_of n gs \<equiv> omap_at [] n (gs_available_cpus gs)"

text \<open>The CPUs that are given away and those still free make up what a node had at the start.\<close>

definition accounted :: "global_scheduler \<Rightarrow> global_scheduler \<Rightarrow> bool" where
  "accounted gs0 gs \<longleftrightarrow> omap_ok (gs_available_cpus gs) \<and> gs_sched_info_map gs = gs_sched_info_map gs0 \<and>
     length (gs_tasks gs) = length (gs_tasks gs0) \<and>
     (\<forall>n. n \<noteq> [] \<longrightarrow> mset (map ot_assigned_cpu (on_node n (gs_tasks gs))) + mset (cpus_of n gs) = mset (cpus_of n gs0))"

definition unassigned_from :: "nat \<Rightarrow> global_scheduler \<Rightarrow> bool" where
  "unassigned_from i gs \<longleftrightarrow> (\<forall>j. i \<le> j \<longrightarrow> j < length (gs_tasks gs) \<longrightarrow> ot_assigned_node (gs_tasks gs ! j) = [])"

lemma omap_at_put: "omap_ok m \<Longrightarrow> omap_at d n (omap_put k v m) = (if n = k then v else omap_at d n m)"
  by (simp add: omap_at_def sm.get_put)

lemma on_node_update:
  assumes "i < length ts" and "ot_assigned_node (ts ! i) = []" and "n \<noteq> []"
  shows "mset (map ot_assigned_cpu (on_node n (ts[i := t]))) =
    (if ot_assigned_node t = n then {#ot_assigned_cpu t#} else {#}) + mset (map ot_assigned_cpu (on_node n ts))"
  using assms
proof (induction ts arbitrary: i)
  case (Cons u us)
  then show ?case by (cases i) auto
qed simp

text \<open>Taking one CPU from the node and giving it to a task keeps the account.\<close>

definition takes :: "string \<Rightarrow> global_scheduler \<Rightarrow> int \<times> global_scheduler \<Rightarrow> bool" where
  "takes n gs r \<longleftrightarrow> (case r of (cpu, gs') \<Rightarrow> \<exists>av. gs' = gs\<lparr>gs_available_cpus := av\<rparr> \<and> omap_ok av \<and>
     mset (cpus_of n gs) = add_mset cpu (mset (omap_at [] n av)) \<and> (\<forall>n'. n' \<noteq> n \<longrightarrow> omap_at [] n' av = cpus_of n' gs))"

lemma take_front_takes:
  assumes "omap_ok (gs_available_cpus gs)" and "cpus_of n gs \<noteq> []"
  shows "\<exists>r. take_front n gs = Some r \<and> takes n gs r"
  using assms by (cases "cpus_of n gs") (auto simp: take_front_def takes_def omap_ok_put omap_at_put)

lemma choose_cpu_takes:
  assumes "omap_ok (gs_available_cpus gs)" and "cpus_of n gs \<noteq> []"
  shows "\<exists>r. choose_cpu_best_fit t n gs = Some r \<and> takes n gs r"
proof (cases "if has_affinity t then stoi (ot_affinity t) else None")
  case (Some c)
  show ?thesis
  proof (cases "c \<in> set (cpus_of n gs)")
    case True
    then have "mset (cpus_of n gs) = add_mset c (mset (remove1 c (cpus_of n gs)))" by simp
    with True Some assms(1) show ?thesis
      by (auto simp: choose_cpu_best_fit_def takes_def omap_ok_put omap_at_put Let_def)
  qed (use Some take_front_takes [OF assms] in \<open>auto simp: choose_cpu_best_fit_def Let_def\<close>)
qed (use take_front_takes [OF assms] in \<open>auto simp: choose_cpu_best_fit_def\<close>)

lemma assign_accounted:
  assumes "accounted gs0 gs" and "takes n gs (cpu, gs')" and "unassigned_from i gs" and "i < length (gs_tasks gs)" and "n \<noteq> []"
  shows "accounted gs0 (assign i n cpu gs') \<and> unassigned_from (Suc i) (assign i n cpu gs')"
proof -
  from assms(2) obtain av where av: "gs' = gs\<lparr>gs_available_cpus := av\<rparr>" "omap_ok av"
    "mset (cpus_of n gs) = add_mset cpu (mset (omap_at [] n av))" "\<forall>n'. n' \<noteq> n \<longrightarrow> omap_at [] n' av = cpus_of n' gs"
    by (auto simp: takes_def)
  have free: "ot_assigned_node (gs_tasks gs ! i) = []" using assms(3,4) by (simp add: unassigned_from_def)
  have "mset (map ot_assigned_cpu (on_node m (gs_tasks (assign i n cpu gs')))) + mset (omap_at [] m av) = mset (cpus_of m gs0)"
    if "m \<noteq> []" for m
    using assms(1) that av(3,4) on_node_update [OF assms(4) free that]
    by (cases "m = n") (auto simp: accounted_def assign_def av(1) union_assoc [symmetric])
  then show ?thesis
    using assms(1,3) av(1,2) by (auto simp: accounted_def unassigned_from_def assign_def nth_list_update)
qed

text \<open>The node that is chosen has a free CPU.\<close>

lemma foldl_choice:
  assumes "\<forall>best v e. fst (f (best, v) e) = best \<or> (fst (f (best, v) e) = fst e \<and> snd e \<noteq> [])"
  shows "fst (foldl f (b, v) es) = b \<or> (\<exists>e\<in>set es. fst (foldl f (b, v) es) = fst e \<and> snd e \<noteq> [])"
proof (induction es arbitrary: b v)
  case (Cons e es)
  obtain b' v' where f: "f (b, v) e = (b', v')" by fastforce
  with assms have "b' = b \<or> (b' = fst e \<and> snd e \<noteq> [])" by (metis fst_conv)
  with Cons.IH [of b' v'] f show ?case by auto
qed simp

lemma choice_free:
  assumes "omap_ok (gs_available_cpus gs)" and "n = [] \<or> (\<exists>e\<in>set (gs_available_cpus gs). n = fst e \<and> snd e \<noteq> [])" and "n \<noteq> []"
  shows "cpus_of n gs \<noteq> []"
  using assms omap_find_mem [OF assms(1)] by (fastforce simp: omap_at_def)

lemma least_loaded_free:
  assumes "omap_ok (gs_available_cpus gs)" and "find_best_node_least_loaded rnd gs t \<noteq> []"
  shows "cpus_of (find_best_node_least_loaded rnd gs t) gs \<noteq> []"
  by (rule choice_free [OF assms(1) _ assms(2)])
    (unfold find_best_node_least_loaded_def, rule foldl_choice, auto simp: Let_def)

lemma best_fit_free:
  assumes "omap_ok (gs_available_cpus gs)" and "find_best_node_best_fit_decreasing rnd gs t \<noteq> []"
  shows "cpus_of (find_best_node_best_fit_decreasing rnd gs t) gs \<noteq> []"
  by (rule choice_free [OF assms(1) _ assms(2)])
    (unfold find_best_node_best_fit_decreasing_def, rule foldl_choice, auto simp: Let_def)

lemma touch_node_at: "omap_ok (gs_available_cpus gs) \<Longrightarrow> cpus_of n (touch_node m gs) = cpus_of n gs"
  by (simp add: touch_node_def omap_at_put)

lemma touch_accounted:
  "accounted gs0 gs \<Longrightarrow> accounted gs0 (touch_node m gs)" "unassigned_from i (touch_node m gs) = unassigned_from i gs"
  "gs_tasks (touch_node m gs) = gs_tasks gs"
  using touch_node_at [of gs] by (auto simp: accounted_def unassigned_from_def touch_node_def omap_ok_put)

definition step_ok :: "(nat \<Rightarrow> global_scheduler \<Rightarrow> global_scheduler option) \<Rightarrow> bool" where
  "step_ok f \<longleftrightarrow> (\<forall>gs0 gs i. accounted gs0 gs \<longrightarrow> unassigned_from i gs \<longrightarrow> i < length (gs_tasks gs) \<longrightarrow>
     (\<exists>gs'. f i gs = Some gs' \<and> accounted gs0 gs' \<and> unassigned_from (Suc i) gs'))"

lemma unassigned_Suc: "unassigned_from i gs \<Longrightarrow> unassigned_from (Suc i) gs"
  by (simp add: unassigned_from_def)

lemma least_loaded_step_ok: "step_ok (least_loaded_step rnd)"
  unfolding step_ok_def
proof (intro allI impI)
  fix gs0 gs i assume a: "accounted gs0 gs" and u: "unassigned_from i gs" and i: "i < length (gs_tasks gs)"
  let ?n = "find_best_node_least_loaded rnd gs (gs_tasks gs ! i)"
  have ok: "omap_ok (gs_available_cpus gs)" using a by (simp add: accounted_def)
  show "\<exists>gs'. least_loaded_step rnd i gs = Some gs' \<and> accounted gs0 gs' \<and> unassigned_from (Suc i) gs'"
  proof (cases "?n = []")
    case False
    with take_front_takes [OF ok least_loaded_free [OF ok False]] obtain cpu gs' where
      t: "take_front ?n gs = Some (cpu, gs')" "takes ?n gs (cpu, gs')" by auto
    with assign_accounted [OF a t(2) u i False] False show ?thesis by (simp add: least_loaded_step_def Let_def)
  qed (use a u in \<open>simp add: least_loaded_step_def unassigned_Suc\<close>)
qed

lemma best_fit_step_ok: "step_ok (best_fit_step rnd)"
  unfolding step_ok_def
proof (intro allI impI)
  fix gs0 gs i assume a: "accounted gs0 gs" and u: "unassigned_from i gs" and i: "i < length (gs_tasks gs)"
  let ?t = "gs_tasks gs ! i"
  obtain n gs1 where c: "choose_node_best_fit rnd gs ?t = (n, gs1)" by fastforce
  have ok: "omap_ok (gs_available_cpus gs)" using a by (simp add: accounted_def)
  have gs1: "gs1 = gs \<or> gs1 = touch_node (ot_target_node ?t) gs"
    using c by (auto simp: choose_node_best_fit_def Let_def split: if_splits)
  then have a1: "accounted gs0 gs1" and u1: "unassigned_from i gs1" and i1: "i < length (gs_tasks gs1)"
    using a u i touch_accounted by auto
  have ok1: "omap_ok (gs_available_cpus gs1)" using a1 by (simp add: accounted_def)
  show "\<exists>gs'. best_fit_step rnd i gs = Some gs' \<and> accounted gs0 gs' \<and> unassigned_from (Suc i) gs'"
  proof (cases "n = []")
    case False
    have "cpus_of n gs1 \<noteq> []"
      using c False best_fit_free [OF ok] by (auto simp: choose_node_best_fit_def Let_def split: if_splits)
    with choose_cpu_takes [OF ok1] obtain cpu gs' where
      t: "choose_cpu_best_fit ?t n gs1 = Some (cpu, gs')" "takes n gs1 (cpu, gs')" by fastforce
    with assign_accounted [OF a1 t(2) u1 i1 False] c False show ?thesis by (simp add: best_fit_step_def Let_def)
  qed (use c a1 u1 in \<open>simp add: best_fit_step_def unassigned_Suc\<close>)
qed

lemma steps_accounted:
  assumes "step_ok f" and "accounted gs0 gs" and "unassigned_from i gs" and "i \<le> length (gs_tasks gs)"
  shows "\<exists>gs'. steps f [i..<length (gs_tasks gs0)] gs = Some gs' \<and> accounted gs0 gs'"
  using assms(2-4)
proof (induction "length (gs_tasks gs0) - i" arbitrary: i gs)
  case 0
  then show ?case by (simp add: accounted_def)
next
  case (Suc k)
  then have i: "i < length (gs_tasks gs0)" by simp
  with Suc.prems(1) have i': "i < length (gs_tasks gs)" by (simp add: accounted_def)
  with assms(1) Suc.prems obtain gs' where s: "f i gs = Some gs'" "accounted gs0 gs'" "unassigned_from (Suc i) gs'"
    unfolding step_ok_def by blast
  have len: "Suc i \<le> length (gs_tasks gs')" using s(2) i by (simp add: accounted_def)
  have k: "k = length (gs_tasks gs0) - Suc i" using Suc.hyps(2) by simp
  from Suc.hyps(1) [OF k s(2,3) len] show ?case using i s(1) by (simp add: upt_rec)
qed

section \<open>The whole operation\<close>

text \<open>The scheduler has a loaded configuration and tasks that no node has been chosen for.\<close>

definition ready :: "global_scheduler \<Rightarrow> node_config_manager \<Rightarrow> bool" where
  "ready gs m \<longleftrightarrow> gs_manager gs = Some m \<and> IsLoaded m \<and> omap_ok (ncm_nodes m) \<and> gs_tasks gs \<noteq> [] \<and> fresh (gs_tasks gs)"

definition configured :: "node_config_manager \<Rightarrow> (string, int list) omap" where
  "configured m = map (\<lambda>nc. (fst nc, nc_available_cpus (snd nc))) (ncm_nodes m)"

lemma map_of_snd: "map_of (map (\<lambda>e. (fst e, f (snd e))) xs) n = map_option f (map_of xs n)"
  by (induction xs) auto

lemma configured_ok: "omap_ok (ncm_nodes m) \<Longrightarrow> omap_ok (configured m)"
  by (simp add: omap_ok_def configured_def comp_def)

lemma initial_cpus:
  assumes "ready gs m"
  shows "gs_available_cpus (initialize_available_cpus gs) = configured m"
proof -
  let ?h = "\<lambda>nc. (fst nc, nc_available_cpus (snd nc))"
  have "fold (\<lambda>nc. omap_put (fst nc) (nc_available_cpus (snd nc))) (ncm_nodes m) [] =
      fold (\<lambda>nc. omap_put (fst nc) (snd nc)) (map ?h (ncm_nodes m)) []"
    by (simp add: fold_map comp_def)
  also have "\<dots> = configured m"
    using fold_put_sorted [of "[]" "configured m"] configured_ok assms by (simp add: configured_def ready_def)
  finally show ?thesis using assms by (simp add: initialize_available_cpus_def ready_def)
qed

definition start_state :: "global_scheduler \<Rightarrow> global_scheduler" where
  "start_state gs = initialize_cpu_utilization_tracking (initialize_available_cpus (cleanup_schedules gs))"

lemma start_state_fields:
  assumes "ready gs m"
  shows "gs_available_cpus (start_state gs) = configured m \<and> gs_tasks (start_state gs) = gs_tasks gs \<and>
    gs_sched_info_map (start_state gs) = [] \<and> tracks_load rnd (start_state gs) []"
proof -
  have "ready (cleanup_schedules gs) m" using assms by (simp add: ready_def cleanup_schedules_def)
  moreover have "tracks_load rnd (start_state gs) []"
    using tracking_initial by (simp add: tracks_load_def start_state_def)
  ultimately show ?thesis
    using initial_cpus assms
    by (auto simp: start_state_def initialize_cpu_utilization_tracking_def initialize_available_cpus_def cleanup_schedules_def
        ready_def split: option.split)
qed

lemma schedules_of_Nil: "schedules_of ts = [] \<longleftrightarrow> (\<forall>t\<in>set ts. ot_assigned_node t = [])"
proof -
  have "schedules_of ts = [] \<longleftrightarrow> (\<forall>n. omap_find (schedules_of ts) n = None)"
    using omap_eq_iff [OF schedules_of_ok omap_ok_Nil] by simp
  also have "\<dots> \<longleftrightarrow> (\<forall>t\<in>set ts. ot_assigned_node t = [])"
    by (auto simp: schedules_of_find filter_empty_conv)
  finally show ?thesis .
qed

lemma manager_unchanged:
  assumes "schedule rnd std_sort malloc_ok ''target_node_priority'' gs = Some (ok, gs')"
  shows "gs_manager gs' = gs_manager gs"
proof -
  have step: "gs_manager (target_node_step rnd i gs) = gs_manager gs" for i gs
    by (auto simp: target_node_step_def assign_task_to_node_cpu_def Let_def split: option.split)
  have "gs_manager (fold (target_node_step rnd) is gs) = gs_manager gs" for "is" gs
    by (induction "is" arbitrary: gs) (simp_all add: step)
  then have "gs_manager (schedule_with_target_node_priority rnd gs) = gs_manager gs" for gs
    by (simp add: schedule_with_target_node_priority_def)
  then show ?thesis
    using assms
    by (auto simp: schedule_def Let_def generate_schedules_def initialize_cpu_utilization_tracking_def
        initialize_available_cpus_def cleanup_schedules_def split: if_splits option.splits)
qed

lemma schedule_target:
  assumes "ready gs m" and "cpus_nonneg (configured m)" and "\<forall>n. malloc_ok n"
  shows "\<exists>gs'. schedule rnd std_sort malloc_ok ''target_node_priority'' gs = Some (gs_sched_info_map gs' \<noteq> [], gs') \<and>
    gs_tasks gs' = spec_tasks rnd (configured m) (gs_tasks gs) \<and> gs_sched_info_map gs' = schedules_of (gs_tasks gs') \<and>
    gs_available_cpus gs' = configured m"
proof -
  note f = start_state_fields [OF assms(1), of rnd]
  let ?s = "start_state gs"
  have nn: "cpus_nonneg (gs_available_cpus ?s)" and tr: "tracks_load rnd ?s []" and len: "length (gs_tasks gs) \<le> length (gs_tasks ?s)"
    using f assms(2) by simp_all
  have fr: "\<forall>t\<in>set (gs_tasks ?s). ot_assigned_cpu t = -1" using f assms(1) by (simp add: ready_def fresh_def)
  from target_node_loop [OF nn tr fr len] f obtain u where
    u: "schedule_with_target_node_priority rnd ?s =
      ?s\<lparr>gs_tasks := spec_tasks rnd (configured m) (gs_tasks gs), gs_cpu_utilization := u\<rparr>"
    by (auto simp: schedule_with_target_node_priority_def)
  let ?g = "?s\<lparr>gs_tasks := spec_tasks rnd (configured m) (gs_tasks gs), gs_cpu_utilization := u\<rparr>"
  have g: "generate_schedules malloc_ok ?g = Some (?g\<lparr>gs_sched_info_map := schedules_of (gs_tasks ?g)\<rparr>)"
    using generate_schedules_run [OF assms(3), of ?g] f by simp
  have run: "schedule rnd std_sort malloc_ok ''target_node_priority'' gs =
      map_option (\<lambda>gs3. (has_schedules gs3, gs3)) (generate_schedules malloc_ok ?g)"
    using assms(1) u by (simp add: schedule_def ready_def start_state_def [symmetric] Let_def)
  show ?thesis
    unfolding run g using f
    by (intro exI [of _ "?g\<lparr>gs_sched_info_map := schedules_of (gs_tasks ?g)\<rparr>"]) (simp add: has_schedules_def)
qed

section \<open>Properties\<close>

text \<open>
  C4. The algorithm in use places tasks as specified, for every rounding of the double arithmetic: with a
  loaded configuration and unplaced tasks, the operation is defined and its tasks are those of the
  specification, which decides task by task (target node only; the CPU of the affinity if it has
  room under the threshold, otherwise the highest CPU that has room). The schedule of each
  node is exactly the list of its tasks in their order, and the call succeeds iff some task has
  a node.
\<close>

theorem target_priority_refines:
  assumes "ready gs m" and "cpus_nonneg (configured m)" and "\<forall>n. malloc_ok n"
  shows "\<exists>ok gs'. schedule rnd std_sort malloc_ok ''target_node_priority'' gs = Some (ok, gs') \<and>
    gs_tasks gs' = spec_tasks rnd (configured m) (gs_tasks gs) \<and>
    (\<forall>n. omap_find (gs_sched_info_map gs') n =
       (if n = [] \<or> on_node n (gs_tasks gs') = [] then None else Some (map to_sched_task (on_node n (gs_tasks gs'))))) \<and>
    (ok \<longleftrightarrow> (\<exists>t\<in>set (gs_tasks gs'). ot_assigned_node t \<noteq> []))"
proof -
  from schedule_target [OF assms] obtain gs' where
    g: "schedule rnd std_sort malloc_ok ''target_node_priority'' gs = Some (gs_sched_info_map gs' \<noteq> [], gs')"
    "gs_tasks gs' = spec_tasks rnd (configured m) (gs_tasks gs)" "gs_sched_info_map gs' = schedules_of (gs_tasks gs')" by blast
  show ?thesis
    by (intro exI [of _ "gs_sched_info_map gs' \<noteq> []"] exI [of _ gs'])
      (use g(1,2) in \<open>simp add: g(3) schedules_of_find schedules_of_Nil\<close>)
qed

text \<open>A scheduler with one node of one CPU and two tasks that need two thirds of it each.\<close>

definition sample_task :: "string \<Rightarrow> otask" where
  "sample_task n = new_task\<lparr>ot_name := n, ot_workload_id := ''w'', ot_target_node := ''n2'', ot_period_us := 3, ot_runtime_us := 2,
     ot_affinity := ''any''\<rparr>"

definition sample_manager :: node_config_manager where
  "sample_manager = \<lparr>ncm_nodes = sample_nodes, ncm_loaded = True\<rparr>"

definition sample_scheduler :: global_scheduler where
  "sample_scheduler = set_tasks [sample_task ''a'', sample_task ''b''] (GlobalScheduler (Some sample_manager))"

lemma sample_ready: "ready sample_scheduler sample_manager" "cpus_nonneg (configured sample_manager)"
proof -
  have "omap_ok sample_nodes" by (simp add: sample_nodes_def omap_ok_def less_char_def)
  then show "ready sample_scheduler sample_manager"
    by (simp add: ready_def sample_scheduler_def set_tasks_def GlobalScheduler_def sample_manager_def IsLoaded_def fresh_def
        initialize_cpu_utilization_tracking_def initialize_available_cpus_def sample_task_def new_task_def Let_def)
  show "cpus_nonneg (configured sample_manager)"
    by (simp add: cpus_nonneg_def configured_def sample_manager_def sample_nodes_def)
qed

lemma target_priority_refines_witness:
  "\<exists>ok gs'. schedule (\<lambda>x. x) (\<lambda>ts. ts) (\<lambda>n. True) ''target_node_priority'' sample_scheduler = Some (ok, gs') \<and>
    gs_tasks gs' = spec_tasks (\<lambda>x. x) (configured sample_manager) (gs_tasks sample_scheduler)"
  using target_priority_refines [OF sample_ready, of "\<lambda>n. True" "\<lambda>x. x" "\<lambda>ts. ts"] by blast

text \<open>
  C5. No CPU is filled beyond the threshold: after a call with the algorithm in use, the utilisation of
  every CPU that got a task, added up in double arithmetic over the tasks in their order, is at
  most the threshold of 0.9; a task with a CPU has one of the configured CPUs of its target node and
  is assigned to that node.
\<close>

theorem utilisation_bounded:
  assumes "ready gs m" and "cpus_nonneg (configured m)" and "\<forall>n. malloc_ok n"
    and "schedule rnd std_sort malloc_ok ''target_node_priority'' gs = Some (ok, gs')"
  shows "(\<forall>t\<in>set (gs_tasks gs'). 0 \<le> ot_assigned_cpu t \<longrightarrow>
      ot_assigned_node t = ot_target_node t \<and>
      ot_assigned_cpu t \<in> set (GetAvailableCpus m (ot_target_node t)) \<and>
      load rnd (gs_tasks gs') (ot_assigned_node t) (ot_assigned_cpu t) \<le> CPU_UTILIZATION_THRESHOLD rnd)"
proof (intro ballI impI)
  fix t assume t: "t \<in> set (gs_tasks gs')" and c: "0 \<le> ot_assigned_cpu t"
  have g: "gs_tasks gs' = spec_tasks rnd (configured m) (gs_tasks gs)"
    using schedule_target [OF assms(1-3), of rnd std_sort] assms(4) by auto
  have fr: "fresh (gs_tasks gs)" using assms(1) by (simp add: ready_def)
  have p: "ot_assigned_node t = ot_target_node t" "ot_assigned_cpu t \<in> set (omap_at [] (ot_target_node t) (configured m))"
    using spec_tasks_placed [OF fr assms(2)] t c unfolding g by force+
  have "omap_find (configured m) n = map_option nc_available_cpus (omap_find (ncm_nodes m) n)" for n
    unfolding configured_def by (rule map_of_snd)
  then have "ot_assigned_cpu t \<in> set (GetAvailableCpus m (ot_target_node t))"
    using p(2) by (auto simp: GetAvailableCpus_def GetNodeConfig_def omap_at_def split: option.splits)
  moreover have "load rnd (gs_tasks gs') (ot_assigned_node t) (ot_assigned_cpu t) \<le> CPU_UTILIZATION_THRESHOLD rnd"
    using spec_load_bound [OF assms(2) fr c] t unfolding g by blast
  ultimately show "ot_assigned_node t = ot_target_node t \<and> ot_assigned_cpu t \<in> set (GetAvailableCpus m (ot_target_node t)) \<and>
      load rnd (gs_tasks gs') (ot_assigned_node t) (ot_assigned_cpu t) \<le> CPU_UTILIZATION_THRESHOLD rnd"
    using p(1) by simp
qed

lemma utilisation_bounded_witness:
  "\<exists>ok gs'. schedule (\<lambda>x. x) (\<lambda>ts. ts) (\<lambda>n. True) ''target_node_priority'' sample_scheduler = Some (ok, gs') \<and>
    (\<forall>t\<in>set (gs_tasks gs'). 0 \<le> ot_assigned_cpu t \<longrightarrow>
      load (\<lambda>x. x) (gs_tasks gs') (ot_assigned_node t) (ot_assigned_cpu t) \<le> CPU_UTILIZATION_THRESHOLD (\<lambda>x. x))"
proof -
  obtain ok gs' where g: "schedule (\<lambda>x. x) (\<lambda>ts. ts) (\<lambda>n. True) ''target_node_priority'' sample_scheduler = Some (ok, gs')"
    using schedule_target [OF sample_ready, of "\<lambda>n. True" "\<lambda>x. x" "\<lambda>ts. ts"] by blast
  from utilisation_bounded [OF sample_ready _ g] g show ?thesis by blast
qed

text \<open>The two older algorithms as one loop over the tasks, which one of them sorts before.\<close>

lemma older_algorithms_run:
  fixes gs algorithm std_sort rnd
  defines "ts \<equiv> if algorithm = ''least_loaded'' then gs_tasks gs else std_sort (gs_tasks gs)"
  defines "init \<equiv> (start_state gs)\<lparr>gs_tasks := ts\<rparr>"
  assumes "ready gs m" and "algorithm \<in> {''least_loaded'', ''best_fit_decreasing''}"
    and "mset (std_sort (gs_tasks gs)) = mset (gs_tasks gs)"
    and "steps (if algorithm = ''least_loaded'' then least_loaded_step rnd else best_fit_step rnd)
      [0..<length (gs_tasks init)] init = Some gs2"
  shows "schedule rnd std_sort malloc_ok algorithm gs =
    map_option (\<lambda>gs3. (has_schedules gs3, gs3)) (generate_schedules malloc_ok gs2)"
proof (cases "algorithm = ''least_loaded''")
  case True
  let ?s = "start_state gs"
  have s_tasks: "gs_tasks ?s = gs_tasks gs" using start_state_fields [OF assms(3), of rnd] by simp
  then have same: "?s\<lparr>gs_tasks := gs_tasks gs\<rparr> = ?s" by simp
  have "steps (least_loaded_step rnd) [0..<length (gs_tasks gs)] (?s\<lparr>gs_tasks := gs_tasks gs\<rparr>) = Some gs2"
    using assms(6) True by (simp add: init_def ts_def)
  then have "schedule_with_least_loaded rnd ?s = Some gs2"
    unfolding same schedule_with_least_loaded_def s_tasks .
  with assms(3) True show ?thesis by (simp add: schedule_def ready_def start_state_def [symmetric] Let_def)
next
  case False
  then have alg: "algorithm = ''best_fit_decreasing''" using assms(4) by simp
  have "length (std_sort (gs_tasks gs)) = length (gs_tasks gs)" using assms(5) by (rule mset_eq_length)
  then have "schedule_with_best_fit_decreasing rnd std_sort (start_state gs) = Some gs2"
    using assms(6) False start_state_fields [OF assms(3), of rnd] by (simp add: schedule_with_best_fit_decreasing_def init_def ts_def)
  with assms(3) alg show ?thesis by (simp add: schedule_def ready_def start_state_def [symmetric] Let_def)
qed

text \<open>
  C28. The two older algorithms never take a CPU that is not there and never give a CPU away twice: with
  a loaded configuration, unplaced tasks and any sort by run time, the operation is defined, and the
  CPUs of the tasks on a node form a part of the CPUs configured for it, each used once.
\<close>

theorem exclusive_cpus:
  assumes "ready gs m" and "\<forall>n. malloc_ok n" and "sorts_by_runtime std_sort"
    and "algorithm \<in> {''least_loaded'', ''best_fit_decreasing''}"
  shows "\<exists>ok gs'. schedule rnd std_sort malloc_ok algorithm gs = Some (ok, gs') \<and>
    (\<forall>n. n \<noteq> [] \<longrightarrow> mset (map ot_assigned_cpu (on_node n (gs_tasks gs'))) \<subseteq># mset (omap_at [] n (configured m)))"
proof -
  note f = start_state_fields [OF assms(1), of rnd]
  let ?s = "start_state gs"
  let ?ts = "if algorithm = ''least_loaded'' then gs_tasks gs else std_sort (gs_tasks gs)"
  let ?init = "?s\<lparr>gs_tasks := ?ts\<rparr>"
  let ?step = "if algorithm = ''least_loaded'' then least_loaded_step rnd else best_fit_step rnd"
  have ms: "mset (std_sort (gs_tasks gs)) = mset (gs_tasks gs)" using assms(3) by (simp add: sorts_by_runtime_def)
  then have ts: "set ?ts = set (gs_tasks gs)" "length ?ts = length (gs_tasks gs)"
    by (auto dest: mset_eq_setD mset_eq_length)
  have fr: "\<forall>t\<in>set ?ts. ot_assigned_node t = []" using assms(1) ts(1) by (auto simp: ready_def fresh_def)
  then have none: "on_node n ?ts = []" if "n \<noteq> []" for n using that by (auto simp: filter_empty_conv)
  have "accounted ?init ?init"
    using f configured_ok assms(1) none by (auto simp: accounted_def ready_def)
  moreover have "unassigned_from 0 ?init" using fr by (auto simp: unassigned_from_def)
  moreover have "step_ok ?step" using least_loaded_step_ok best_fit_step_ok by simp
  ultimately obtain gs2 where gs2: "steps ?step [0..<length (gs_tasks ?init)] ?init = Some gs2" "accounted ?init gs2"
    using steps_accounted [of ?step ?init ?init 0] by auto
  have map0: "gs_sched_info_map gs2 = []" using gs2(2) f by (simp add: accounted_def)
  note gen = generate_schedules_run [OF assms(2) map0]
  have run: "schedule rnd std_sort malloc_ok algorithm gs =
      map_option (\<lambda>gs3. (has_schedules gs3, gs3)) (generate_schedules malloc_ok gs2)"
    by (rule older_algorithms_run [where std_sort = std_sort, OF assms(1,4) ms gs2(1)])
  have sub: "mset (map ot_assigned_cpu (on_node n (gs_tasks gs2))) \<subseteq># mset (omap_at [] n (configured m))" if "n \<noteq> []" for n
  proof -
    have "mset (map ot_assigned_cpu (on_node n (gs_tasks gs2))) + mset (cpus_of n gs2) = mset (omap_at [] n (configured m))"
      using gs2(2) f that by (simp add: accounted_def)
    then show ?thesis by (metis mset_subset_eq_add_left)
  qed
  show ?thesis
    unfolding run gen by (intro exI [of _ "has_schedules (gs2\<lparr>gs_sched_info_map := schedules_of (gs_tasks gs2)\<rparr>)"]
        exI [of _ "gs2\<lparr>gs_sched_info_map := schedules_of (gs_tasks gs2)\<rparr>"]) (use sub in simp)
qed

lemma exclusive_cpus_witness:
  "\<exists>std_sort ok gs'. sorts_by_runtime std_sort \<and>
    schedule (\<lambda>x. x) std_sort (\<lambda>n. True) ''best_fit_decreasing'' sample_scheduler = Some (ok, gs') \<and>
    mset (map ot_assigned_cpu (on_node ''n2'' (gs_tasks gs'))) \<subseteq># {#0#}"
proof -
  let ?sort = "\<lambda>ts. rev (sort_key ot_runtime_us ts)"
  have s: "sorts_by_runtime ?sort"
  proof -
    have "sorted_wrt (\<lambda>a b. ot_runtime_us a \<le> ot_runtime_us b) (sort_key ot_runtime_us ts)" for ts :: "otask list"
      using sorted_sort_key [of ot_runtime_us ts] by (simp add: sorted_map)
    then show ?thesis by (simp add: sorts_by_runtime_def sorted_wrt_rev)
  qed
  have "omap_at [] ''n2'' (configured sample_manager) = [0]"
    by (simp add: configured_def sample_manager_def sample_nodes_def omap_at_def)
  note cpus = this
  obtain ok gs' where "schedule (\<lambda>x. x) ?sort (\<lambda>n. True) ''best_fit_decreasing'' sample_scheduler = Some (ok, gs')"
    "\<forall>n. n \<noteq> [] \<longrightarrow> mset (map ot_assigned_cpu (on_node n (gs_tasks gs'))) \<subseteq># mset (omap_at [] n (configured sample_manager))"
    using exclusive_cpus [OF sample_ready(1) _ s, of "\<lambda>n. True" "''best_fit_decreasing''" "\<lambda>x. x"] by auto
  with s cpus show ?thesis by (intro exI [of _ ?sort] exI [of _ ok] exI [of _ gs']) (metis list.distinct(1) mset.simps mset_single_iff)
qed

end
