(* ===== verification/Orchestrator_Server.thy ===== *)
theory Orchestrator_Server
  imports Global_Scheduler
begin

text \<open>
  The orchestrator as a running server: workloads arrive (\<^verbatim>\<open>timpani-o/src/schedinfo_service.cpp\<close>), nodes
  fetch the schedule, wait for the common start and report deadline misses
  (\<^verbatim>\<open>dbus_server.cpp\<close>), and faults are passed on (\<^verbatim>\<open>fault_client.cpp\<close>). Each operation is one
  step here (\<^verbatim>\<open>Fetch_Race\<close> takes the call-backs for the nodes apart). gRPC and its messages are not part of the repository: a
  request is its decoded contents, and the answer of the fault service is an argument. The
  lemmas show that the cached buffer is always that of the current schedule, whatever the
  order of the operations, how misses are attributed to workloads, and what becomes of the
  start barrier when a workload is replaced.
\<close>

section \<open>Requests\<close>

record grpc_task =
  gt_name :: string
  gt_priority :: int
  gt_policy :: int
  gt_cpu_affinity :: u64
  gt_period :: int
  gt_release_time :: int
  gt_runtime :: int
  gt_deadline :: int
  gt_node_id :: string
  gt_max_dmiss :: int

record sched_request =
  rq_workload_id :: string
  rq_tasks :: "grpc_task list"

definition SchedPolicyToInt :: "int \<Rightarrow> int" where
  "SchedPolicyToInt policy = (if policy = 0 then 0 else if policy = 1 then 1 else if policy = 2 then 2 else -1)"

text \<open>The loop that shifts the affinity down to its highest bit.\<close>

function affinity_loop :: "u32 \<Rightarrow> int \<Rightarrow> int" where
  "affinity_loop affinity cpu_id = (if affinity > 1 then affinity_loop (drop_bit 1 affinity) (cpu_id + 1) else cpu_id)"
  by auto
termination
  by (relation "measure (\<lambda>(a, c). unat a)") (auto simp: word_less_nat_alt drop_bit_eq_div unat_div)

declare affinity_loop.simps [simp del]

definition affinity_text :: "u64 \<Rightarrow> string" where
  "affinity_text cpu_affinity =
     (if cpu_affinity = 0xFFFFFFFF \<or> cpu_affinity = 0 then ''any''
      else std_to_string (affinity_loop (ucast cpu_affinity) 0))"

definition convert_task :: "string \<Rightarrow> grpc_task \<Rightarrow> otask" where
  "convert_task workload_id g = new_task
     \<lparr>ot_name := gt_name g, ot_workload_id := workload_id, ot_policy := SchedPolicyToInt (gt_policy g),
      ot_priority := gt_priority g, ot_cpu_affinity := to_int32 (uint (gt_cpu_affinity g)),
      ot_period_us := word_of_int (gt_period g), ot_runtime_us := word_of_int (gt_runtime g),
      ot_deadline_us := word_of_int (gt_deadline g), ot_release_time := gt_release_time g,
      ot_max_dmiss := gt_max_dmiss g, ot_target_node := gt_node_id g, ot_affinity := affinity_text (gt_cpu_affinity g),
      ot_memory_mb := 256, ot_assigned_node := [], ot_assigned_cpu := -1\<rparr>"

definition ConvertTaskInfoToTasks :: "sched_request \<Rightarrow> otask list" where
  "ConvertTaskInfoToTasks request = map (convert_task (rq_workload_id request)) (rq_tasks request)"

text \<open>Apex.OS workloads bypass the scheduler; only some of the fields are filled.\<close>

definition apex_sched_task :: "grpc_task \<Rightarrow> sched_task" where
  "apex_sched_task g =
     \<lparr>st_task_name = strncpy_field 16 (gt_name g), st_period_ns = word_of_int (gt_period g) * 1000, st_runtime_ns = 0,
      st_deadline_ns = 0, st_release_time = 0, st_cpu_affinity = gt_cpu_affinity g, st_sched_policy = 0,
      st_sched_priority = 0, st_max_dmiss = word_of_int (gt_max_dmiss g), st_assigned_node = strncpy_field 64 (gt_node_id g)\<rparr>"

definition apex_schedule :: "grpc_task list \<Rightarrow> (string, sched_task list) omap" where
  "apex_schedule tasks =
     fold (\<lambda>g m. omap_put (gt_node_id g) (omap_at [] (gt_node_id g) m @ [apex_sched_task g]) m) tasks []"

section \<open>The service\<close>

record service =
  sv_sched_info_map :: "(string, (string, sched_task list) omap) omap"
  sv_sched_info_changed :: bool
  sv_scheduler :: global_scheduler
  sv_hyperperiods :: hyperperiod_map

definition SchedInfoServiceImpl :: "node_config_manager option \<Rightarrow> service" where
  "SchedInfoServiceImpl m = \<lparr>sv_sched_info_map = [], sv_sched_info_changed = False, sv_scheduler = GlobalScheduler m,
     sv_hyperperiods = []\<rparr>"

text \<open>An existing workload is dropped first.\<close>

definition drop_workload :: "service \<Rightarrow> service" where
  "drop_workload sv =
     (case sv_sched_info_map sv of
        [] \<Rightarrow> sv
      | (prev_workload, _) # _ \<Rightarrow>
          sv\<lparr>sv_sched_info_map := [], sv_scheduler := clear (sv_scheduler sv),
             sv_hyperperiods := ClearWorkload prev_workload (sv_hyperperiods sv), sv_sched_info_changed := True\<rparr>)"

text \<open>The status of the reply and the new state; \<open>None\<close> when the scheduling is undefined.\<close>

definition AddSchedInfo ::
  "rounding \<Rightarrow> (otask list \<Rightarrow> otask list) \<Rightarrow> (nat \<Rightarrow> bool) \<Rightarrow> sched_request \<Rightarrow> service \<Rightarrow> (int \<times> service) option" where
  "AddSchedInfo rnd std_sort malloc_ok request sv =
     (let sv1 = drop_workload sv; w = rq_workload_id request in
      if w = ''Apex.OS''
      then let nodes = apex_schedule (rq_tasks request) in
        if \<not> list_all (\<lambda>e. malloc_ok (length (snd e))) nodes then None
        else Some (0, sv1\<lparr>sv_sched_info_map := omap_put w nodes (sv_sched_info_map sv1)\<rparr>)
      else let tasks = ConvertTaskInfoToTasks request;
               (hyperperiod, hyperperiods) = CalculateHyperperiod w tasks (sv_hyperperiods sv1);
               sv2 = sv1\<lparr>sv_hyperperiods := hyperperiods\<rparr>
      in if hyperperiod = 0 then Some (-1, sv2)
         else case schedule rnd std_sort malloc_ok ''target_node_priority'' (set_tasks tasks (clear (sv_scheduler sv2))) of
                None \<Rightarrow> None
              | Some (ok, gs) \<Rightarrow>
                  if \<not> ok then Some (-1, sv2\<lparr>sv_scheduler := gs\<rparr>)
                  else Some (0, sv2\<lparr>sv_scheduler := gs,
                    sv_sched_info_map := omap_put w (gs_sched_info_map gs) (sv_sched_info_map sv2)\<rparr>))"

text \<open>The map, and for a caller that asks the flag, which is reset.\<close>

definition GetSchedInfoMap ::
  "bool \<Rightarrow> service \<Rightarrow> (string, (string, sched_task list) omap) omap \<times> bool \<times> service" where
  "GetSchedInfoMap ask sv =
     (sv_sched_info_map sv, sv_sched_info_changed sv, if ask then sv\<lparr>sv_sched_info_changed := False\<rparr> else sv)"

section \<open>The server for the nodes\<close>

record server =
  sr_service :: service
  sr_attached :: bool
  sr_buf :: "serial_buf option"
  sr_node_sync_map :: "(string \<times> bool) list"

definition SetSchedInfoServer :: "bool \<Rightarrow> server \<Rightarrow> server" where
  "SetSchedInfoServer attached sr = sr\<lparr>sr_attached := attached\<rparr>"

definition FreeSchedInfoBuf :: "server \<Rightarrow> server" where
  "FreeSchedInfoBuf sr = sr\<lparr>sr_buf := None\<rparr>"

text \<open>
  The packing of the first workload of a map that is not empty: the buffer that results, whether or
  not the writes succeeded. The outer option is an overrun, the inner one the failed allocation.
\<close>

definition hyperperiod_of :: "server \<Rightarrow> string \<Rightarrow> u64 option" where
  "hyperperiod_of sr w =
     (if sr_attached sr then map_option hi_hyperperiod_us (GetHyperperiodInfo (sv_hyperperiods (sr_service sr)) w) else None)"

definition packed ::
  "allocator \<Rightarrow> bool \<Rightarrow> (string, (string, sched_task list) omap) omap \<Rightarrow> server \<Rightarrow> serial_buf option option" where
  "packed alloc le m sr =
     (case pack_schedule alloc le (fst (hd m)) (hyperperiod_of sr (fst (hd m))) (snd (hd m)) of
        None \<Rightarrow> Some None
      | Some (Ok _ b) \<Rightarrow> Some (Some b)
      | Some (Err b) \<Rightarrow> Some (Some b)
      | Some Overrun \<Rightarrow> None)"

definition SerializeSchedInfo ::
  "allocator \<Rightarrow> bool \<Rightarrow> (string, (string, sched_task list) omap) omap \<Rightarrow> server \<Rightarrow> (bool \<times> server) option" where
  "SerializeSchedInfo alloc le m sr =
     (if sr_buf sr \<noteq> None then Some (True, sr)
      else case packed alloc le m sr of
             None \<Rightarrow> None
           | Some None \<Rightarrow> Some (False, sr)
           | Some (Some b) \<Rightarrow> Some (True, sr\<lparr>sr_buf := Some b\<rparr>))"

text \<open>The bytes that are sent to the node, if any.\<close>

definition SchedInfoCallback :: "allocator \<Rightarrow> bool \<Rightarrow> server \<Rightarrow> (byte list option \<times> server) option" where
  "SchedInfoCallback alloc le sr =
     (if \<not> sr_attached sr then Some (None, sr)
      else let (m, changed, sv) = GetSchedInfoMap True (sr_service sr);
               sr1 = sr\<lparr>sr_service := sv\<rparr>;
               sr2 = (if changed then FreeSchedInfoBuf sr1 else sr1)
      in if m = [] then Some (None, sr2)
         else case SerializeSchedInfo alloc le m sr2 of
                None \<Rightarrow> None
              | Some (ok, sr3) \<Rightarrow>
                  (case sr_buf sr3 of
                     None \<Rightarrow> Some (None, sr3)
                   | Some b \<Rightarrow> Some (if ok then Some (content b) else None, sr3)))"

text \<open>
  The two halves of the call-back: the copy of the map, which is made under the lock of the service, and the work
  on the copy.
\<close>

type_synonym sched_map = "(string, (string, sched_task list) omap) omap"

definition fetch_begin :: "server \<Rightarrow> sched_map \<times> server" where
  "fetch_begin sr =
     (let (m, changed, sv) = GetSchedInfoMap True (sr_service sr);
          sr1 = sr\<lparr>sr_service := sv\<rparr>
      in (m, if changed then FreeSchedInfoBuf sr1 else sr1))"

definition fetch_end :: "allocator \<Rightarrow> bool \<Rightarrow> sched_map \<Rightarrow> server \<Rightarrow> (byte list option \<times> server) option" where
  "fetch_end alloc le m sr =
     (if m = [] then Some (None, sr)
      else case SerializeSchedInfo alloc le m sr of
             None \<Rightarrow> None
           | Some (ok, sr1) \<Rightarrow>
               (case sr_buf sr1 of None \<Rightarrow> Some (None, sr1) | Some b \<Rightarrow> Some (if ok then Some (content b) else None, sr1)))"

lemma SchedInfoCallback_halves:
  "SchedInfoCallback alloc le sr =
     (if sr_attached sr then case fetch_begin sr of (m, sr1) \<Rightarrow> fetch_end alloc le m sr1 else Some (None, sr))"
  by (simp add: SchedInfoCallback_def fetch_begin_def fetch_end_def Let_def split: prod.split)

text \<open>The workload that a miss belongs to, and the message to the fault service.\<close>

definition has_task :: "string \<Rightarrow> string \<Rightarrow> (string, sched_task list) omap \<Rightarrow> bool" where
  "has_task name task nodes \<longleftrightarrow> list_ex (\<lambda>(node_id, ts). node_id = name \<and> list_ex (\<lambda>t. cstr (st_task_name t) = task) ts) nodes"

record fault_info =
  fi_workload_id :: string
  fi_node_id :: string
  fi_task_name :: string
  fi_type :: int

definition DMISS :: int where "DMISS = 1"

definition miss_workload :: "string \<Rightarrow> string \<Rightarrow> (string, (string, sched_task list) omap) omap \<Rightarrow> string" where
  "miss_workload name task m =
     (case find (\<lambda>(wl_id, nodes). has_task name task nodes) m of
        Some (wl_id, _) \<Rightarrow> wl_id
      | None \<Rightarrow> (case m of [] \<Rightarrow> [] | (w, _) # _ \<Rightarrow> w))"

definition DMissCallback :: "string \<Rightarrow> string \<Rightarrow> server \<Rightarrow> fault_info \<times> server" where
  "DMissCallback name task sr =
     (let w = (if sr_attached sr then miss_workload name task (fst (GetSchedInfoMap False (sr_service sr))) else [])
      in (\<lparr>fi_workload_id = w, fi_node_id = name, fi_task_name = task, fi_type = DMISS\<rparr>, sr))"

definition sync_nodes :: "server \<Rightarrow> string list" where
  "sync_nodes sr =
     (if sr_attached sr
      then (case fst (GetSchedInfoMap False (sr_service sr)) of [] \<Rightarrow> [] | (_, nodes) # _ \<Rightarrow> map fst nodes) else [])"

definition SyncCallback_server :: "string \<Rightarrow> timespec \<Rightarrow> server \<Rightarrow> (int \<times> timespec option) \<times> server" where
  "SyncCallback_server name now sr =
     (case SyncCallback (sync_nodes sr) name now (sr_node_sync_map sr) of
        (r, m) \<Rightarrow> (r, sr\<lparr>sr_node_sync_map := m\<rparr>))"

section \<open>The fault client\<close>

record fault_client =
  fc_initialized :: bool

text \<open>The arguments say whether the channel and the stub could be made, and what the service answered.\<close>

definition CreateChannel :: "bool \<Rightarrow> bool \<Rightarrow> bool" where
  "CreateChannel channel_ok stub_ok = (if \<not> channel_ok then False else if \<not> stub_ok then False else True)"

definition Initialize :: "bool \<Rightarrow> bool \<Rightarrow> string \<Rightarrow> fault_client \<Rightarrow> bool \<times> fault_client" where
  "Initialize channel_ok stub_ok server_address c =
     (if fc_initialized c then (True, c)
      else if server_address = [] then (False, c)
      else if \<not> CreateChannel channel_ok stub_ok then (False, c)
      else (True, c\<lparr>fc_initialized := True\<rparr>))"

definition NotifyFault :: "(fault_info \<Rightarrow> bool \<times> int) \<Rightarrow> fault_info \<Rightarrow> fault_client \<Rightarrow> bool" where
  "NotifyFault rpc info c =
     (if \<not> fc_initialized c then False
      else let (status_ok, reply_status) = rpc info in
        if \<not> status_ok then False else if reply_status \<noteq> 0 then False else True)"

definition FaultTypeToStr :: "int \<Rightarrow> string" where
  "FaultTypeToStr type = (if type = 0 then ''UNKNOWN'' else if type = 1 then ''DMISS'' else ''INVALID'')"

section \<open>Steps of the server\<close>

text \<open>
  What can happen to the server, in any order: a workload arrives, a node fetches the schedule,
  announces that it is ready or reports a miss, the server is attached to the service or stopped.
\<close>

record environment =
  env_alloc :: allocator
  env_le :: bool
  env_rnd :: rounding
  env_sort :: "otask list \<Rightarrow> otask list"
  env_malloc_ok :: "nat \<Rightarrow> bool"

inductive server_step :: "environment \<Rightarrow> server \<Rightarrow> server \<Rightarrow> bool" for e where
  add: "AddSchedInfo (env_rnd e) (env_sort e) (env_malloc_ok e) request (sr_service sr) = Some (status, sv) \<Longrightarrow>
    server_step e sr (sr\<lparr>sr_service := sv\<rparr>)"
| fetch: "SchedInfoCallback (env_alloc e) (env_le e) sr = Some (r, sr') \<Longrightarrow> server_step e sr sr'"
| sync: "SyncCallback_server name now sr = (r, sr') \<Longrightarrow> server_step e sr sr'"
| miss: "DMissCallback name task sr = (f, sr') \<Longrightarrow> server_step e sr sr'"
| start: "server_step e sr (SetSchedInfoServer True sr)"
| stop: "server_step e sr (SetSchedInfoServer False (FreeSchedInfoBuf sr))"

definition new_server :: "node_config_manager option \<Rightarrow> server" where
  "new_server m = \<lparr>sr_service = SchedInfoServiceImpl m, sr_attached = False, sr_buf = None, sr_node_sync_map = []\<rparr>"

definition reachable :: "environment \<Rightarrow> node_config_manager option \<Rightarrow> server \<Rightarrow> bool" where
  "reachable e m sr \<longleftrightarrow> (server_step e)\<^sup>*\<^sup>* (new_server m) sr"

abbreviation schedules :: "server \<Rightarrow> (string, (string, sched_task list) omap) omap" where
  "schedules sr \<equiv> sv_sched_info_map (sr_service sr)"

text \<open>A buffer that is kept is the one that packing the current schedule would give, or is marked as stale.\<close>

definition coherent :: "environment \<Rightarrow> server \<Rightarrow> bool" where
  "coherent e sr \<longleftrightarrow> length (schedules sr) \<le> 1 \<and>
     (case sr_buf sr of
        None \<Rightarrow> True
      | Some b \<Rightarrow> sr_attached sr \<and> (sv_sched_info_changed (sr_service sr) \<or>
          schedules sr \<noteq> [] \<and> packed (env_alloc e) (env_le e) (schedules sr) sr = Some (Some b)))"

lemma AddSchedInfo_result:
  assumes "AddSchedInfo rnd srt mok request sv = Some (status, sv')" and "length (sv_sched_info_map sv) \<le> 1"
  shows "length (sv_sched_info_map sv') \<le> 1 \<and>
    (sv_sched_info_changed sv' \<longleftrightarrow> sv_sched_info_changed sv \<or> sv_sched_info_map sv \<noteq> [])"
proof -
  have d: "sv_sched_info_map (drop_workload sv) = []"
    "sv_sched_info_changed (drop_workload sv) \<longleftrightarrow> sv_sched_info_changed sv \<or> sv_sched_info_map sv \<noteq> []"
    by (auto simp: drop_workload_def split: list.split)
  show ?thesis
    using assms(1) d
    by (auto simp: AddSchedInfo_def Let_def case_prod_beta split: if_splits option.splits)
qed

lemma packed_cong:
  "sr_attached sr' = sr_attached sr \<Longrightarrow> sv_hyperperiods (sr_service sr') = sv_hyperperiods (sr_service sr) \<Longrightarrow>
    packed alloc le m sr' = packed alloc le m sr"
  by (simp add: packed_def hyperperiod_of_def)

text \<open>What the two halves of a fetch see and leave, in a coherent state.\<close>

lemma begin_coherent:
  assumes "coherent e sr" and "fetch_begin sr = (m, sr1)"
  shows "m = schedules sr \<and> schedules sr1 = m \<and> coherent e sr1 \<and> sr_attached sr1 = sr_attached sr \<and>
    \<not> sv_sched_info_changed (sr_service sr1) \<and> packed alloc le k sr1 = packed alloc le k sr"
proof -
  let ?sv = "(sr_service sr)\<lparr>sv_sched_info_changed := False\<rparr>"
  have m: "m = schedules sr" and sr1: "sr1 = (if sv_sched_info_changed (sr_service sr)
      then FreeSchedInfoBuf (sr\<lparr>sr_service := ?sv\<rparr>) else sr\<lparr>sr_service := ?sv\<rparr>)"
    using assms(2) by (simp_all add: fetch_begin_def GetSchedInfoMap_def Let_def)
  have same: "packed alloc le k sr1 = packed alloc le k sr" for alloc le k
    by (rule packed_cong) (simp_all add: sr1 FreeSchedInfoBuf_def)
  have "coherent e sr1" using assms(1) same by (auto simp: coherent_def sr1 FreeSchedInfoBuf_def split: option.splits)
  with m same show ?thesis by (simp add: sr1 FreeSchedInfoBuf_def)
qed

lemma end_coherent:
  assumes "coherent e sr" and "sr_attached sr" and "\<not> sv_sched_info_changed (sr_service sr)"
    and "fetch_end (env_alloc e) (env_le e) (schedules sr) sr = Some (r, sr')"
  shows "coherent e sr' \<and> r = (if schedules sr = [] then None
    else case packed (env_alloc e) (env_le e) (schedules sr) sr of Some (Some b) \<Rightarrow> Some (content b) | _ \<Rightarrow> None)"
proof (cases "schedules sr = [] \<or> sr_buf sr \<noteq> None")
  case True
  then show ?thesis using assms by (auto simp: fetch_end_def SerializeSchedInfo_def coherent_def)
next
  case False
  have same: "packed alloc le k (sr\<lparr>sr_buf := b\<rparr>) = packed alloc le k sr" for alloc le k b
    by (rule packed_cong) simp_all
  show ?thesis
    using False assms by (auto simp: fetch_end_def SerializeSchedInfo_def coherent_def same split: option.splits)
qed

lemma fetch_coherent:
  assumes "coherent e sr" and "SchedInfoCallback (env_alloc e) (env_le e) sr = Some (r, sr')"
  shows "coherent e sr' \<and>
    r = (if \<not> sr_attached sr \<or> schedules sr = [] then None
         else case packed (env_alloc e) (env_le e) (schedules sr) sr of Some (Some b) \<Rightarrow> Some (content b) | _ \<Rightarrow> None)"
proof (cases "sr_attached sr")
  case False
  with assms show ?thesis by (simp add: SchedInfoCallback_halves)
next
  case True
  obtain m sr1 where f: "fetch_begin sr = (m, sr1)" by fastforce
  note b = begin_coherent [OF assms(1) f, of "env_alloc e" "env_le e" "schedules sr"]
  have "fetch_end (env_alloc e) (env_le e) (schedules sr1) sr1 = Some (r, sr')"
    using assms(2) True f b by (simp add: SchedInfoCallback_halves)
  with end_coherent [of e sr1 r sr'] b True show ?thesis by auto
qed

lemma coherent_barrier: "coherent e (sr\<lparr>sr_node_sync_map := m\<rparr>) \<longleftrightarrow> coherent e sr"
  by (cases "sr_buf sr") (simp_all add: coherent_def packed_def hyperperiod_of_def)

lemma step_coherent: "server_step e sr sr' \<Longrightarrow> coherent e sr \<Longrightarrow> coherent e sr'"
proof (induction rule: server_step.induct)
  case (add request sr status sv)
  with AddSchedInfo_result [OF add(1)] show ?case
    by (auto simp: coherent_def split: option.splits)
next
  case (fetch sr r sr')
  then show ?case using fetch_coherent by blast
next
  case (sync name now sr r sr')
  then have "sr' = sr\<lparr>sr_node_sync_map := sr_node_sync_map sr'\<rparr>"
    by (auto simp: SyncCallback_server_def split: prod.splits)
  with sync(2) coherent_barrier show ?case by metis
next
  case (miss name task sr f sr')
  then show ?case by (simp add: DMissCallback_def Let_def)
next
  case (start sr)
  then show ?case by (auto simp: SetSchedInfoServer_def coherent_def packed_def hyperperiod_of_def split: option.splits)
next
  case (stop sr)
  then show ?case by (simp add: SetSchedInfoServer_def FreeSchedInfoBuf_def coherent_def)
qed

lemma reachable_coherent: "reachable e m sr \<Longrightarrow> coherent e sr"
  unfolding reachable_def
proof (induction rule: rtranclp_induct)
  case base
  show ?case by (simp add: coherent_def new_server_def SchedInfoServiceImpl_def)
next
  case (step y z)
  then show ?case using step_coherent by blast
qed

section \<open>What the nodes are given\<close>

lemma packed_plenty:
  assumes "plenty alloc"
  shows "\<exists>b. packed alloc le ((w, nodes) # m) sr = Some (Some b) \<and>
    content b = enc_schedule (case hyperperiod_of sr w of None \<Rightarrow> 0 | Some h \<Rightarrow> h) (take 63 (cstr w))
      (map node_task (concat (map snd nodes)))"
  using pack_schedule_content [OF assms, of le w "hyperperiod_of sr w" nodes] by (auto simp: packed_def)

lemma fetch_plenty:
  assumes "plenty (env_alloc e)"
  shows "\<exists>r sr'. SchedInfoCallback (env_alloc e) (env_le e) sr = Some (r, sr')"
proof -
  have ser: "\<exists>ok sr3. SerializeSchedInfo (env_alloc e) (env_le e) (w # m) sr2 = Some (ok, sr3)" for w m sr2
    using packed_plenty [OF assms, of "env_le e" "fst w" "snd w" m sr2] by (auto simp: SerializeSchedInfo_def)
  let ?sr = "sr\<lparr>sr_service := (sr_service sr)\<lparr>sv_sched_info_changed := False\<rparr>\<rparr>"
  show ?thesis
  proof (cases "schedules sr")
    case Nil
    then show ?thesis by (simp add: SchedInfoCallback_def GetSchedInfoMap_def Let_def)
  next
    case (Cons w m)
    obtain ok sr3 where "SerializeSchedInfo (env_alloc e) (env_le e) (w # m)
        (if sv_sched_info_changed (sr_service sr) then FreeSchedInfoBuf ?sr else ?sr) = Some (ok, sr3)"
      using ser by blast
    with Cons show ?thesis
      by (cases "sr_buf sr3") (simp_all add: SchedInfoCallback_def GetSchedInfoMap_def Let_def)
  qed
qed

lemma fetch_current:
  assumes c: "coherent e sr" and "plenty (env_alloc e)" and "sr_attached sr"
  shows "\<exists>sr'. SchedInfoCallback (env_alloc e) (env_le e) sr =
      Some (case schedules sr of
              [] \<Rightarrow> None
            | (w, nodes) # _ \<Rightarrow> Some (enc_schedule
                (case GetHyperperiodInfo (sv_hyperperiods (sr_service sr)) w of None \<Rightarrow> 0 | Some i \<Rightarrow> hi_hyperperiod_us i)
                (take 63 (cstr w)) (map node_task (concat (map snd nodes)))), sr')"
proof -
  obtain r sr' where f: "SchedInfoCallback (env_alloc e) (env_le e) sr = Some (r, sr')"
    using fetch_plenty [OF assms(2)] by blast
  note r = conjunct2 [OF fetch_coherent [OF c f]]
  show ?thesis
  proof (cases "schedules sr")
    case Nil
    with r f show ?thesis by simp
  next
    case (Cons a l)
    obtain w nodes where a: "a = (w, nodes)" by (cases a)
    let ?h = "case GetHyperperiodInfo (sv_hyperperiods (sr_service sr)) w of None \<Rightarrow> 0 | Some i \<Rightarrow> hi_hyperperiod_us i"
    have "(case hyperperiod_of sr w of None \<Rightarrow> 0 | Some h \<Rightarrow> h) = ?h"
      using assms(3) by (simp add: hyperperiod_of_def split: option.split)
    with packed_plenty [OF assms(2), of "env_le e" w nodes l sr] r assms(3) Cons a
    have "r = Some (enc_schedule ?h (take 63 (cstr w)) (map node_task (concat (map snd nodes))))" by auto
    with f Cons a show ?thesis by simp
  qed
qed

text \<open>
  C6. The cached buffer is never stale: whatever workloads were added and replaced, fetched,
  synchronised and reported before, a node that asks while the service is attached gets exactly the
  encoding of the schedule that is current at that moment, with the hyperperiod recorded for
  its workload, and nothing when no workload is scheduled; at most one workload is kept.
\<close>

theorem served_current:
  assumes "reachable e m sr" and "plenty (env_alloc e)" and "sr_attached sr"
  shows "length (sv_sched_info_map (sr_service sr)) \<le> 1 \<and>
    (\<exists>sr'. SchedInfoCallback (env_alloc e) (env_le e) sr =
      Some (case sv_sched_info_map (sr_service sr) of
              [] \<Rightarrow> None
            | (w, nodes) # _ \<Rightarrow> Some (enc_schedule
                (case GetHyperperiodInfo (sv_hyperperiods (sr_service sr)) w of None \<Rightarrow> 0 | Some i \<Rightarrow> hi_hyperperiod_us i)
                (take 63 (cstr w)) (map node_task (concat (map snd nodes)))), sr'))"
  using fetch_current [OF _ assms(2,3)] reachable_coherent [OF assms(1)] by (simp add: coherent_def)

text \<open>A run of the server with two Apex.OS workloads, the second of which replaces the first.\<close>

definition sample_environment :: environment where
  "sample_environment = \<lparr>env_alloc = zero_alloc, env_le = True, env_rnd = (\<lambda>x. x), env_sort = (\<lambda>ts. ts),
     env_malloc_ok = (\<lambda>n. True)\<rparr>"

definition sample_request :: "string \<Rightarrow> sched_request" where
  "sample_request n = \<lparr>rq_workload_id = ''Apex.OS'', rq_tasks =
     [\<lparr>gt_name = ''t'', gt_priority = 0, gt_policy = 0, gt_cpu_affinity = 1, gt_period = 10, gt_release_time = 0,
       gt_runtime = 2, gt_deadline = 10, gt_node_id = n, gt_max_dmiss = 3\<rparr>]\<rparr>"

definition sample_server :: "bool \<Rightarrow> string \<Rightarrow> server" where
  "sample_server changed n = SetSchedInfoServer True (new_server None)
     \<lparr>sr_service := (SchedInfoServiceImpl None)\<lparr>sv_sched_info_changed := changed,
        sv_scheduler := (if changed then clear (GlobalScheduler None) else GlobalScheduler None),
        sv_sched_info_map := [(''Apex.OS'', [(n, [apex_sched_task (hd (rq_tasks (sample_request n)))])])]\<rparr>\<rparr>"

lemma sample_add:
  "AddSchedInfo rnd srt (\<lambda>n. True) (sample_request n) (SchedInfoServiceImpl None) =
     Some (0, sr_service (sample_server False n))"
  "AddSchedInfo rnd srt (\<lambda>n. True) (sample_request n') (sr_service (sample_server False n)) =
     Some (0, sr_service (sample_server True n'))"
  by (simp_all add: AddSchedInfo_def drop_workload_def sample_request_def sample_server_def SchedInfoServiceImpl_def
      apex_schedule_def new_server_def SetSchedInfoServer_def ClearWorkload_def omap_at_def)

lemma sample_step:
  assumes "sr_service sr = sr_service (sample_server False ''a'')"
  shows "server_step sample_environment sr (sr\<lparr>sr_service := sr_service (sample_server True n)\<rparr>)"
proof (rule server_step.add)
  show "AddSchedInfo (env_rnd sample_environment) (env_sort sample_environment) (env_malloc_ok sample_environment)
      (sample_request n) (sr_service sr) = Some (0, sr_service (sample_server True n))"
    unfolding assms using sample_add(2) by (simp add: sample_environment_def)
qed

lemma sample_reachable: "reachable sample_environment None (sample_server True n)"
proof -
  let ?e = sample_environment and ?start = "SetSchedInfoServer True (new_server None)"
  have srv: "sr_service ?start = SchedInfoServiceImpl None" by (simp add: SetSchedInfoServer_def new_server_def)
  have upd: "sr\<lparr>sr_service := sr_service (sample_server c k)\<rparr> = sample_server c k"
    if "sr\<lparr>sr_service := SchedInfoServiceImpl None\<rparr> = ?start\<lparr>sr_service := SchedInfoServiceImpl None\<rparr>" for sr c k
    using arg_cong [OF that, of "\<lambda>sr. sr\<lparr>sr_service := sr_service (sample_server c k)\<rparr>"]
    by (simp add: sample_server_def)
  have same: "(sample_server False ''a'')\<lparr>sr_service := SchedInfoServiceImpl None\<rparr> = ?start\<lparr>sr_service := SchedInfoServiceImpl None\<rparr>"
    by (simp add: sample_server_def)
  have "(server_step ?e)\<^sup>*\<^sup>* (new_server None) ?start" using server_step.start by blast
  moreover have "AddSchedInfo (env_rnd ?e) (env_sort ?e) (env_malloc_ok ?e) (sample_request ''a'') (sr_service ?start) =
      Some (0, sr_service (sample_server False ''a''))"
    unfolding srv using sample_add(1) by (simp add: sample_environment_def)
  then have "server_step ?e ?start (sample_server False ''a'')"
    using server_step.add [of ?e "sample_request ''a''" ?start 0 "sr_service (sample_server False ''a'')"]
    unfolding upd [OF refl] by blast
  moreover have "server_step ?e (sample_server False ''a'') (sample_server True n)"
    using sample_step [of "sample_server False ''a''" n, OF refl] unfolding upd [OF same] .
  ultimately show ?thesis
    unfolding reachable_def by (blast intro: rtranclp.rtrancl_into_rtrancl)
qed

lemma served_current_witness:
  "\<exists>sr'. SchedInfoCallback zero_alloc True (sample_server True ''n'') =
     Some (Some (enc_schedule 0 ''Apex.OS'' [node_task (apex_sched_task (hd (rq_tasks (sample_request ''n''))))]), sr')"
proof -
  have "plenty (env_alloc sample_environment)" "sr_attached (sample_server True ''n'')"
    by (simp_all add: sample_environment_def sample_server_def SetSchedInfoServer_def)
  from served_current [OF sample_reachable this]
  show ?thesis
    by (simp add: sample_environment_def sample_server_def SchedInfoServiceImpl_def GetHyperperiodInfo_def cstr_def)
qed

section \<open>What a request puts into the service\<close>

definition service_ok :: "node_config_manager option \<Rightarrow> service \<Rightarrow> bool" where
  "service_ok m sv \<longleftrightarrow> gs_manager (sv_scheduler sv) = m \<and> omap_ok (sv_hyperperiods sv)"

lemma clear_manager [simp]: "gs_manager (clear gs) = gs_manager gs" "gs_manager (set_tasks ts gs) = gs_manager gs"
  by (simp_all add: clear_def cleanup_schedules_def set_tasks_def)

lemma hyperperiods_ok:
  "omap_ok m \<Longrightarrow> omap_ok (ClearWorkload w m)"
  "omap_ok m \<Longrightarrow> omap_ok (snd (CalculateHyperperiod w ts m))"
  by (auto simp: ClearWorkload_def CalculateHyperperiod_def Let_def intro: sm.ok_put sm.ok_erase split: option.split)

lemma drop_workload_ok: "service_ok m sv \<Longrightarrow> service_ok m (drop_workload sv)"
  by (auto simp: service_ok_def drop_workload_def hyperperiods_ok split: list.split)

lemma AddSchedInfo_service_ok:
  assumes "AddSchedInfo rnd srt mok request sv = Some (status, sv')" and "service_ok m sv"
  shows "service_ok m sv'"
proof -
  note d = drop_workload_ok [OF assms(2)]
  let ?w = "rq_workload_id request" and ?ts = "ConvertTaskInfoToTasks request"
  obtain h hs where h: "CalculateHyperperiod ?w ?ts (sv_hyperperiods (drop_workload sv)) = (h, hs)" by fastforce
  have "omap_ok hs" using hyperperiods_ok(2) [of "sv_hyperperiods (drop_workload sv)" ?w ?ts] d h by (simp add: service_ok_def)
  with d assms(1) h show ?thesis
    by (auto simp: AddSchedInfo_def Let_def service_ok_def dest!: manager_unchanged split: if_splits option.splits)
qed

lemma step_service_ok: "server_step e sr sr' \<Longrightarrow> service_ok m (sr_service sr) \<Longrightarrow> service_ok m (sr_service sr')"
proof (induction rule: server_step.induct)
  case (add request sr status sv)
  then show ?case using AddSchedInfo_service_ok by simp
next
  case (fetch sr r sr')
  then show ?case
    by (auto simp: SchedInfoCallback_def SerializeSchedInfo_def FreeSchedInfoBuf_def GetSchedInfoMap_def Let_def service_ok_def
        split: if_splits option.splits)
qed (auto simp: SyncCallback_server_def DMissCallback_def SetSchedInfoServer_def FreeSchedInfoBuf_def Let_def split: prod.splits)

lemma reachable_service_ok: "reachable e m sr \<Longrightarrow> service_ok m (sr_service sr)"
  unfolding reachable_def
proof (induction rule: rtranclp_induct)
  case base
  show ?case
    by (simp add: service_ok_def new_server_def SchedInfoServiceImpl_def GlobalScheduler_def Let_def
        initialize_cpu_utilization_tracking_def initialize_available_cpus_def split: option.split)
next
  case (step y z)
  then show ?case using step_service_ok by blast
qed

text \<open>A request that can be scheduled is accepted, and its schedule is the only one that is kept.\<close>

lemma AddSchedInfo_accepts:
  fixes request
  defines "w \<equiv> rq_workload_id request" and "ts \<equiv> ConvertTaskInfoToTasks request"
  assumes sv: "service_ok (Some m) sv" and m: "IsLoaded m" "omap_ok (ncm_nodes m)" "cpus_nonneg (configured m)"
    and mok: "\<forall>n. malloc_ok n" and w: "w \<noteq> ''Apex.OS''"
    and P: "workload_periods w ts \<noteq> {}" "Lcm (workload_periods w ts) < 2 ^ 64"
    and placed: "\<exists>t\<in>set (spec_tasks rnd (configured m) ts). ot_assigned_node t \<noteq> []"
  shows "\<exists>sv' info. AddSchedInfo rnd srt malloc_ok request sv = Some (0, sv') \<and>
    sv_sched_info_map sv' = [(w, schedules_of (spec_tasks rnd (configured m) ts))] \<and>
    GetHyperperiodInfo (sv_hyperperiods sv') w = Some info \<and> unat (hi_hyperperiod_us info) = Lcm (workload_periods w ts)"
proof -
  let ?sv = "drop_workload sv"
  let ?gs = "set_tasks ts (clear (sv_scheduler ?sv))"
  note hp = CalculateHyperperiod_run [OF P]
  have d: "service_ok (Some m) ?sv" "sv_sched_info_map ?sv = []"
    using drop_workload_ok [OF sv] by (auto simp: drop_workload_def split: list.split)
  have "ts \<noteq> []" using P(1) by auto
  then have "ready ?gs m"
    using d(1) m by (auto simp: ready_def service_ok_def set_tasks_def fresh_def ts_def ConvertTaskInfoToTasks_def convert_task_def)
  moreover have "gs_tasks ?gs = ts" by (simp add: set_tasks_def)
  ultimately obtain gs' where
    run: "schedule rnd srt malloc_ok ''target_node_priority'' ?gs = Some (gs_sched_info_map gs' \<noteq> [], gs')"
      "gs_sched_info_map gs' = schedules_of (spec_tasks rnd (configured m) ts)"
    using schedule_target [OF _ m(3) mok, of ?gs rnd srt] by auto
  from placed obtain t where t: "t \<in> set (spec_tasks rnd (configured m) ts)" "ot_assigned_node t \<noteq> []" by blast
  have "on_node (ot_assigned_node t) (spec_tasks rnd (configured m) ts) \<noteq> []" using t(1) by (auto simp: filter_empty_conv)
  then have ne: "schedules_of (spec_tasks rnd (configured m) ts) \<noteq> []"
    using t(2) schedules_of_find [of "spec_tasks rnd (configured m) ts" "ot_assigned_node t"] by auto
  show ?thesis
    using d w ne hp run by (simp add: AddSchedInfo_def Let_def w_def [symmetric] ts_def [symmetric] service_ok_def GetHyperperiodInfo_def sm.get_put)
qed

section \<open>The barrier after a replacement\<close>

lemma SyncCallback_keys:
  "m \<noteq> [] \<Longrightarrow> map fst (snd (SyncCallback nodes name now m)) = map fst m"
  by (auto simp: SyncCallback_def Let_def)

lemma step_barrier:
  assumes "server_step e sr sr'" and "sr_node_sync_map sr \<noteq> []"
  shows "map fst (sr_node_sync_map sr') = map fst (sr_node_sync_map sr)"
  using assms
proof (induction rule: server_step.induct)
  case (fetch sr r sr')
  then show ?case
    by (auto simp: SchedInfoCallback_def SerializeSchedInfo_def FreeSchedInfoBuf_def GetSchedInfoMap_def Let_def
        split: if_splits option.splits)
next
  case (sync name now sr r sr')
  then show ?case
    using SyncCallback_keys [of "sr_node_sync_map sr" "sync_nodes sr" name now]
    by (auto simp: SyncCallback_server_def split: prod.splits)
qed (auto simp: DMissCallback_def SetSchedInfoServer_def FreeSchedInfoBuf_def Let_def)

lemma steps_barrier:
  assumes "(server_step e)\<^sup>*\<^sup>* sr sr'" and "sr_node_sync_map sr \<noteq> []"
  shows "map fst (sr_node_sync_map sr') = map fst (sr_node_sync_map sr)"
  using assms
proof (induction rule: rtranclp_induct)
  case (step y z)
  then have "sr_node_sync_map y \<noteq> []" by (metis list.map_disc_iff)
  with step step_barrier [of e y z] show ?case by simp
qed simp

text \<open>
  C37. The barrier is built once: as soon as it has entries, a node that is not among them is never
  acknowledged again, in whatever order workloads are replaced, schedules fetched, nodes
  synchronised and the service detached and attached afterwards. In particular a node that appears
  only in a later workload waits for its start without end.
\<close>

theorem stale_barrier:
  assumes "(server_step e)\<^sup>*\<^sup>* sr sr'" and "sr_node_sync_map sr \<noteq> []" and "name \<notin> fst ` set (sr_node_sync_map sr)"
  shows "SyncCallback_server name now sr' = ((0, None), sr')"
proof -
  have "fst ` set (sr_node_sync_map sr') = fst ` set (sr_node_sync_map sr)"
    using steps_barrier [OF assms(1,2)] by (metis set_map)
  moreover have "sr_node_sync_map sr' \<noteq> []" using steps_barrier [OF assms(1,2)] assms(2) by auto
  ultimately show ?thesis using assms(3) by (simp add: SyncCallback_server_def SyncCallback_def)
qed

lemma stale_barrier_witness:
  "\<exists>sr. (server_step sample_environment)\<^sup>*\<^sup>* (snd (SyncCallback_server ''a'' (Timespec 1 0) (sample_server False ''a''))) sr \<and>
     sync_nodes sr = [''b''] \<and> SyncCallback_server ''b'' (Timespec 5 0) sr = ((0, None), sr)"
proof -
  let ?e = sample_environment and ?s = "snd (SyncCallback_server ''a'' (Timespec 1 0) (sample_server False ''a''))"
  let ?t = "?s\<lparr>sr_service := sr_service (sample_server True ''b'')\<rparr>"
  have m: "sr_node_sync_map ?s = [(''a'', True)]" and v: "sr_service ?s = sr_service (sample_server False ''a'')"
    by (simp_all add: SyncCallback_server_def SyncCallback_def sample_server_def sync_nodes_def GetSchedInfoMap_def
        SetSchedInfoServer_def new_server_def)
  have "server_step ?e ?s ?t" by (rule sample_step [OF v])
  then have s: "(server_step ?e)\<^sup>*\<^sup>* ?s ?t" by blast
  have "SyncCallback_server ''b'' (Timespec 5 0) ?t = ((0, None), ?t)"
    by (rule stale_barrier [OF s]) (simp_all add: m)
  moreover have "sync_nodes ?t = [''b'']"
    by (simp add: SyncCallback_server_def SyncCallback_def sample_server_def sync_nodes_def GetSchedInfoMap_def
        SetSchedInfoServer_def new_server_def)
  ultimately show ?thesis using s by blast
qed

section \<open>Affinities and misses\<close>

text \<open>The CPU that a task is pinned to is the highest bit of its affinity.\<close>

lemma affinity_loop_highest:
  assumes "2 ^ k \<le> unat a" and "unat a < 2 ^ Suc k"
  shows "affinity_loop a c = c + int k"
  using assms
proof (induction k arbitrary: a c)
  case 0
  then have "\<not> 1 < a" by (simp add: word_less_nat_alt)
  then show ?case by (subst affinity_loop.simps) simp
next
  case (Suc k)
  have "1 < unat a" using Suc.prems(1) by (metis one_less_numeral_iff one_less_power order_less_le_trans semiring_norm(76) zero_less_Suc)
  then have "1 < a" by (simp add: word_less_nat_alt)
  moreover have "unat (drop_bit 1 a) = unat a div 2" by (simp add: drop_bit_eq_div unat_div)
  then have "affinity_loop (drop_bit 1 a) (c + 1) = c + 1 + int k" using Suc.prems by (intro Suc.IH) auto
  ultimately show ?case by (subst affinity_loop.simps) simp
qed

text \<open>A miss is attributed to a workload that has the task on the node, if there is one.\<close>

lemma miss_workload_found:
  assumes "(w, nodes) \<in> set m" and "has_task name task nodes"
  shows "\<exists>nodes'. (miss_workload name task m, nodes') \<in> set m \<and> has_task name task nodes'"
proof -
  obtain x where "find (\<lambda>(wl_id, nodes). has_task name task nodes) m = Some x"
    using assms by (cases "find (\<lambda>(wl_id, nodes). has_task name task nodes) m") (auto simp: find_None_iff)
  moreover then have "x \<in> set m \<and> has_task name task (snd x)" by (auto simp: find_Some_iff case_prod_beta)
  ultimately show ?thesis by (cases x) (auto simp: miss_workload_def)
qed

end
