(* ===== verification/Getopt.thy ===== *)
theory Getopt
  imports Timpani_Prelude
begin

text \<open>
  Splitting of a command line the way the GNU C library's \<^verbatim>\<open>getopt\<close> and \<^verbatim>\<open>getopt_long\<close> do it: options may follow
  operands, \<open>--\<close> ends them, an option and its argument may share a word, and a long option may be
  shortened to a prefix that no other one has.
\<close>

section \<open>Short options\<close>

datatype opt_kind = Opt_flag | Opt_arg | Opt_unknown

fun kind_of_opt :: "string \<Rightarrow> char \<Rightarrow> opt_kind" where
  "kind_of_opt [] c = Opt_unknown"
| "kind_of_opt (d # ds) c =
     (if d = c \<and> c \<noteq> CHR '':'' then (case ds of (e # _) \<Rightarrow> if e = CHR '':'' then Opt_arg else Opt_flag | [] \<Rightarrow> Opt_flag)
      else kind_of_opt ds c)"

text \<open>
  The options in one word after its dash, and the words left over. An unknown option and one
  whose argument is missing are reported as the option \<^verbatim>\<open>?\<close>.
\<close>

fun getopt_word :: "string \<Rightarrow> string \<Rightarrow> string list \<Rightarrow> (char \<times> string option) list \<times> string list" where
  "getopt_word spec [] rest = ([], rest)"
| "getopt_word spec (c # cs) rest =
     (case kind_of_opt spec c of
        Opt_flag \<Rightarrow> (let (os, r) = getopt_word spec cs rest in ((c, None) # os, r))
      | Opt_unknown \<Rightarrow> (let (os, r) = getopt_word spec cs rest in ((CHR ''?'', None) # os, r))
      | Opt_arg \<Rightarrow>
          if cs \<noteq> [] then ([(c, Some cs)], rest)
          else (case rest of [] \<Rightarrow> ([(CHR ''?'', None)], []) | a # as \<Rightarrow> ([(c, Some a)], as)))"

lemma getopt_word_rest: "length (snd (getopt_word spec cs rest)) \<le> length rest"
  by (induction spec cs rest rule: getopt_word.induct)
    (auto split: opt_kind.splits list.splits prod.splits)

text \<open>The options in order and the operands in order.\<close>

function getopt :: "string \<Rightarrow> string list \<Rightarrow> (char \<times> string option) list \<times> string list" where
  "getopt spec [] = ([], [])"
| "getopt spec (a # as) =
     (if a = ''--'' then ([], as)
      else if hd (a @ [NUL]) = CHR ''-'' \<and> 1 < length a
      then (let (os, rest) = getopt_word spec (tl a) as; (os', ops) = getopt spec rest in (os @ os', ops))
      else (let (os, ops) = getopt spec as in (os, a # ops)))"
  by pat_completeness auto
termination
proof (relation "measure (\<lambda>(spec, as). length as)", goal_cases)
  case (2 spec a as x os rest)
  then have "rest = snd (getopt_word spec (tl a) as)" by (metis snd_conv)
  then show ?case using getopt_word_rest [of spec "tl a" as] by simp
qed auto

section \<open>Long options\<close>

record long_option =
  lo_name :: string
  lo_arg :: bool
  lo_val :: char

text \<open>The exact name wins; otherwise all options with this prefix have to agree.\<close>

definition long_match :: "long_option list \<Rightarrow> string \<Rightarrow> long_option option" where
  "long_match longs name =
     (case find (\<lambda>lo. lo_name lo = name) longs of
        Some lo \<Rightarrow> Some lo
      | None \<Rightarrow>
          (case filter (\<lambda>lo. take (length name) (lo_name lo) = name) longs of
             [] \<Rightarrow> None
           | lo # los \<Rightarrow> if list_all (\<lambda>p. lo_arg p = lo_arg lo \<and> lo_val p = lo_val lo) los then Some lo else None))"

text \<open>The part of a word before the first \<open>=\<close>, and the part behind it.\<close>

definition split_eq :: "string \<Rightarrow> string \<times> string option" where
  "split_eq s =
     (case dropWhile (\<lambda>c. c \<noteq> CHR ''='') s of
        [] \<Rightarrow> (s, None)
      | _ # v \<Rightarrow> (takeWhile (\<lambda>c. c \<noteq> CHR ''='') s, Some v))"

definition getopt_long_word :: "long_option list \<Rightarrow> string \<Rightarrow> string list \<Rightarrow> (char \<times> string option) list \<times> string list" where
  "getopt_long_word longs w rest =
     (case split_eq w of (name, v) \<Rightarrow>
        (case long_match longs name of
           None \<Rightarrow> ([(CHR ''?'', None)], rest)
         | Some lo \<Rightarrow>
             if \<not> lo_arg lo then (if v = None then ([(lo_val lo, None)], rest) else ([(CHR ''?'', None)], rest))
             else (case v of
                     Some x \<Rightarrow> ([(lo_val lo, Some x)], rest)
                   | None \<Rightarrow> (case rest of [] \<Rightarrow> ([(CHR ''?'', None)], []) | a # as \<Rightarrow> ([(lo_val lo, Some a)], as)))))"

lemma getopt_long_word_rest: "length (snd (getopt_long_word longs w rest)) \<le> length rest"
  by (auto simp: getopt_long_word_def split: prod.split option.split list.split)

function getopt_long ::
  "string \<Rightarrow> long_option list \<Rightarrow> string list \<Rightarrow> (char \<times> string option) list \<times> string list" where
  "getopt_long spec longs [] = ([], [])"
| "getopt_long spec longs (a # as) =
     (if a = ''--'' then ([], as)
      else if take 2 a = ''--''
      then (let (os, rest) = getopt_long_word longs (drop 2 a) as; (os', ops) = getopt_long spec longs rest in (os @ os', ops))
      else if take 1 a = ''-'' \<and> 1 < length a
      then (let (os, rest) = getopt_word spec (tl a) as; (os', ops) = getopt_long spec longs rest in (os @ os', ops))
      else (let (os, ops) = getopt_long spec longs as in (os, a # ops)))"
  by pat_completeness auto
termination
proof (relation "measure (\<lambda>(spec, longs, as). length as)", goal_cases)
  case (2 spec longs a as x os rest)
  then have "rest = snd (getopt_long_word longs (drop 2 a) as)" by (metis snd_conv)
  then show ?case using getopt_long_word_rest [of longs "drop 2 a" as] by simp
next
  case (3 spec longs a as x os rest)
  then have "rest = snd (getopt_word spec (tl a) as)" by (metis snd_conv)
  then show ?case using getopt_word_rest [of spec "tl a" as] by simp
qed auto

end
