(* ===== verification/Orchestrator_Main.thy ===== *)
theory Orchestrator_Main
  imports Orchestrator_Server Getopt
begin

text \<open>
  The program of the orchestrator (\<^verbatim>\<open>timpani-o/src/main.cpp\<close>): the command line, the start and stop of the
  workload service (\<^verbatim>\<open>schedinfo_service.cpp\<close>) and of the server for the nodes (\<^verbatim>\<open>dbus_server.cpp\<close>) with the
  thread of its event loop, the fault client, and the logger (\<^verbatim>\<open>tlog.h\<close>). The lemmas show that every exit
  releases what was acquired, and what the event loop does.
\<close>

section \<open>The logger\<close>

datatype LogLevel = NONE | ERROR | WARN | INFO | DEBUG

primrec level_value :: "LogLevel \<Rightarrow> int" where
  "level_value NONE = -1"
| "level_value ERROR = 0"
| "level_value WARN = 1"
| "level_value INFO = 2"
| "level_value DEBUG = 3"

record Logger =
  lg_level :: LogLevel
  lg_print_filename :: bool
  lg_full_timestamp :: bool

definition Logger0 :: Logger where
  "Logger0 = \<lparr>lg_level = INFO, lg_print_filename = False, lg_full_timestamp = False\<rparr>"

definition SetLogLevel :: "LogLevel \<Rightarrow> Logger \<Rightarrow> Logger" where
  "SetLogLevel level lg = lg\<lparr>lg_level := level\<rparr>"

definition SetPrintFileName :: "bool \<Rightarrow> Logger \<Rightarrow> Logger" where
  "SetPrintFileName enable lg = lg\<lparr>lg_print_filename := enable\<rparr>"

definition SetFullTimestamp :: "bool \<Rightarrow> Logger \<Rightarrow> Logger" where
  "SetFullTimestamp enable lg = lg\<lparr>lg_full_timestamp := enable\<rparr>"

definition LogLevelToStr :: "LogLevel \<Rightarrow> string" where
  "LogLevelToStr level =
     (case level of ERROR \<Rightarrow> ''E'' | WARN \<Rightarrow> ''W'' | INFO \<Rightarrow> ''I'' | DEBUG \<Rightarrow> ''D'' | NONE \<Rightarrow> ''U'')"

text \<open>The loop over the path; \<open>base\<close> is what follows the last separator so far.\<close>

primrec base_loop :: "string \<Rightarrow> string \<Rightarrow> string" where
  "base_loop base [] = base"
| "base_loop base (c # cs) = base_loop (if c = CHR ''/'' \<or> c = CHR 0x5C then cs else base) cs"

definition GetBaseFileName :: "string \<Rightarrow> string" where
  "GetBaseFileName file_path = base_loop file_path file_path"

text \<open>
  The text of the time of day, \<open>date\<close> being the day and \<open>clock\<close> the time in seconds as the C library formats
  them.
\<close>

definition GetCurTimestamp :: "string \<Rightarrow> string \<Rightarrow> nat \<Rightarrow> Logger \<Rightarrow> string" where
  "GetCurTimestamp date clock ms lg =
     (if lg_full_timestamp lg then date @ '' '' @ clock else clock) @ ''.'' @
     (let d = decimal (ms mod 1000) in replicate (3 - length d) (CHR ''0'') @ d)"

text \<open>The line that is written, if any; \<open>args\<close> are the texts of the arguments.\<close>

definition Log :: "string \<Rightarrow> LogLevel \<Rightarrow> string \<Rightarrow> int \<Rightarrow> string list \<Rightarrow> Logger \<Rightarrow> string option" where
  "Log timestamp level file line args lg =
     (if level_value level > level_value (lg_level lg) then None
      else Some (timestamp @ '' ['' @ LogLevelToStr level @ ''] '' @
        (if lg_print_filename lg then ''['' @ GetBaseFileName file @ '':'' @ std_to_string line @ ''] '' else []) @
        concat args @ [CHR 0x0A]))"

text \<open>\<open>formatted\<close> is the result of \<^verbatim>\<open>vsnprintf\<close>, \<open>None\<close> when it fails.\<close>

definition Logf :: "string \<Rightarrow> LogLevel \<Rightarrow> string \<Rightarrow> int \<Rightarrow> string option \<Rightarrow> Logger \<Rightarrow> string option" where
  "Logf timestamp level file line formatted lg =
     (if level_value level > level_value (lg_level lg) then None
      else case formatted of
             None \<Rightarrow> None
           | Some text \<Rightarrow>
               Some (timestamp @ '' ['' @ LogLevelToStr level @ ''] '' @
                 ''['' @ GetBaseFileName file @ '':'' @ std_to_string line @ ''] '' @ text @ [CHR 0x0A]))"

section \<open>The workload service\<close>

text \<open>
  Whether there is a gRPC server, and whether its thread can be joined. A thread that cannot be started
  raises an exception that nobody catches, and so does the assignment over one that can still be joined:
  \<open>None\<close>, the end of the program by \<^verbatim>\<open>std::terminate\<close>.
\<close>

record sinfo_server =
  si_server :: bool
  si_thread :: bool

definition SchedInfoServer_Start :: "int \<Rightarrow> sinfo_server \<Rightarrow> (bool \<times> sinfo_server) option io" where
  "SchedInfoServer_Start port si = do {
     a \<leftarrow> grpc (Build_and_start (''0.0.0.0'' @ '':'' @ std_to_string port));
     if ret a = 0 then return_io (Some (False, si\<lparr>si_server := False\<rparr>))
     else do {
       t \<leftarrow> kern (Thread_create ''SchedInfoServer'');
       if ret t \<noteq> 0 \<or> si_thread si then return_io None
       else return_io (Some (True, si\<lparr>si_server := True, si_thread := True\<rparr>))
     }
   }"

definition SchedInfoServer_Stop :: "sinfo_server \<Rightarrow> sinfo_server io" where
  "SchedInfoServer_Stop si = do {
     (if si_server si then do { _ \<leftarrow> grpc Shutdown; return_io () } else return_io ());
     if si_thread si then do { _ \<leftarrow> kern (Thread_join ''SchedInfoServer''); return_io (si\<lparr>si_thread := False\<rparr>) }
     else return_io si
   }"

section \<open>The server for the nodes\<close>

record dbus_server =
  db_server :: server
  db_event :: bool
  db_event_source :: bool
  db_event_thread :: bool
  db_server_fd :: int
  db_running :: bool

definition DBusServer0 :: "server \<Rightarrow> dbus_server" where
  "DBusServer0 sr = \<lparr>db_server = sr, db_event = False, db_event_source = False, db_event_thread = False,
     db_server_fd = -1, db_running = False\<rparr>"

text \<open>
  The thread of the event loop reads \<^verbatim>\<open>running_\<close> while the other threads go on: a store to it is a call of
  its own (\<open>Atomic_store\<close>), so that its place among the other steps can be seen.
\<close>

definition join_event_thread :: "dbus_server \<Rightarrow> dbus_server io" where
  "join_event_thread d =
     (if db_running d
      then do {
        _ \<leftarrow> kern (Atomic_store ''running_'' False);
        if db_event_thread d
        then do { _ \<leftarrow> kern (Thread_join ''EventLoop''); return_io (d\<lparr>db_running := False, db_event_thread := False\<rparr>) }
        else return_io (d\<lparr>db_running := False\<rparr>)
      }
      else return_io d)"

definition release_events :: "dbus_server \<Rightarrow> dbus_server io" where
  "release_events d = do {
     (if db_event_source d then do { _ \<leftarrow> bus Event_source_unref; return_io () } else return_io ());
     (if db_event d then do { _ \<leftarrow> bus Event_unref; return_io () } else return_io ());
     (if db_server_fd d \<ge> 0 then do { _ \<leftarrow> kern (Close (db_server_fd d)); return_io () } else return_io ());
     return_io (d\<lparr>db_event_source := False, db_event := False,
       db_server_fd := (if db_server_fd d \<ge> 0 then -1 else db_server_fd d)\<rparr>)
   }"

definition DBusServer_Stop :: "dbus_server \<Rightarrow> dbus_server io" where
  "DBusServer_Stop d = do {
     d1 \<leftarrow> join_event_thread d;
     release_events (d1\<lparr>db_server := SetSchedInfoServer False (FreeSchedInfoBuf (db_server d1))\<rparr>)
   }"

text \<open>
  The start up to the creation of the thread, and then the store that lets the event loop run. The
  outcome \<open>None\<close> is the exception of a thread that cannot be started.
\<close>

definition start_event_thread :: "dbus_server \<Rightarrow> (bool \<times> dbus_server) option io" where
  "start_event_thread d = do {
     t \<leftarrow> kern (Thread_create ''EventLoop'');
     if ret t \<noteq> 0 then return_io None
     else do {
       let d1 = d\<lparr>db_event_thread := True\<rparr>;
       if \<not> db_event_thread d1 then do { d2 \<leftarrow> DBusServer_Stop d1; return_io (Some (False, d2)) }
       else do {
         _ \<leftarrow> kern (Atomic_store ''running_'' True);
         return_io (Some (True, d1\<lparr>db_running := True\<rparr>))
       }
     }
   }"

definition DBusServer_Start :: "int \<Rightarrow> bool \<Rightarrow> dbus_server \<Rightarrow> (bool \<times> dbus_server) option io" where
  "DBusServer_Start port attached d =
     (if db_running d then return_io (Some (False, d))
      else do {
        a \<leftarrow> bus Event_new;
        if ret a < 0 then return_io (Some (False, d))
        else do {
          let d1 = d\<lparr>db_event := True\<rparr>;
          (fd, _) \<leftarrow> trpc_server_create port;
          if fd < 0 then do { d2 \<leftarrow> DBusServer_Stop d1; return_io (Some (False, d2)) }
          else start_event_thread (d1\<lparr>db_event_source := True, db_server_fd := fd,
            db_server := SetSchedInfoServer attached (db_server d1)\<rparr>)
        }
      })"

text \<open>
  The event loop, which runs in the thread: \<open>flags\<close> are the values of \<^verbatim>\<open>running_\<close> that it reads. It has
  returned with \<open>Some\<close>.
\<close>

primrec EventLoop :: "bool list \<Rightarrow> unit option io" where
  "EventLoop [] = return_io None"
| "EventLoop (running # flags) =
     (if running then do {
        a \<leftarrow> bus (Event_run 100000);
        if ret a < 0 \<and> ret a \<noteq> - EAGAIN \<and> ret a \<noteq> - EINTR then return_io (Some ())
        else EventLoop flags
      }
      else return_io (Some ()))"

section \<open>Command line\<close>

record options =
  op_sinfo_port :: int
  op_fault_addr :: string
  op_fault_port :: int
  op_dbus_port :: int
  op_notify_fault :: bool
  op_node_config_file :: string

definition options0 :: options where
  "options0 = \<lparr>op_sinfo_port = 50052, op_fault_addr = ''localhost'', op_fault_port = 50053, op_dbus_port = 7777,
     op_notify_fault = False, op_node_config_file = []\<rparr>"

definition long_opts :: "long_option list" where
  "long_opts = map (\<lambda>(n, a, v). \<lparr>lo_name = n, lo_arg = a, lo_val = v\<rparr>)
     [(''help'', False, CHR ''h''), (''sinfoport'', True, CHR ''s''), (''faulthost'', True, CHR ''f''),
      (''faultport'', True, CHR ''p''), (''dbusport'', True, CHR ''d''), (''notifyfault'', False, CHR ''n''),
      (''node-config'', True, CHR ''c'')]"

text \<open>What ends the reading of the options: the usage text, or an exception of \<^verbatim>\<open>std::stoi\<close>.\<close>

datatype option_end = Usage | Exception

definition take_option :: "char \<Rightarrow> string \<Rightarrow> options \<Rightarrow> option_end + options" where
  "take_option opt optarg os =
     (let port = (\<lambda>f. case stoi optarg of None \<Rightarrow> Inl Exception | Some v \<Rightarrow> Inr (f v))
      in if opt = CHR ''s'' then port (\<lambda>v. os\<lparr>op_sinfo_port := v\<rparr>)
         else if opt = CHR ''f'' then Inr (os\<lparr>op_fault_addr := optarg\<rparr>)
         else if opt = CHR ''p'' then port (\<lambda>v. os\<lparr>op_fault_port := v\<rparr>)
         else if opt = CHR ''d'' then port (\<lambda>v. os\<lparr>op_dbus_port := v\<rparr>)
         else if opt = CHR ''n'' then Inr (os\<lparr>op_notify_fault := True\<rparr>)
         else if opt = CHR ''c'' then Inr (os\<lparr>op_node_config_file := optarg\<rparr>)
         else Inl Usage)"

primrec take_options :: "(char \<times> string option) list \<Rightarrow> options \<Rightarrow> option_end + options" where
  "take_options [] os = Inr os"
| "take_options (x # xs) os =
     (case take_option (fst x) (case snd x of None \<Rightarrow> [] | Some v \<Rightarrow> v) os of
        Inl e \<Rightarrow> Inl e
      | Inr os' \<Rightarrow> take_options xs os')"

definition GetOptions :: "string list \<Rightarrow> options \<Rightarrow> option_end + options" where
  "GetOptions args os = take_options (fst (getopt_long ''hs:f:p:d:nc:'' long_opts args)) os"

section \<open>main\<close>

definition RunSchedInfoServer :: "int \<Rightarrow> (bool \<times> sinfo_server) option io" where
  "RunSchedInfoServer port = SchedInfoServer_Start port \<lparr>si_server = False, si_thread = False\<rparr>"

definition InitFaultClient :: "string \<Rightarrow> int \<Rightarrow> fault_client \<Rightarrow> (bool \<times> fault_client) io" where
  "InitFaultClient addr port c = do {
     let piccolo_addr = addr @ '':'' @ std_to_string port;
     if fc_initialized c then return_io (Initialize False False piccolo_addr c)
     else do {
       a \<leftarrow> grpc (Create_channel piccolo_addr);
       if ret a = 0 then return_io (Initialize False False piccolo_addr c)
       else do {
         b \<leftarrow> grpc New_stub;
         return_io (Initialize True (ret b \<noteq> 0) piccolo_addr c)
       }
     }
   }"

text \<open>The call of the fault service, which is not made before the client is initialised.\<close>

definition notify_fault_io :: "fault_info \<Rightarrow> fault_client \<Rightarrow> bool io" where
  "notify_fault_io info c =
     (if \<not> fc_initialized c then return_io (NotifyFault (\<lambda>_. (False, 0)) info c)
      else do {
        a \<leftarrow> grpc (Notify_fault (fi_workload_id info) (fi_node_id info) (fi_task_name info) (fi_type info));
        return_io (NotifyFault (\<lambda>_. (ret a = 0, out_ack a)) info c)
      })"

definition NotifyFaultDemo :: "fault_client \<Rightarrow> bool io" where
  "NotifyFaultDemo c =
     notify_fault_io \<lparr>fi_workload_id = ''workload_demo'', fi_node_id = ''node_demo'', fi_task_name = ''task_demo'', fi_type = DMISS\<rparr> c"

definition RunDBusServer :: "int \<Rightarrow> dbus_server \<Rightarrow> (bool \<times> dbus_server) option io" where
  "RunDBusServer port d = DBusServer_Start port True d"

primrec main_loop :: "nat \<Rightarrow> fault_client \<Rightarrow> bool \<Rightarrow> bool io" where
  "main_loop 0 c notify_fault = return_io notify_fault"
| "main_loop (Suc rounds) c notify_fault = do {
     _ \<leftarrow> kern (Sleep_for 10);
     if notify_fault then do {
       ok \<leftarrow> NotifyFaultDemo c;
       main_loop rounds c (if ok then False else notify_fault)
     }
     else main_loop rounds c notify_fault
   }"

text \<open>
  The program ends with an exit code or by \<^verbatim>\<open>std::terminate\<close>, or it is still serving after the given
  number of rounds of its loop.
\<close>

datatype run_end = Exited int | Terminated | Serving dbus_server fault_client bool

text \<open>The configuration file, which is not read when no name is given.\<close>

definition load_config :: "string \<Rightarrow> node_config_manager \<Rightarrow> node_config_manager option io" where
  "load_config file m =
     (if file = [] then return_io (Some m)
      else do {
        f \<leftarrow> kern (Fopen file ''r'');
        return_io (map_option snd (LoadFromFile (if ret f = 0 then None else Some (out_text f)) m))
      })"

text \<open>
  A return from \<^verbatim>\<open>main\<close> destroys the workload service; the server for the nodes, once it has been
  used, is destroyed when the program exits.
\<close>

definition leave :: "sinfo_server \<Rightarrow> dbus_server option \<Rightarrow> run_end io" where
  "leave si d = do {
     _ \<leftarrow> SchedInfoServer_Stop si;
     (case d of None \<Rightarrow> return_io () | Some d \<Rightarrow> do { _ \<leftarrow> DBusServer_Stop d; return_io () });
     return_io (Exited EXIT_FAILURE)
   }"

definition serve :: "nat \<Rightarrow> options \<Rightarrow> node_config_manager \<Rightarrow> sinfo_server \<Rightarrow> run_end io" where
  "serve rounds os m si = do {
     (ok, c) \<leftarrow> InitFaultClient (op_fault_addr os) (op_fault_port os) \<lparr>fc_initialized = False\<rparr>;
     if \<not> ok then leave si None
     else do {
       r \<leftarrow> RunDBusServer (op_dbus_port os) (DBusServer0 (new_server (Some m)));
       (case r of
          None \<Rightarrow> return_io Terminated
        | Some (ok, d) \<Rightarrow>
            if \<not> ok then leave si (Some d)
            else do {
              n \<leftarrow> main_loop rounds c (op_notify_fault os);
              return_io (Serving d c n)
            })
     }
   }"

definition orchestrator_main :: "nat \<Rightarrow> string list \<Rightarrow> run_end io" where
  "orchestrator_main rounds args =
     (case GetOptions args options0 of
        Inl Usage \<Rightarrow> return_io (Exited EXIT_FAILURE)
      | Inl Exception \<Rightarrow> return_io Terminated
      | Inr os \<Rightarrow> do {
          m \<leftarrow> load_config (op_node_config_file os) \<lparr>ncm_nodes = [], ncm_loaded = False\<rparr>;
          (case m of
             None \<Rightarrow> return_io Terminated
           | Some m \<Rightarrow> do {
               r \<leftarrow> RunSchedInfoServer (op_sinfo_port os);
               (case r of
                  None \<Rightarrow> return_io Terminated
                | Some (ok, si) \<Rightarrow> if \<not> ok then leave si None else serve rounds os m si)
             })
        })"


section \<open>What is acquired and released\<close>

datatype handle = Event_handle | Server_handle | Thread_handle

definition opens :: "handle \<Rightarrow> call \<Rightarrow> answer \<Rightarrow> bool" where
  "opens h c a \<longleftrightarrow>
     (case h of
        Event_handle \<Rightarrow> c = Bus Event_new \<and> ret a \<ge> 0
      | Server_handle \<Rightarrow> (case c of Grpc (Build_and_start x) \<Rightarrow> ret a \<noteq> 0 | _ \<Rightarrow> False)
      | Thread_handle \<Rightarrow> (case c of Kern (Thread_create x) \<Rightarrow> ret a = 0 | _ \<Rightarrow> False))"

definition closes :: "handle \<Rightarrow> call \<Rightarrow> answer \<Rightarrow> bool" where
  "closes h c a \<longleftrightarrow>
     (case h of
        Event_handle \<Rightarrow> c = Bus Event_unref
      | Server_handle \<Rightarrow> c = Grpc Shutdown
      | Thread_handle \<Rightarrow> (case c of Kern (Thread_join x) \<Rightarrow> True | _ \<Rightarrow> False))"

definition held_by_nodes :: "handle \<Rightarrow> dbus_server \<Rightarrow> int" where
  "held_by_nodes h d =
     (case h of Event_handle \<Rightarrow> of_bool (db_event d) | Server_handle \<Rightarrow> 0 | Thread_handle \<Rightarrow> of_bool (db_event_thread d))"

definition held_by_service :: "handle \<Rightarrow> sinfo_server \<Rightarrow> int" where
  "held_by_service h si =
     (case h of Event_handle \<Rightarrow> 0 | Server_handle \<Rightarrow> of_bool (si_server si) | Thread_handle \<Rightarrow> of_bool (si_thread si))"

lemmas held = held_by_nodes_def held_by_service_def

definition quiet :: "call \<Rightarrow> bool" where
  "quiet c \<longleftrightarrow> (\<forall>h a. \<not> opens h c a \<and> \<not> closes h c a)"

abbreviation keeps :: "handle \<Rightarrow> 'a io \<Rightarrow> ('a \<Rightarrow> int \<Rightarrow> bool) \<Rightarrow> bool" where
  "keeps h \<equiv> balances (opens h) (closes h)"

lemma keeps_quiet: "only_g quiet m \<Longrightarrow> (\<And>s. R (result m s) 0) \<Longrightarrow> keeps h m R"
  by (rule balances_quiet [where P = quiet]) (simp_all add: quiet_def)

lemma keeps_after_quiet: "only_g quiet m \<Longrightarrow> (\<And>x. keeps h (f x) R) \<Longrightarrow> keeps h (State_Monad.bind m f) R"
  by (rule balances_bind [OF keeps_quiet [where R = "\<lambda>_ k. k = 0"]]) simp_all

lemma keeps_prod: "(\<And>x y. keeps h (f x y) R) \<Longrightarrow> keeps h (case p of (x, y) \<Rightarrow> f x y) R"
  by (cases p) simp

lemmas handles = opens_def closes_def handle.simps call.simps kcall.simps gcall.simps

lemma quiet_calls [simp]:
  "quiet (Bus Event_source_unref)" "quiet (Kern (Close fd))" "quiet (Bus (Event_add_io fd))" "quiet (Kern (Socket t))"
  "quiet (Kern (Setsockopt fd t i))" "quiet (Kern (Bind fd t))" "quiet (Kern (Listen fd))" "quiet (Kern (Fopen f t))"
  "quiet (Grpc (Create_channel t))" "quiet (Grpc New_stub)" "quiet (Grpc (Notify_fault w n t i))"
  "quiet (Kern (Sleep_for sec))" "quiet (Kern (Atomic_store v b))"
  by (simp_all add: quiet_def opens_def closes_def split: handle.split)

lemma quiet_server_create: "only_g quiet (trpc_server_create port)"
  unfolding trpc_server_create_def create_server_socket_def Let_def
  by (intro only_g_rules) simp_all

lemma quiet_client: "only_g quiet (InitFaultClient addr port c)" "only_g quiet (NotifyFaultDemo c)"
  unfolding InitFaultClient_def NotifyFaultDemo_def notify_fault_io_def Let_def by (intro only_g_rules; simp)+

lemma quiet_load_config: "only_g quiet (load_config file m)"
  unfolding load_config_def by (intro only_g_rules) simp_all

lemma quiet_main_loop: "only_g quiet (main_loop rounds c notify_fault)"
  by (induction rounds arbitrary: notify_fault)
    (auto intro!: only_g_rules quiet_client(2) simp: only_g_rules)


lemma keeps_if_call:
  "keeps h (if b then State_Monad.bind (sys c) (\<lambda>_. return_io ()) else return_io ())
     (\<lambda>_ k. b \<and> (\<exists>a. k = of_bool (opens h c a) - of_bool (closes h c a)) \<or> \<not> b \<and> k = 0)"
  by (cases b) (auto intro!: balances_bind [OF balances_sys [where R = "\<lambda>_ k. \<exists>a. k = of_bool (opens h c a) - of_bool (closes h c a)"]]
      balances_return)

lemma keeps_service_stop:
  "keeps h (SchedInfoServer_Stop si) (\<lambda>si' k. k = - held_by_service h si)"
proof -
  have join: "keeps h (if si_thread si then do { _ \<leftarrow> kern (Thread_join ''SchedInfoServer''); return_io (si\<lparr>si_thread := False\<rparr>) }
      else return_io si) (\<lambda>si' k. k = - (case h of Thread_handle \<Rightarrow> of_bool (si_thread si) | _ \<Rightarrow> 0))"
    by (cases "si_thread si"; cases h)
      (auto intro!: balances_bind [OF balances_sys [where R = "\<lambda>_ k. k = - of_bool (h = Thread_handle)"]] balances_return
        simp: handles)
  show ?thesis unfolding SchedInfoServer_Stop_def
    by (rule balances_bind [OF keeps_if_call], rule balances_mono [OF join])
      (cases h; auto simp: handles held_by_service_def)
qed

lemma keeps_store: "only_g quiet (kern (Atomic_store v b))"
  by (intro only_g_rules) simp

lemma keeps_join:
  "keeps h (join_event_thread d) (\<lambda>d' k. k = held_by_nodes h d' - held_by_nodes h d \<and> db_event d' = db_event d \<and>
     \<not> db_running d' \<and> ((db_event_thread d \<longrightarrow> db_running d) \<longrightarrow> \<not> db_event_thread d'))"
  unfolding join_event_thread_def
  by (intro balances_if balances_return keeps_after_quiet [OF keeps_store]
      balances_bind [OF balances_sys [where R = "\<lambda>_ k. k = - of_bool (h = Thread_handle)"]])
    (cases h; simp add: handles held_by_nodes_def)+

lemma keeps_release:
  "keeps h (release_events d) (\<lambda>d' k. k = held_by_nodes h d' - held_by_nodes h d \<and> \<not> db_event d' \<and>
     db_event_thread d' = db_event_thread d \<and> db_running d' = db_running d)"
proof -
  have close: "only_g quiet (if b then State_Monad.bind (sys c) (\<lambda>_. return_io ()) else return_io ())" if "quiet c" for b c
    using that by (intro only_g_rules)
  show ?thesis unfolding release_events_def
    by (rule keeps_after_quiet [OF close], simp, rule balances_bind [OF keeps_if_call], rule keeps_after_quiet [OF close], simp)
      (auto intro!: balances_return simp: handles held_by_nodes_def split: handle.split)
qed

lemma held_by_nodes_server [simp]: "held_by_nodes h (d\<lparr>db_server := sr\<rparr>) = held_by_nodes h d"
  by (simp add: held_by_nodes_def split: handle.split)

lemma keeps_stop:
  "keeps h (DBusServer_Stop d) (\<lambda>d' k. k = held_by_nodes h d' - held_by_nodes h d \<and> \<not> db_event d' \<and> \<not> db_running d' \<and>
     ((db_event_thread d \<longrightarrow> db_running d) \<longrightarrow> \<not> db_event_thread d'))"
  unfolding DBusServer_Stop_def
  by (rule balances_bind [OF keeps_join], rule balances_mono [OF keeps_release]) auto

text \<open>The server for the nodes after a successful start, and after one that failed.\<close>

definition up :: "bool \<Rightarrow> dbus_server \<Rightarrow> bool" where
  "up attached d \<longleftrightarrow> db_running d \<and> db_event_thread d \<and> db_event d \<and> db_event_source d \<and> 0 \<le> db_server_fd d \<and>
     sr_attached (db_server d) = attached"

definition down :: "dbus_server \<Rightarrow> bool" where
  "down d \<longleftrightarrow> \<not> db_running d \<and> \<not> db_event_thread d \<and> \<not> db_event d"

lemma down_held: "down d \<Longrightarrow> held_by_nodes h d = 0"
  by (simp add: down_def held_by_nodes_def split: handle.split)

definition started :: "bool \<Rightarrow> handle \<Rightarrow> (bool \<times> dbus_server) option \<Rightarrow> int \<Rightarrow> bool" where
  "started attached h r k \<longleftrightarrow>
     (case r of None \<Rightarrow> True | Some (ok, d) \<Rightarrow> k = held_by_nodes h d \<and> (if ok then up attached d else down d))"

lemma keeps_start:
  assumes "down d"
  shows "keeps h (DBusServer_Start port attached d) (started attached h)"
proof -
  let ?R = "\<lambda>r k. started attached h r (of_bool (h = Event_handle) + k)"
  let ?d = "d\<lparr>db_event := True\<rparr>"
  let ?d' = "\<lambda>fd. ?d\<lparr>db_event_source := True, db_server_fd := fd, db_server := SetSchedInfoServer attached (db_server ?d)\<rparr>"
  have thread: "keeps h (start_event_thread (?d' fd)) ?R" if "0 \<le> fd" for fd
    unfolding start_event_thread_def Let_def
    by (rule balances_bind [OF balances_sys [where R = "\<lambda>a k. k = of_bool (h = Thread_handle \<and> ret a = 0)"]]; cases h)
      (use that assms in \<open>auto intro!: balances_return keeps_after_quiet [OF keeps_store]
          simp: handles held_by_nodes_def up_def down_def started_def SetSchedInfoServer_def\<close>)
  have stop: "keeps h (do { d2 \<leftarrow> DBusServer_Stop ?d; return_io (Some (False, d2)) }) ?R"
    by (rule balances_bind [OF keeps_stop])
      (use assms in \<open>auto intro!: balances_return simp: held_by_nodes_def down_def started_def split: handle.split\<close>)
  have create: "keeps h (do {
      (fd, _) \<leftarrow> trpc_server_create port;
      if fd < 0 then do { d2 \<leftarrow> DBusServer_Stop ?d; return_io (Some (False, d2)) }
      else start_event_thread (?d' fd) }) ?R"
    by (rule keeps_after_quiet [OF quiet_server_create], rule keeps_prod, rule balances_if [OF stop thread]) simp
  have new: "keeps h (bus Event_new) (\<lambda>a k. k = of_bool (h = Event_handle \<and> 0 \<le> ret a))"
    by (rule balances_sys) (cases h; simp add: handles)
  have "\<not> db_running d" using assms by (simp add: down_def)
  then show ?thesis unfolding DBusServer_Start_def Let_def
    by (simp only: if_False, intro balances_bind [OF new] balances_if balances_return balances_mono [OF create])
      (use assms in \<open>simp_all add: started_def down_held\<close>)
qed


text \<open>
  What a run of the program has acquired and not released: nothing when it exits; while it serves,
  the event loop, the gRPC server and a thread for each of them.
\<close>

definition all_released :: "handle \<Rightarrow> run_end \<Rightarrow> int \<Rightarrow> bool" where
  "all_released h r k =
     (case r of
        Exited code \<Rightarrow> code = EXIT_FAILURE \<and> k = 0
      | Terminated \<Rightarrow> True
      | Serving d c n \<Rightarrow> up True d \<and> fc_initialized c \<and> k = (if h = Thread_handle then 2 else 1))"

definition service_up :: sinfo_server where
  "service_up = \<lparr>si_server = True, si_thread = True\<rparr>"

lemma keeps_leave:
  "keeps h (leave si d) (\<lambda>r k. r = Exited EXIT_FAILURE \<and> (pred_option down d \<longrightarrow> k = - held_by_service h si))"
proof -
  have "keeps h (case d of None \<Rightarrow> return_io () | Some d \<Rightarrow> do { _ \<leftarrow> DBusServer_Stop d; return_io () })
      (\<lambda>_ k. pred_option down d \<longrightarrow> k = 0)"
    by (cases d) (auto intro!: balances_return balances_bind [OF keeps_stop]
        simp: down_def held_by_nodes_def split: handle.split)
  then have "keeps h (do { (case d of None \<Rightarrow> return_io () | Some d \<Rightarrow> do { _ \<leftarrow> DBusServer_Stop d; return_io () });
      return_io (Exited EXIT_FAILURE) }) (\<lambda>r k. r = Exited EXIT_FAILURE \<and> (pred_option down d \<longrightarrow> k = 0))"
    by (rule balances_bind) (simp add: balances_return)
  then show ?thesis unfolding leave_def
    by (intro balances_bind [OF keeps_service_stop]) (auto elim: balances_mono)
qed

lemma down_new: "down (DBusServer0 sr)"
  by (simp add: down_def DBusServer0_def)

lemma released_up:
  "up True d \<Longrightarrow> fc_initialized c \<Longrightarrow> all_released h (Serving d c n) (held_by_service h service_up + held_by_nodes h d)"
  by (simp add: all_released_def held service_up_def up_def split: handle.split)

lemma released_exit: "all_released h (Exited EXIT_FAILURE) 0" "all_released h Terminated k"
  by (simp_all add: all_released_def)

text \<open>The end of the start, once the result of the server for the nodes is known.\<close>

lemma keeps_serving:
  "keeps h (case r of None \<Rightarrow> return_io Terminated
     | Some (ok, d) \<Rightarrow> if \<not> ok then leave si (Some d)
         else do { n \<leftarrow> main_loop rounds c b; return_io (Serving d c n) })
    (\<lambda>x k'. \<forall>k. started True h r k \<longrightarrow> fc_initialized c \<and> si = service_up \<longrightarrow>
      all_released h x (held_by_service h si + (k + k')))"
proof (cases r)
  case None
  then show ?thesis by (simp add: balances_return all_released_def)
next
  case (Some p)
  obtain ok d where p: "p = (ok, d)" by (cases p)
  have loop: "keeps h (do { n \<leftarrow> main_loop rounds c b; return_io (Serving d c n) }) (\<lambda>r k. k = 0 \<and> (\<exists>n. r = Serving d c n))"
    by (intro keeps_after_quiet [OF quiet_main_loop] balances_return) simp
  show ?thesis
  proof (cases ok)
    case True
    then show ?thesis unfolding Some p
      by (simp, intro balances_mono [OF loop]) (auto simp: started_def released_up)
  next
    case False
    then show ?thesis unfolding Some p
      by (simp, intro balances_mono [OF keeps_leave]) (auto simp: started_def down_held all_released_def)
  qed
qed

lemma keeps_client:
  "keeps h (InitFaultClient addr port c) (\<lambda>r k. k = 0 \<and> (fst r \<longrightarrow> fc_initialized (snd r)))"
  by (rule keeps_quiet [OF quiet_client(1)])
    (auto simp: InitFaultClient_def Initialize_def CreateChannel_def Let_def split: if_splits)

lemma keeps_serve:
  "keeps h (serve rounds os m si) (\<lambda>r k. si = service_up \<longrightarrow> all_released h r (held_by_service h si + k))"
proof -
  have nodes: "keeps h (do {
      r \<leftarrow> RunDBusServer (op_dbus_port os) (DBusServer0 (new_server (Some m)));
      (case r of None \<Rightarrow> return_io Terminated
       | Some (ok, d) \<Rightarrow> if \<not> ok then leave si (Some d)
           else do { n \<leftarrow> main_loop rounds c (op_notify_fault os); return_io (Serving d c n) }) })
      (\<lambda>r k. fc_initialized c \<and> si = service_up \<longrightarrow> all_released h r (held_by_service h si + k))" for c
    unfolding RunDBusServer_def by (rule balances_bind [OF keeps_start [OF down_new] keeps_serving])
  show ?thesis unfolding serve_def
  proof (rule balances_bind [OF keeps_client], goal_cases)
    case (1 r)
    obtain ok c where r: "r = (ok, c)" by (cases r)
    show ?case unfolding r prod.case fst_conv snd_conv
      by (intro balances_if balances_mono [OF nodes] balances_mono [OF keeps_leave]) (simp_all add: released_exit)
  qed
qed

lemma keeps_service_start:
  "keeps h (RunSchedInfoServer port) (\<lambda>r k. \<forall>ok si. r = Some (ok, si) \<longrightarrow> k = held_by_service h si \<and> (ok \<longrightarrow> si = service_up))"
proof -
  have start: "keeps h (grpc (Build_and_start addr)) (\<lambda>a k. k = of_bool (h = Server_handle \<and> ret a \<noteq> 0))" for addr
    by (rule balances_sys) (cases h; simp add: handles)
  have thread: "keeps h (kern (Thread_create name)) (\<lambda>a k. k = of_bool (h = Thread_handle \<and> ret a = 0))" for name
    by (rule balances_sys) (cases h; simp add: handles)
  show ?thesis unfolding RunSchedInfoServer_def SchedInfoServer_Start_def
    by (intro balances_bind [OF start] balances_if balances_return balances_bind [OF thread])
      (cases h; simp add: held_by_service_def service_up_def)+
qed

lemma keeps_main: "keeps h (orchestrator_main rounds args) (all_released h)"
proof -
  have run: "keeps h (do { r \<leftarrow> RunSchedInfoServer (op_sinfo_port os);
      (case r of None \<Rightarrow> return_io Terminated | Some (ok, si) \<Rightarrow> if \<not> ok then leave si None else serve rounds os m si) })
      (all_released h)" for os m
  proof (rule balances_bind [OF keeps_service_start], goal_cases)
    case (1 r)
    show ?case
      by (cases r; simp only: option.case prod.case split: prod.split, intro allI impI conjI balances_if balances_return
          balances_mono [OF keeps_serve] balances_mono [OF keeps_leave])
        (auto simp: released_exit)
  qed
  show ?thesis unfolding orchestrator_main_def
    by (auto intro!: balances_return keeps_after_quiet [OF quiet_load_config] run
        split: sum.split option_end.split option.split simp: released_exit)
qed


text \<open>
  C19. The start of the orchestrator: with every command line and every answer of the libraries, an exit
  has the code for failure and has released each event loop, gRPC server and thread that was made,
  no more and no fewer; and while the program serves, the server for the nodes is running and
  attached to the workload service, the fault client is initialised, and exactly one event loop, one
  gRPC server and two threads are held.
\<close>

theorem orchestrator_releases:
  "case result (orchestrator_main rounds args) s of
     Exited code \<Rightarrow> code = EXIT_FAILURE \<and>
       made (opens h) (orchestrator_main rounds args) s = made (closes h) (orchestrator_main rounds args) s
   | Terminated \<Rightarrow> True
   | Serving d c n \<Rightarrow> up True d \<and> fc_initialized c \<and>
       made (opens h) (orchestrator_main rounds args) s =
       made (closes h) (orchestrator_main rounds args) s + (if h = Thread_handle then 2 else 1)"
proof -
  have "all_released h (result (orchestrator_main rounds args) s)
      (int (made (opens h) (orchestrator_main rounds args) s) - int (made (closes h) (orchestrator_main rounds args) s))"
    using keeps_main [of h rounds args] by (simp add: balances_def)
  then show ?thesis
    by (cases "result (orchestrator_main rounds args) s") (auto simp: all_released_def)
qed

section \<open>The event loop\<close>

definition may_go_on :: "answer \<Rightarrow> bool" where
  "may_go_on a \<longleftrightarrow> 0 \<le> ret a \<or> ret a = - EAGAIN \<or> ret a = - EINTR"

lemma only_EventLoop: "only_g (\<lambda>c. c = Bus (Event_run 100000)) (EventLoop flags)"
  by (induction flags) (auto intro!: only_g_rules)

lemma EventLoop_turn:
  assumes "may_go_on (answers s (length (trace s)) (Bus (Event_run 100000)))"
  shows "run_state (EventLoop (True # flags)) s = run_state (EventLoop flags) (s\<lparr>trace := trace s @ [Bus (Event_run 100000)]\<rparr>)"
  using assms by (auto simp: may_go_on_def)

lemma EventLoop_turns:
  assumes "\<And>k. may_go_on (answers s k (Bus (Event_run 100000)))"
  shows "run_state (EventLoop (replicate b True @ False # flags)) s =
    (Some (), s\<lparr>trace := trace s @ replicate b (Bus (Event_run 100000))\<rparr>)"
  using assms
proof (induction b arbitrary: s)
  case (Suc b)
  then show ?case using EventLoop_turn [of s "replicate b True @ False # flags"] by simp
qed simp

text \<open>What the thread reads when it looks after \<open>k\<close> of the calls \<open>cs\<close> of the other threads; the constructor clears the flag.\<close>

definition running_at :: "call list \<Rightarrow> nat \<Rightarrow> bool" where
  "running_at cs k =
     fold (\<lambda>c r. case c of Kern (Atomic_store v b) \<Rightarrow> (if v = ''running_'' then b else r) | _ \<Rightarrow> r) (take k cs) False"

definition no_store :: "call \<Rightarrow> bool" where
  "no_store c \<longleftrightarrow> (\<forall>b. c \<noteq> Kern (Atomic_store ''running_'' b))"

lemma fold_no_store:
  "list_all no_store cs \<Longrightarrow>
    fold (\<lambda>c r. case c of Kern (Atomic_store v b) \<Rightarrow> (if v = ''running_'' then b else r) | _ \<Rightarrow> r) cs r = r"
  by (induction cs arbitrary: r) (auto simp: no_store_def split: call.split kcall.split)

lemma no_store_simps [simp]: "no_store (Kern (Atomic_store v b)) \<longleftrightarrow> v \<noteq> ''running_''" "no_store (Bus c)"
  "no_store (Kern (Socket t))" "no_store (Kern (Setsockopt fd t i))" "no_store (Kern (Bind fd t))" "no_store (Kern (Listen fd))"
  "no_store (Kern (Close fd))" "no_store (Kern (Thread_create t))" "no_store (Kern (Thread_join t))"
  by (auto simp: no_store_def)

lemma take_append_set: "set (take k xs) \<subseteq> set xs"
  by (rule set_take_subset)

lemma running_at_early: "list_all no_store cs \<Longrightarrow> k \<le> length cs \<Longrightarrow> \<not> running_at (cs @ ds) k"
  using take_append_set [of k cs] by (simp add: running_at_def fold_no_store list_all_iff subset_iff)

lemma running_at_stored:
  assumes "list_all no_store ds" and "length cs < k" and "k \<le> length cs + 1 + length ds"
  shows "running_at (cs @ Kern (Atomic_store ''running_'' b) # ds @ es) k \<longleftrightarrow> b"
proof -
  have "list_all no_store (take j ds)" for j
    using assms(1) take_append_set [of j ds] by (auto simp: list_all_iff)
  moreover have "take k (cs @ Kern (Atomic_store ''running_'' b) # ds @ es) =
      cs @ Kern (Atomic_store ''running_'' b) # take (k - length cs - 1) ds"
    using assms(2,3) by (cases "k - length cs") (auto simp: take_Cons')
  ultimately show ?thesis by (simp add: running_at_def fold_no_store)
qed

text \<open>The calls of a start that reports success: the thread is created before the flag is set.\<close>

lemma start_calls:
  assumes "result (DBusServer_Start port attached d0) s = Some (True, d)"
  obtains cs where "calls (DBusServer_Start port attached d0) s =
      cs @ [Kern (Thread_create ''EventLoop''), Kern (Atomic_store ''running_'' True)]"
    and "list_all no_store cs" and "db_running d" and "db_event_thread d"
proof -
  let ?s1 = "s\<lparr>trace := trace s @ [Bus Event_new]\<rparr>" and ?srv = "trpc_server_create port"
  have only: "only no_store ?srv"
    unfolding trpc_server_create_def create_server_socket_def Let_def by (intro only_rules) simp_all
  note after_srv = only_after [OF only, of ?s1]
  let ?cs = "Bus Event_new # calls ?srv ?s1"
  have stop: "\<not> fst (the r)" if "r = map_option (\<lambda>x. (False, x)) (Some d)" for r using that by simp
  have "after (DBusServer_Start port attached d0) s =
        s\<lparr>trace := trace s @ ?cs @ [Kern (Thread_create ''EventLoop''), Kern (Atomic_store ''running_'' True)]\<rparr> \<and>
      db_running d \<and> db_event_thread d"
    using assms
    by (auto simp: DBusServer_Start_def start_event_thread_def case_prod_beta Let_def after_srv split: if_splits)
  moreover have "list_all no_store ?cs" using only_calls [OF only, of ?s1] by simp
  ultimately show ?thesis using that [of ?cs] by (simp add: calls_def)
qed

lemma stop_calls:
  assumes "db_running d" and "db_event_thread d"
  obtains cs where "calls (DBusServer_Stop d) s = Kern (Atomic_store ''running_'' False) # cs"
    and "list_all no_store cs"
proof -
  let ?d = "d\<lparr>db_running := False, db_event_thread := False,
    db_server := SetSchedInfoServer False (FreeSchedInfoBuf (db_server d))\<rparr>"
  let ?s1 = "s\<lparr>trace := trace s @ [Kern (Atomic_store ''running_'' False), Kern (Thread_join ''EventLoop'')]\<rparr>"
  have only: "only no_store (release_events ?d)"
    unfolding release_events_def by (intro only_rules) simp_all
  have "after (DBusServer_Stop d) s = after (release_events ?d) ?s1"
    using assms by (simp add: DBusServer_Stop_def join_event_thread_def)
  moreover have "trace (after (release_events ?d) ?s1) =
      trace s @ Kern (Atomic_store ''running_'' False) # Kern (Thread_join ''EventLoop'') # calls (release_events ?d) ?s1"
    unfolding only_after [OF only] by simp
  ultimately show ?thesis
    using only_calls [OF only, of ?s1] that [of "Kern (Thread_join ''EventLoop'') # calls (release_events ?d) ?s1"]
    by (simp add: calls_def [of "DBusServer_Stop d"])
qed

text \<open>
  C20. The event loop of the server for the nodes and its flag. A start that reports success has created
  the thread before it sets \<^verbatim>\<open>running_\<close>, and only the stop clears the flag again. Therefore, as long as no
  call of the event loop fails: a thread whose first look at the flag comes between the two steps of
  the start returns at once and never handles an event, though the start reports success;
  a thread that looks for the first time after the flag is set handles events once for each look
  until the stop clears the flag, and returns at its first look after that.
\<close>

theorem event_loop_serves:
  fixes s s2 others d
  assumes "result (DBusServer_Start port attached d0) s = Some (True, d)"
    and "list_all no_store others"
    and "\<And>k. may_go_on (answers s' k (Bus (Event_run 100000)))"
  defines "cs \<equiv> calls (DBusServer_Start port attached d0) s @ others @ calls (DBusServer_Stop d) s2"
  shows "\<exists>i j. cs ! i = Kern (Thread_create ''EventLoop'') \<and> i + 2 \<le> j \<and>
     j = length (calls (DBusServer_Start port attached d0) s @ others) \<and>
     (\<forall>later. run_state (EventLoop (map (running_at cs) ((i + 1) # later))) s' = (Some (), s')) \<and>
     (\<forall>looks k later. list_all (\<lambda>k. i + 2 \<le> k \<and> k \<le> j) looks \<longrightarrow> j < k \<longrightarrow>
        run_state (EventLoop (map (running_at cs) (looks @ k # later))) s' =
          (Some (), s'\<lparr>trace := trace s' @ replicate (length looks) (Bus (Event_run 100000))\<rparr>))"
proof -
  obtain xs where xs: "calls (DBusServer_Start port attached d0) s =
      xs @ [Kern (Thread_create ''EventLoop''), Kern (Atomic_store ''running_'' True)]" "list_all no_store xs"
      "db_running d" "db_event_thread d"
    using start_calls [OF assms(1)] by blast
  obtain ys where ys: "calls (DBusServer_Stop d) s2 = Kern (Atomic_store ''running_'' False) # ys" "list_all no_store ys"
    using stop_calls [OF xs(3,4)] by blast
  let ?pre = "xs @ [Kern (Thread_create ''EventLoop'')]" and ?i = "length xs" and ?j = "length xs + 2 + length others"
  have cs: "cs = ?pre @ Kern (Atomic_store ''running_'' True) # others @ Kern (Atomic_store ''running_'' False) # ys"
    by (simp add: cs_def xs(1) ys(1))
  have early: "\<not> running_at cs (?i + 1)"
    unfolding cs by (rule running_at_early) (use xs(2) in simp_all)
  have on: "running_at cs k" if "?i + 2 \<le> k" "k \<le> ?j" for k
    unfolding cs using running_at_stored [OF assms(2), of ?pre k True] that by simp
  have off: "\<not> running_at cs k" if "?j < k" for k
  proof -
    let ?cs' = "?pre @ Kern (Atomic_store ''running_'' True) # others"
    have "take k cs = take (min k (length cs)) cs" by (simp add: min_def)
    then have "running_at cs k = running_at cs (min k (length cs))" by (simp add: running_at_def)
    also have "\<not> \<dots>"
      using running_at_stored [OF ys(2), of ?cs' "min k (length cs)" False "[]"] that by (simp add: cs)
    finally show ?thesis .
  qed
  show ?thesis
  proof (rule exI [of _ ?i], rule exI [of _ ?j], intro conjI allI impI)
    fix looks k later assume looks: "list_all (\<lambda>k. ?i + 2 \<le> k \<and> k \<le> ?j) looks" and k: "?j < k"
    have "map (running_at cs) looks = replicate (length looks) True"
      using looks on by (intro nth_equalityI) (auto simp: list_all_length)
    then show "run_state (EventLoop (map (running_at cs) (looks @ k # later))) s' =
          (Some (), s'\<lparr>trace := trace s' @ replicate (length looks) (Bus (Event_run 100000))\<rparr>)"
      using EventLoop_turns [OF assms(3), of "length looks" "map (running_at cs) later"] off [OF k] by simp
  qed (use early in \<open>simp_all add: cs xs(1) nth_append\<close>)
qed

text \<open>A start in which every call succeeds, and its stop: two looks in time serve two events, an early look serves none.\<close>

lemma event_loop_serves_witness:
  "\<exists>d cs i j. result (DBusServer_Start 7777 True (DBusServer0 (new_server None))) (os_of (\<lambda>c. answer0)) = Some (True, d) \<and>
     cs = calls (DBusServer_Start 7777 True (DBusServer0 (new_server None))) (os_of (\<lambda>c. answer0)) @
       calls (DBusServer_Stop d) (os_of (\<lambda>c. answer0)) \<and>
     cs ! i = Kern (Thread_create ''EventLoop'') \<and>
     calls (EventLoop (map (running_at cs) [i + 2, i + 2, j + 1])) (os_of (\<lambda>c. answer0)) =
       [Bus (Event_run 100000), Bus (Event_run 100000)] \<and>
     calls (EventLoop (map (running_at cs) [i + 1, i + 2, j + 1])) (os_of (\<lambda>c. answer0)) = []"
proof -
  let ?s = "os_of (\<lambda>c. answer0)" and ?d0 = "DBusServer0 (new_server None)"
  obtain d where d: "result (DBusServer_Start 7777 True ?d0) ?s = Some (True, d)"
    by (simp add: DBusServer_Start_def start_event_thread_def trpc_server_create_def create_server_socket_def
        DBusServer0_def answer0_def Let_def)
  define cs where "cs = calls (DBusServer_Start 7777 True ?d0) ?s @ calls (DBusServer_Stop d) ?s"
  have go: "\<And>k. may_go_on (answers ?s k (Bus (Event_run 100000)))" by (simp add: may_go_on_def answer0_def)
  from event_loop_serves [OF d _ go, of "[]" ?s] obtain i j where ij: "cs ! i = Kern (Thread_create ''EventLoop'')" "i + 2 \<le> j"
      "run_state (EventLoop (map (running_at cs) ((i + 1) # later))) ?s = (Some (), ?s)"
      "list_all (\<lambda>k. i + 2 \<le> k \<and> k \<le> j) looks \<Longrightarrow> j < k \<Longrightarrow>
        run_state (EventLoop (map (running_at cs) (looks @ k # later))) ?s =
          (Some (), ?s\<lparr>trace := trace ?s @ replicate (length looks) (Bus (Event_run 100000))\<rparr>)" for later looks k
    unfolding cs_def by auto
  have "calls (EventLoop (map (running_at cs) [i + 2, i + 2, j + 1])) ?s = [Bus (Event_run 100000), Bus (Event_run 100000)]"
    using ij(4) [of "[i + 2, i + 2]" "j + 1" "[]"] ij(2) by (simp add: calls_def)
  moreover have "calls (EventLoop (map (running_at cs) [i + 1, i + 2, j + 1])) ?s = []"
    using ij(3) [of "[i + 2, j + 1]"] by (simp add: calls_def)
  ultimately show ?thesis using d ij(1) cs_def by blast
qed

section \<open>Names of files, and the demonstration\<close>

definition separator :: "char \<Rightarrow> bool" where
  "separator c \<longleftrightarrow> c = CHR ''/'' \<or> c = CHR 0x5C"

lemma base_loop_last:
  "base_loop base cs = (if list_ex separator cs then rev (takeWhile (\<lambda>c. \<not> separator c) (rev cs)) else base)"
proof (induction cs arbitrary: base)
  case (Cons c cs)
  have "takeWhile (\<lambda>c. \<not> separator c) (rev cs @ [c]) =
      (if list_ex separator cs then takeWhile (\<lambda>c. \<not> separator c) (rev cs)
       else rev cs @ (if separator c then [] else [c]))"
    by (auto simp: takeWhile_append list_ex_iff)
  moreover have "base_loop base (c # cs) = base_loop (if separator c then cs else base) cs" by (simp add: separator_def)
  ultimately show ?case using Cons.IH by (auto simp del: base_loop.simps)
qed simp

text \<open>The base name is what follows the last separator.\<close>

lemma GetBaseFileName_last: "GetBaseFileName p = rev (takeWhile (\<lambda>c. \<not> separator c) (rev p))"
  by (cases "list_ex separator p") (auto simp: GetBaseFileName_def base_loop_last list_ex_iff takeWhile_eq_all_conv [THEN iffD2])

definition accepted_demo :: "call \<Rightarrow> answer \<Rightarrow> bool" where
  "accepted_demo c a \<longleftrightarrow> (case c of Grpc (Notify_fault w n t i) \<Rightarrow> ret a = 0 \<and> out_ack a = 0 | _ \<Rightarrow> False)"

text \<open>The demonstration is sent until it is accepted, and then no more.\<close>

lemma demo_accepted_once: "made accepted_demo (main_loop rounds c notify_fault) s \<le> of_bool notify_fault"
proof (induction rounds arbitrary: notify_fault s)
  case (Suc rounds)
  have sleep: "\<not> accepted_demo (Kern c) a" for c a by (simp add: accepted_demo_def)
  have demo: "made accepted_demo (NotifyFaultDemo c) s = of_bool (result (NotifyFaultDemo c) s)" for s
    by (auto simp: NotifyFaultDemo_def notify_fault_io_def Let_def NotifyFault_def made_bind [OF only_sys [THEN only_imp_only_g] tch.effect_return] accepted_demo_def)
  have loop: "only_g (\<lambda>c. True) (main_loop rounds c b)" for b by (rule only_g_mono [OF quiet_main_loop]) simp
  have next_round: "made accepted_demo (do { ok \<leftarrow> NotifyFaultDemo c; main_loop rounds c (if ok then False else True) }) s \<le> 1" for s
    using Suc.IH [of False] Suc.IH [of True]
    by (subst made_bind [OF quiet_client(2) loop]) (auto simp: demo le_Suc_eq)
  show ?case
  proof (cases notify_fault)
    case True
    have "only_g (\<lambda>c. True) (do { ok \<leftarrow> NotifyFaultDemo c; main_loop rounds c (if ok then False else True) })"
      by (intro tch.effect_bind loop only_g_mono [OF quiet_client(2)]) simp
    then show ?thesis using True next_round
      by (simp add: made_bind [OF only_sys [THEN only_imp_only_g, where P = "\<lambda>c. True"]] sleep)
  next
    case False
    then show ?thesis using Suc.IH [of False]
      by (simp add: made_bind [OF only_sys [THEN only_imp_only_g, where P = "\<lambda>c. True"] loop] sleep)
  qed
qed simp

end
