(* ===== verification/Sched.thy ===== *)
theory Sched
  imports Os
begin

text \<open>
  Scheduling primitives of the node (\<^verbatim>\<open>timpani-n/src/sched.c\<close>): CPU affinity of a process and of all
  its threads, scheduling attributes, the search of a process by thread name or by its pid in a
  container, and signals through pidfds. The search loops over \<^verbatim>\<open>/proc\<close> share the shape that
  \<open>scan_dir\<close> captures; the locale \<open>probe\<close> states what every such loop guarantees.
\<close>

section \<open>CPU affinity\<close>

definition set_affinity :: "int \<Rightarrow> int \<Rightarrow> ttsched_error io" where
  "set_affinity pid cpu = do {
     a \<leftarrow> kern Sysconf_nprocessors;
     let num_cpus = to_int32 (ret a);
     if num_cpus < 0 then return_io TTSCHED_ERROR_SYSTEM
     else do {
       let cpu' = (if cpu < 0 \<or> cpu \<ge> num_cpus then 0 else cpu);
       b \<leftarrow> kern (Sched_setaffinity pid (CPU_SET (nat cpu') CPU_ZERO));
       if ret b = -1 then return_io TTSCHED_ERROR_PERMISSION
       else return_io TTSCHED_SUCCESS
     }
   }"

text \<open>The loop over the 64 bits of the mask.\<close>

definition cpumask_set :: "u64 \<Rightarrow> cpu_set" where
  "cpumask_set cpumask =
     fold (\<lambda>i cpuset. if cpumask AND push_bit i 1 \<noteq> 0 then CPU_SET i cpuset else cpuset)
       [0..<64] CPU_ZERO"

definition set_affinity_cpumask :: "int \<Rightarrow> u64 \<Rightarrow> ttsched_error io" where
  "set_affinity_cpumask pid cpumask = do {
     a \<leftarrow> kern (Sched_setaffinity pid (cpumask_set cpumask));
     if ret a < 0 then return_io TTSCHED_ERROR_PERMISSION
     else return_io TTSCHED_SUCCESS
   }"

text \<open>The directory entries of the threads: directories whose name is a positive number.\<close>

primrec affinity_threads :: "u64 \<Rightarrow> (string \<times> bool) list \<Rightarrow> nat \<Rightarrow> nat \<Rightarrow> (nat \<times> nat) io" where
  "affinity_threads cpumask [] success_count failure_count = return_io (success_count, failure_count)"
| "affinity_threads cpumask (entry # entries) success_count failure_count =
     (if snd entry \<and> atoi (fst entry) > 0
      then do {
        e \<leftarrow> set_affinity_cpumask (atoi (fst entry)) cpumask;
        if e = TTSCHED_SUCCESS
        then affinity_threads cpumask entries (success_count + 1) failure_count
        else affinity_threads cpumask entries success_count (failure_count + 1)
      }
      else affinity_threads cpumask entries success_count failure_count)"

definition set_affinity_cpumask_all_threads :: "int \<Rightarrow> u64 \<Rightarrow> ttsched_error io" where
  "set_affinity_cpumask_all_threads pid cpumask =
     (if pid \<le> 0 then return_io TTSCHED_ERROR_INVALID_ARGS
      else do {
        let task_path = ''/proc/'' @ printf_d pid @ ''/task'';
        d \<leftarrow> kern (Opendir task_path);
        if ret d = 0 then return_io TTSCHED_ERROR_SYSTEM
        else do {
          (success_count, failure_count) \<leftarrow> affinity_threads cpumask (out_dir d) 0 0;
          _ \<leftarrow> kern (Closedir task_path);
          if success_count = 0 \<and> failure_count = 0 then return_io TTSCHED_SUCCESS
          else if success_count > 0 then return_io TTSCHED_SUCCESS
          else return_io TTSCHED_ERROR_PERMISSION
        }
      })"

section \<open>Scheduling attributes\<close>

definition SCHED_NORMAL :: u32 where "SCHED_NORMAL = 0"
definition SCHED_FIFO :: u32 where "SCHED_FIFO = 1"
definition SCHED_RR :: u32 where "SCHED_RR = 2"

lemmas sched_policies = SCHED_NORMAL_def SCHED_FIFO_def SCHED_RR_def

definition set_sched_attr_syscall :: "int \<Rightarrow> sched_attr_tt \<Rightarrow> u32 \<Rightarrow> int io" where
  "set_sched_attr_syscall pid attr flags = do {
     a \<leftarrow> kern (Sched_setattr pid attr flags);
     return_io (ret a)
   }"

definition set_schedattr :: "int \<Rightarrow> u32 \<Rightarrow> u32 \<Rightarrow> ttsched_error io" where
  "set_schedattr pid priority policy =
     (if priority > 99 then return_io TTSCHED_ERROR_INVALID_ARGS
      else if policy \<noteq> SCHED_NORMAL \<and> policy \<noteq> SCHED_FIFO \<and> policy \<noteq> SCHED_RR
      then return_io TTSCHED_ERROR_INVALID_ARGS
      else do {
        let attr = \<lparr>sa_size = 48, sa_sched_policy = policy, sa_sched_flags = 0, sa_sched_nice = 0,
                    sa_sched_priority = priority, sa_sched_runtime = 0, sa_sched_deadline = 0,
                    sa_sched_period = 0\<rparr>;
        r \<leftarrow> set_sched_attr_syscall pid attr 0;
        if r = -1 then return_io TTSCHED_ERROR_PERMISSION
        else return_io TTSCHED_SUCCESS
      })"

section \<open>Process names\<close>

definition PROCESS_NAME_SIZE :: nat where
  "PROCESS_NAME_SIZE = 16"

text \<open>
  The name is read into the caller's buffer, whose old contents stay behind the bytes read; there
  is no terminator unless the last byte read was a newline.
\<close>

definition get_process_name_by_pid :: "int \<Rightarrow> string option \<Rightarrow> (ttsched_error \<times> string option) io" where
  "get_process_name_by_pid pid name =
     (case name of
        None \<Rightarrow> return_io (TTSCHED_ERROR_INVALID_ARGS, name)
      | Some buf \<Rightarrow>
          if pid \<le> 0 then return_io (TTSCHED_ERROR_INVALID_ARGS, name)
          else do {
            let procpath = ''/proc/'' @ printf_d pid @ ''/comm'';
            f \<leftarrow> kern (Fopen procpath ''r'');
            if ret f = 0 then return_io (TTSCHED_ERROR_SYSTEM, name)
            else do {
              let bytes = take PROCESS_NAME_SIZE (out_text f);
              let bytes' = (if bytes \<noteq> [] \<and> last bytes = CHR 0x0A then butlast bytes @ [NUL] else bytes);
              _ \<leftarrow> kern (Fclose procpath);
              return_io (TTSCHED_SUCCESS, Some (bytes' @ drop (length bytes') buf))
            }
          })"

text \<open>
  When the file cannot be opened the caller's array keeps what it held: the array is not
  initialised, so this is an arbitrary string, which the answer of the failed call supplies.
\<close>

definition get_thread_name :: "int \<Rightarrow> int \<Rightarrow> nat \<Rightarrow> string io" where
  "get_thread_name pid tid len = do {
     let path = ''/proc/'' @ printf_d pid @ ''/task/'' @ printf_d tid @ ''/comm'';
     f \<leftarrow> kern (Fopen path ''r'');
     if ret f = 0 then return_io (out_text f)
     else do {
       _ \<leftarrow> kern (Fclose path);
       return_io (takeWhile (\<lambda>c. c \<noteq> CHR 0x0A) (cstr (take (len - 1) (out_text f))))
     }
   }"

section \<open>Search in /proc\<close>

text \<open>
  The loop that the searches have in common: the directories with a positive number as their name
  are probed in turn until one yields a result other than -1.
\<close>

primrec scan_dir :: "(int \<Rightarrow> int io) \<Rightarrow> (string \<times> bool) list \<Rightarrow> int io" where
  "scan_dir f [] = return_io (-1)"
| "scan_dir f (entry # entries) =
     (if snd entry \<and> atoi (fst entry) > 0
      then do {
        r \<leftarrow> f (atoi (fst entry));
        if r \<noteq> -1 then return_io r else scan_dir f entries
      }
      else scan_dir f entries)"

definition probe_thread :: "string \<Rightarrow> int \<Rightarrow> int \<Rightarrow> int io" where
  "probe_thread name pid tid = do {
     tname \<leftarrow> get_thread_name pid tid 256;
     if cstr name = cstr tname then return_io tid else return_io (-1)
   }"

definition find_threads_by_name :: "string \<Rightarrow> int \<Rightarrow> int io" where
  "find_threads_by_name name pid = do {
     let path = ''/proc/'' @ printf_d pid @ ''/task'';
     d \<leftarrow> kern (Opendir path);
     if ret d = 0 then return_io (-1)
     else do {
       r \<leftarrow> scan_dir (probe_thread name pid) (out_dir d);
       _ \<leftarrow> kern (Closedir path);
       return_io r
     }
   }"

text \<open>The result is the code and what was stored through the pointer (nothing for NULL arguments).\<close>

definition get_pid_by_name :: "string option \<Rightarrow> bool \<Rightarrow> (ttsched_error \<times> int option) io" where
  "get_pid_by_name name pid =
     (case (name, pid) of
        (Some n, True) \<Rightarrow> do {
          d \<leftarrow> kern (Opendir ''/proc'');
          if ret d = 0 then return_io (TTSCHED_ERROR_SYSTEM, Some (-1))
          else do {
            p \<leftarrow> scan_dir (find_threads_by_name n) (out_dir d);
            _ \<leftarrow> kern (Closedir ''/proc'');
            if p = -1 then return_io (TTSCHED_ERROR_SYSTEM, Some (-1))
            else return_io (TTSCHED_SUCCESS, Some p)
          }
        }
      | _ \<Rightarrow> return_io (TTSCHED_ERROR_INVALID_ARGS, None))"

text \<open>The lines that successive \<^verbatim>\<open>fgets\<close> of at most 255 characters return.\<close>

fun fgets_lines :: "nat \<Rightarrow> string \<Rightarrow> string list" where
  "fgets_lines n [] = []"
| "fgets_lines n (c # cs) =
     (let l = take n (c # cs);
          pre = takeWhile (\<lambda>c. c \<noteq> CHR 0x0A) l;
          line = (if length pre < length l then pre @ [CHR 0x0A] else pre)
      in if line = [] then [] else line # fgets_lines n (drop (length line) (c # cs)))"

definition strtok_delims :: "char \<Rightarrow> bool" where
  "strtok_delims c \<longleftrightarrow> c = CHR '' '' \<or> c = CHR 0x09 \<or> c = CHR 0x0A"

text \<open>The next token and the rest of the line, as \<^verbatim>\<open>strtok_r\<close> splits it.\<close>

definition strtok :: "string \<Rightarrow> (string \<times> string) option" where
  "strtok s =
     (let t = dropWhile strtok_delims s
      in if t = [] then None
         else Some (takeWhile (\<lambda>c. \<not> strtok_delims c) t,
                    drop 1 (dropWhile (\<lambda>c. \<not> strtok_delims c) t)))"

text \<open>\<^verbatim>\<open>sscanf(s, "%15s", proc_name)\<close>: \<open>None\<close> when there is no word, and the array is not written.\<close>

definition scan_word15 :: "string \<Rightarrow> string option" where
  "scan_word15 s =
     (let t = dropWhile is_space s
      in if t = [] then None else Some (take 15 (takeWhile (\<lambda>c. \<not> is_space c) t)))"

text \<open>
  The lines of \<^verbatim>\<open>/proc/<pid>/status\<close> in turn; \<open>junk\<close> is the content of the array \<^verbatim>\<open>proc_name\<close> when it
  is not written.
\<close>

fun nspid_scan :: "string \<Rightarrow> string \<Rightarrow> int \<Rightarrow> string list \<Rightarrow> int" where
  "nspid_scan junk name nspid [] = -1"
| "nspid_scan junk name nspid (line # ls) =
     (let line = cstr line
      in if strncmp_eq line ''Name:'' 5
         then (let proc_name = (case scan_word15 (drop 5 line) of None \<Rightarrow> junk | Some w \<Rightarrow> w)
               in if \<not> strncmp_eq proc_name name 15 then -1 else nspid_scan junk name nspid ls)
         else if strncmp_eq line ''NSpid:'' 6
         then (case strtok (drop 6 line) of
                 None \<Rightarrow> -1
               | Some (token, save) \<Rightarrow>
                   (case strtok save of
                      None \<Rightarrow> -1
                    | Some (token2, _) \<Rightarrow> if atoi token2 = nspid then atoi token else -1))
         else nspid_scan junk name nspid ls)"

definition pid_by_nspid :: "string \<Rightarrow> int \<Rightarrow> int \<Rightarrow> int io" where
  "pid_by_nspid name nspid current_pid = do {
     let path = ''/proc/'' @ printf_d current_pid @ ''/status'';
     f \<leftarrow> kern (Fopen path ''r'');
     if ret f = 0 then return_io (-1)
     else do {
       let p = nspid_scan (concat (out_strings f)) name nspid (fgets_lines 255 (out_text f));
       _ \<leftarrow> kern (Fclose path);
       return_io p
     }
   }"

definition get_pid_by_nspid :: "string option \<Rightarrow> int \<Rightarrow> bool \<Rightarrow> (ttsched_error \<times> int option) io" where
  "get_pid_by_nspid name nspid pid =
     (case (name, pid) of
        (Some n, True) \<Rightarrow> do {
          d \<leftarrow> kern (Opendir ''/proc'');
          if ret d = 0 then return_io (TTSCHED_ERROR_SYSTEM, Some (-1))
          else do {
            p \<leftarrow> scan_dir (pid_by_nspid n nspid) (out_dir d);
            _ \<leftarrow> kern (Closedir ''/proc'');
            if p = -1 then return_io (TTSCHED_ERROR_SYSTEM, Some (-1))
            else return_io (TTSCHED_SUCCESS, Some p)
          }
        }
      | _ \<Rightarrow> return_io (TTSCHED_ERROR_INVALID_ARGS, None))"

section \<open>Pidfds\<close>

definition open_pidfd_syscall :: "int \<Rightarrow> u32 \<Rightarrow> int io" where
  "open_pidfd_syscall pid flags = do {
     a \<leftarrow> kern (Pidfd_open pid flags);
     return_io (ret a)
   }"

definition send_signal_pidfd_syscall :: "int \<Rightarrow> int \<Rightarrow> u32 \<Rightarrow> int io" where
  "send_signal_pidfd_syscall pidfd sig flags = do {
     a \<leftarrow> kern (Pidfd_send_signal pidfd sig flags);
     return_io (ret a)
   }"

definition create_pidfd :: "int \<Rightarrow> bool \<Rightarrow> (ttsched_error \<times> int option) io" where
  "create_pidfd pid pidfd =
     (if \<not> pidfd then return_io (TTSCHED_ERROR_INVALID_ARGS, None)
      else if pid \<le> 0 then return_io (TTSCHED_ERROR_INVALID_ARGS, None)
      else do {
        fd \<leftarrow> open_pidfd_syscall pid 0;
        if fd < 0 then return_io (TTSCHED_ERROR_PERMISSION, Some fd)
        else return_io (TTSCHED_SUCCESS, Some fd)
      })"

definition send_signal_pidfd :: "int \<Rightarrow> int \<Rightarrow> ttsched_error io" where
  "send_signal_pidfd pidfd signal =
     (if pidfd < 0 then return_io TTSCHED_ERROR_INVALID_ARGS
      else do {
        r \<leftarrow> send_signal_pidfd_syscall pidfd signal 0;
        if r < 0 then return_io TTSCHED_ERROR_PERMISSION
        else return_io TTSCHED_SUCCESS
      })"

definition is_process_alive :: "int \<Rightarrow> bool \<Rightarrow> (ttsched_error \<times> int option) io" where
  "is_process_alive pidfd alive =
     (if \<not> alive then return_io (TTSCHED_ERROR_INVALID_ARGS, None)
      else if pidfd < 0 then return_io (TTSCHED_SUCCESS, Some 0)
      else do {
        r \<leftarrow> send_signal_pidfd_syscall pidfd 0 0;
        return_io (TTSCHED_SUCCESS, Some (if r = 0 then 1 else 0))
      })"


section \<open>Effects of the operations\<close>

fun is_affinity :: "call \<Rightarrow> bool" where
  "is_affinity (Kern (Sched_setaffinity p c)) = True"
| "is_affinity (Kern Sysconf_nprocessors) = True"
| "is_affinity _ = False"

fun is_proc_read :: "call \<Rightarrow> bool" where
  "is_proc_read (Kern (Opendir p)) = True"
| "is_proc_read (Kern (Closedir p)) = True"
| "is_proc_read (Kern (Fopen p m)) = True"
| "is_proc_read (Kern (Fclose p)) = True"
| "is_proc_read _ = False"

fun is_sched_call :: "call \<Rightarrow> bool" where
  "is_sched_call (Kern (Sched_setattr p a f)) = True"
| "is_sched_call (Kern (Pidfd_open p f)) = True"
| "is_sched_call c = (is_affinity c \<or> is_proc_read c)"

fun is_signal :: "call \<Rightarrow> bool" where
  "is_signal (Kern (Pidfd_send_signal fd n f)) = True"
| "is_signal _ = False"

lemma only_set_affinity [only_intros]: "only is_affinity (set_affinity pid cpu)"
  unfolding set_affinity_def Let_def by (intro only_rules) simp_all

lemma only_set_affinity_cpumask [only_intros]: "only is_affinity (set_affinity_cpumask pid m)"
  unfolding set_affinity_cpumask_def by (intro only_rules) simp_all

lemma only_affinity_threads: "only is_affinity (affinity_threads m ds a b)"
  by (induction ds arbitrary: a b) (auto intro!: only_rules only_set_affinity_cpumask)

lemma only_all_threads [only_intros]: "only is_sched_call (set_affinity_cpumask_all_threads pid m)"
  unfolding set_affinity_cpumask_all_threads_def Let_def
  by (intro only_rules only_affinity_threads [THEN only_mono]) (auto elim: is_affinity.elims)

lemma only_set_schedattr [only_intros]: "only is_sched_call (set_schedattr pid p q)"
  unfolding set_schedattr_def set_sched_attr_syscall_def Let_def by (intro only_rules) simp_all

lemma only_create_pidfd [only_intros]: "only is_sched_call (create_pidfd pid b)"
  unfolding create_pidfd_def open_pidfd_syscall_def by (intro only_rules) simp_all

lemma only_send_signal [only_intros]: "only is_signal (send_signal_pidfd fd n)"
  unfolding send_signal_pidfd_def send_signal_pidfd_syscall_def by (intro only_rules) simp_all

section \<open>The shape of a search\<close>

definition pids :: "(string \<times> bool) list \<Rightarrow> int list" where
  "pids ds = map (\<lambda>d. atoi (fst d)) (filter (\<lambda>d. snd d \<and> atoi (fst d) > 0) ds)"

definition first_hit :: "(int \<Rightarrow> int) \<Rightarrow> int list \<Rightarrow> int" where
  "first_hit v ps = (case filter (\<lambda>p. v p \<noteq> -1) ps of [] \<Rightarrow> -1 | p # _ \<Rightarrow> v p)"

lemma pids_simps [simp]:
  "pids [] = []"
  "pids (d # ds) = (if snd d \<and> atoi (fst d) > 0 then atoi (fst d) # pids ds else pids ds)"
  by (simp_all add: pids_def)

lemma pids_pos: "p \<in> set (pids ds) \<Longrightarrow> 0 < p"
  by (auto simp: pids_def)

locale probe =
  fixes f :: "int \<Rightarrow> int io" and P :: "call \<Rightarrow> bool"
  assumes probe_calls: "only P (f p)"
begin

lemma scan_calls: "only P (scan_dir f ds)"
  by (induction ds) (auto intro!: only_rules probe_calls)

lemma scan_found:
  "result (scan_dir f ds) s \<noteq> -1 \<Longrightarrow>
    \<exists>p s'. p \<in> set (pids ds) \<and> appends P s s' \<and> result (f p) s' = result (scan_dir f ds) s"
proof (induction ds arbitrary: s)
  case Nil
  then show ?case by simp
next
  case (Cons d ds)
  show ?case
  proof (cases "snd d \<and> atoi (fst d) > 0 \<and> result (f (atoi (fst d))) s = -1")
    case True
    let ?s = "after (f (atoi (fst d))) s"
    have eq: "result (scan_dir f (d # ds)) s = result (scan_dir f ds) ?s"
      using True by (simp add: case_prod_beta)
    moreover have "appends P s ?s"
      using probe_calls [of "atoi (fst d)"] by (simp add: state_io_rel_def)
    moreover obtain p s' where "p \<in> set (pids ds)" "appends P ?s s'"
        "result (f p) s' = result (scan_dir f ds) ?s"
      using Cons.IH [of ?s] Cons.prems eq by auto
    ultimately show ?thesis
      using True by (auto intro: app.effect_trans)
  next
    case False
    then show ?thesis
      using Cons by (fastforce simp: case_prod_beta intro: app.effect_refl split: if_splits)
  qed
qed

lemma scan_steady:
  assumes "\<And>p t. result (f p) (s\<lparr>trace := t\<rparr>) = v p"
  shows "result (scan_dir f ds) (s\<lparr>trace := t\<rparr>) = first_hit v (pids ds)"
proof (induction ds arbitrary: t)
  case Nil
  show ?case by (simp add: first_hit_def)
next
  case (Cons d ds)
  let ?p = "atoi (fst d)"
  have "after (f ?p) (s\<lparr>trace := t\<rparr>) = s\<lparr>trace := t @ calls (f ?p) (s\<lparr>trace := t\<rparr>)\<rparr>"
    using only_after [OF probe_calls, of ?p "s\<lparr>trace := t\<rparr>"] by simp
  then show ?case
    using assms [of ?p t] Cons.IH by (auto simp: case_prod_beta first_hit_def)
qed

end

lemma only_probe_thread: "only is_proc_read (probe_thread name pid tid)"
  unfolding probe_thread_def get_thread_name_def Let_def by (intro only_rules) simp_all

interpretation threads: probe "probe_thread name pid" is_proc_read for name pid
  by unfold_locales (rule only_probe_thread)

lemma only_find_threads: "only is_proc_read (find_threads_by_name name pid)"
  unfolding find_threads_by_name_def Let_def by (intro only_rules threads.scan_calls) simp_all

interpretation procs: probe "find_threads_by_name name" is_proc_read for name
  by unfold_locales (rule only_find_threads)

lemma only_pid_by_nspid: "only is_proc_read (pid_by_nspid name nspid p)"
  unfolding pid_by_nspid_def Let_def by (intro only_rules) simp_all

interpretation nspids: probe "pid_by_nspid name nspid" is_proc_read for name nspid
  by unfold_locales (rule only_pid_by_nspid)

lemma only_get_pid_by_name [only_intros]: "only is_proc_read (get_pid_by_name name b)"
  unfolding get_pid_by_name_def
  by (auto split: option.split bool.split intro!: only_rules procs.scan_calls)

lemma only_get_pid_by_nspid [only_intros]: "only is_proc_read (get_pid_by_nspid name n b)"
  unfolding get_pid_by_nspid_def
  by (auto split: option.split bool.split intro!: only_rules nspids.scan_calls)


section \<open>Affinity: properties\<close>

lemma bit_CPU_SET: "c < 1024 \<Longrightarrow> bit (CPU_SET c s) i \<longleftrightarrow> i = c \<or> bit s i"
  by (auto simp: CPU_SET_def bit_set_bit_iff bit_imp_le_length possible_bit_def)

lemma bit_cpumask_fold:
  "\<forall>i\<in>set xs. i < 1024 \<Longrightarrow>
    bit (fold (\<lambda>i cpuset. if m AND push_bit i 1 \<noteq> 0 then CPU_SET i cpuset else cpuset) xs s) j \<longleftrightarrow>
      bit s j \<or> j \<in> set xs \<and> bit (m :: u64) j"
  by (induction xs arbitrary: s)
    (auto simp: bit_CPU_SET push_bit_eq_mult and_exp_eq_0_iff_not_bit)

lemma bit_cpumask_set: "bit (cpumask_set m) i \<longleftrightarrow> bit m i"
  using bit_cpumask_fold [of "[0..<64]" m CPU_ZERO i] bit_imp_le_length [of m i]
  by (auto simp: cpumask_set_def CPU_ZERO_def)

lemma cpumask_set_ucast: "cpumask_set m = ucast m"
  by (rule bit_word_eqI) (simp add: bit_cpumask_set bit_unsigned_iff)

text \<open>
  Pinning a process to a CPU never names a CPU that is not online: the mask passed to the kernel
  is the single requested CPU when it is one of the online CPUs and CPU 0 otherwise. The code
  is TTSCHED_ERROR_SYSTEM when the number of CPUs is unknown (then the kernel is not
  asked), TTSCHED_ERROR_PERMISSION when the kernel refuses, and success otherwise.
\<close>

theorem set_affinity_online:
  fixes s pid cpu
  defines "n \<equiv> to_int32 (ret (answers s (length (trace s)) (Kern Sysconf_nprocessors)))"
  defines "set_call \<equiv> Kern (Sched_setaffinity pid (CPU_SET (if 0 \<le> cpu \<and> cpu < n then nat cpu else 0) CPU_ZERO))"
  assumes "n \<le> 1024"
  shows "calls (set_affinity pid cpu) s =
      (if n < 0 then [Kern Sysconf_nprocessors] else [Kern Sysconf_nprocessors, set_call]) \<and>
    result (set_affinity pid cpu) s =
      (if n < 0 then TTSCHED_ERROR_SYSTEM
       else if ret (answers s (Suc (length (trace s))) set_call) = -1 then TTSCHED_ERROR_PERMISSION
       else TTSCHED_SUCCESS) \<and>
    (\<forall>i. bit (CPU_SET (if 0 \<le> cpu \<and> cpu < n then nat cpu else 0) CPU_ZERO) i \<longrightarrow>
       int i = cpu \<and> int i < n \<or> i = 0)"
proof (intro conjI)
  show "\<forall>i. bit (CPU_SET (if 0 \<le> cpu \<and> cpu < n then nat cpu else 0) CPU_ZERO) i \<longrightarrow>
       int i = cpu \<and> int i < n \<or> i = 0"
    using assms(3) by (auto simp: bit_CPU_SET CPU_ZERO_def)
qed (auto simp: set_affinity_def calls_def Let_def n_def set_call_def)

lemma set_affinity_online_witness:
  "result (set_affinity 77 9) (os_of (\<lambda>c. answer0\<lparr>ret := 4\<rparr>)) = TTSCHED_SUCCESS \<and>
   calls (set_affinity 77 9) (os_of (\<lambda>c. answer0\<lparr>ret := 4\<rparr>)) =
     [Kern Sysconf_nprocessors, Kern (Sched_setaffinity 77 (CPU_SET 0 CPU_ZERO))]"
  using set_affinity_online [of "os_of (\<lambda>c. answer0\<lparr>ret := 4\<rparr>)" 77 9]
  by (simp add: to_int32_id)

text \<open>
  A 64-bit CPU mask is passed to the kernel bit for bit: CPU \<open>i\<close> is in the set handed over exactly
  when bit \<open>i\<close> of the mask is set, no CPU beyond the 64th ever is, and the call succeeds
  exactly when the kernel's does.
\<close>

theorem set_affinity_cpumask_bits:
  "calls (set_affinity_cpumask pid m) s = [Kern (Sched_setaffinity pid (ucast m))] \<and>
   (bit (cpumask_set m) i \<longleftrightarrow> i < 64 \<and> bit m i) \<and>
   (result (set_affinity_cpumask pid m) s = TTSCHED_SUCCESS \<longleftrightarrow>
      0 \<le> ret (answers s (length (trace s)) (Kern (Sched_setaffinity pid (ucast m)))))"
  using bit_imp_le_length [of m i]
  by (auto simp: set_affinity_cpumask_def calls_def cpumask_set_ucast [symmetric] bit_cpumask_set)

subsection \<open>All threads of a process\<close>

text \<open>The number of threads for which the kernel accepts the mask, asked in listing order.\<close>

primrec accepted :: "u64 \<Rightarrow> os \<Rightarrow> nat \<Rightarrow> int list \<Rightarrow> nat" where
  "accepted m s n [] = 0"
| "accepted m s n (t # ts) =
     (if ret (answers s n (Kern (Sched_setaffinity t (ucast m)))) < 0 then 0 else 1) + accepted m s (Suc n) ts"

lemma accepted_le: "accepted m s n ts \<le> length ts"
  by (induction ts arbitrary: n) (auto intro: le_SucI)

lemma accepted_trace [simp]: "accepted m (s\<lparr>trace := t\<rparr>) n ts = accepted m s n ts"
  by (induction ts arbitrary: n) simp_all

lemma run_affinity_threads:
  "run_state (affinity_threads m ds a b) s =
    ((a + accepted m s (length (trace s)) (pids ds),
      b + (length (pids ds) - accepted m s (length (trace s)) (pids ds))),
     s\<lparr>trace := trace s @ map (\<lambda>t. Kern (Sched_setaffinity t (ucast m))) (pids ds)\<rparr>)"
proof (induction ds arbitrary: a b s)
  case Nil
  show ?case by simp
next
  case (Cons d ds)
  let ?n = "Suc (length (trace s))"
  have "accepted m s ?n (pids ds) \<le> length (pids ds)" by (rule accepted_le)
  then show ?case
    by (auto simp: Cons.IH set_affinity_cpumask_def cpumask_set_ucast)
qed

text \<open>
  Setting the mask for all threads of a process: the kernel is asked once for every numeric
  directory of the task directory, in the order of the listing and whatever the earlier
  answers were, and the directory is closed. The result is success exactly when there is no thread
  or the kernel accepted the mask for at least one.
\<close>

theorem all_threads_affinity:
  fixes s pid m
  defines "path \<equiv> ''/proc/'' @ printf_d pid @ ''/task''"
  defines "d \<equiv> answers s (length (trace s)) (Kern (Opendir path))"
  defines "tids \<equiv> pids (out_dir d)"
  defines "ok \<equiv> accepted m s (Suc (length (trace s))) tids"
  assumes "0 < pid" and "ret d \<noteq> 0"
  shows "calls (set_affinity_cpumask_all_threads pid m) s =
      Kern (Opendir path) # map (\<lambda>t. Kern (Sched_setaffinity t (ucast m))) tids @ [Kern (Closedir path)] \<and>
    result (set_affinity_cpumask_all_threads pid m) s =
      (if tids = [] \<or> 0 < ok then TTSCHED_SUCCESS else TTSCHED_ERROR_PERMISSION)"
  using assms(5,6) accepted_le [of m s "Suc (length (trace s))" tids]
  by (auto simp: set_affinity_cpumask_all_threads_def calls_def Let_def run_affinity_threads
      path_def d_def tids_def ok_def)

lemma all_threads_affinity_witness:
  "\<exists>s. calls (set_affinity_cpumask_all_threads 5 3) s =
     [Kern (Opendir ''/proc/5/task''), Kern (Sched_setaffinity 5 3), Kern (Sched_setaffinity 6 3),
      Kern (Closedir ''/proc/5/task'')] \<and>
     result (set_affinity_cpumask_all_threads 5 3) s = TTSCHED_SUCCESS"
proof -
  let ?s = "os_of (\<lambda>c. answer0\<lparr>ret := 1, out_dir := [(''.'', True), (''..'', True), (''5'', True), (''6'', True)]\<rparr>)"
  have n: "atoi ''.'' = 0" "atoi ''..'' = 0" "atoi ''5'' = 5" "atoi ''6'' = 6"
    by (simp_all add: atoi_def strtol10_def cstr_def is_space_def is_digit_def to_int32_id)
  have p: "printf_d 5 = ''5''"
    by code_simp
  show ?thesis
    using all_threads_affinity [of 5 ?s 3] by (intro exI [of _ ?s]) (simp add: n p)
qed


section \<open>Search: properties\<close>

text \<open>
  A system whose answers do not depend on when a call is made: the processes neither start nor
  end nor change their names during the search.
\<close>

definition steady :: "os \<Rightarrow> bool" where
  "steady s \<longleftrightarrow> (\<forall>n m. answers s n = answers s m)"

lemma steadyE:
  assumes "steady s"
  obtains f where "answers s = (\<lambda>n. f)"
  using assms by (metis (no_types, opaque_lifting) ext steady_def)

lemma steady_os_of [simp]: "steady (os_of f)"
  by (simp add: steady_def)

definition comm_of :: "os \<Rightarrow> int \<Rightarrow> int \<Rightarrow> string" where
  "comm_of s pid tid =
     (let f = answers s 0 (Kern (Fopen (''/proc/'' @ printf_d pid @ ''/task/'' @ printf_d tid @ ''/comm'') ''r''))
      in if ret f = 0 then cstr (out_text f)
         else takeWhile (\<lambda>c. c \<noteq> CHR 0x0A) (cstr (take 255 (out_text f))))"

definition dir_pids :: "os \<Rightarrow> string \<Rightarrow> int list" where
  "dir_pids s path =
     (let d = answers s 0 (Kern (Opendir path)) in if ret d = 0 then [] else pids (out_dir d))"

definition threads_named :: "os \<Rightarrow> string \<Rightarrow> int \<Rightarrow> int list" where
  "threads_named s name pid =
     filter (\<lambda>tid. comm_of s pid tid = cstr name) (dir_pids s (''/proc/'' @ printf_d pid @ ''/task''))"

abbreviation hd_or_fail :: "int list \<Rightarrow> int" where
  "hd_or_fail ps \<equiv> (case ps of [] \<Rightarrow> -1 | p # _ \<Rightarrow> p)"

lemma first_hit_filter:
  "\<forall>p\<in>set ps. 0 < p \<Longrightarrow> first_hit (\<lambda>p. if Q p then p else -1) ps = hd_or_fail (filter Q ps)"
  by (induction ps) (auto simp: first_hit_def)

lemma first_hit_concat:
  "\<forall>p\<in>set ps. \<forall>t\<in>set (h p). 0 < t \<Longrightarrow>
    first_hit (\<lambda>p. hd_or_fail (h p)) ps = hd_or_fail (concat (map h ps))"
  by (induction ps) (auto simp: first_hit_def split: list.split)

lemma dir_pids_pos: "p \<in> set (dir_pids s path) \<Longrightarrow> 0 < p"
  by (auto simp: dir_pids_def Let_def pids_pos split: if_splits)

lemma cstr_takeWhile: "cstr (takeWhile P (cstr t)) = takeWhile P (cstr t)"
  using NUL_notin_cstr [of t] by (intro cstr_id) (auto dest: set_takeWhileD)

lemma steady_probe:
  assumes "steady s"
  shows "result (probe_thread name pid tid) (s\<lparr>trace := t\<rparr>) = (if comm_of s pid tid = cstr name then tid else -1)"
proof -
  from assms obtain f where f: "answers s = (\<lambda>n. f)" by (rule steadyE)
  show ?thesis
    using cstr_takeWhile
    by (auto simp: probe_thread_def get_thread_name_def comm_of_def Let_def f)
qed

lemma first_hit_empty [simp]: "first_hit v [] = -1"
  by (simp add: first_hit_def)

lemma steady_find_threads:
  assumes "steady s"
  shows "result (find_threads_by_name name pid) (s\<lparr>trace := t\<rparr>) = hd_or_fail (threads_named s name pid)"
proof -
  from assms obtain f where f: "answers s = (\<lambda>n. f)" by (rule steadyE)
  have "result (scan_dir (probe_thread name pid) ds) (s\<lparr>trace := t'\<rparr>) =
      hd_or_fail (filter (\<lambda>tid. comm_of s pid tid = cstr name) (pids ds))" for ds t'
    using threads.scan_steady [OF steady_probe [OF assms], where ds = ds and t = t']
    by (simp add: first_hit_filter pids_pos)
  then show ?thesis
    by (simp add: find_threads_by_name_def threads_named_def dir_pids_def Let_def case_prod_beta f)
qed

lemma steady_get_pid_by_name:
  assumes "steady s"
  shows "result (get_pid_by_name (Some name) True) s =
    (case concat (map (threads_named s name) (dir_pids s ''/proc'')) of
       [] \<Rightarrow> (TTSCHED_ERROR_SYSTEM, Some (-1))
     | tid # _ \<Rightarrow> (TTSCHED_SUCCESS, Some tid))"
proof -
  from assms obtain f where f: "answers s = (\<lambda>n. f)" by (rule steadyE)
  have pos: "0 < t" if "t \<in> set (threads_named s name p)" for t p
    using that by (auto simp: threads_named_def dest: dir_pids_pos)
  have scan: "result (scan_dir (find_threads_by_name name) ds) (s\<lparr>trace := t\<rparr>) =
      hd_or_fail (concat (map (threads_named s name) (pids ds)))" for ds t
    using procs.scan_steady [OF steady_find_threads [OF assms], where ds = ds and t = t] pos
    by (simp add: first_hit_concat)
  have ne: "hd_or_fail (concat (map (threads_named s name) ps)) = -1 \<longleftrightarrow>
      concat (map (threads_named s name) ps) = []" for ps
  proof (cases "concat (map (threads_named s name) ps)")
    case (Cons t ts)
    then have "t \<in> set (concat (map (threads_named s name) ps))" by simp
    then have "0 < t" using pos by auto
    then show ?thesis using Cons by simp
  next
    case Nil
    show ?thesis by (simp only: Nil list.case simp_thms)
  qed
  show ?thesis
    by (auto simp: get_pid_by_name_def dir_pids_def Let_def case_prod_beta scan ne f
        simp del: concat_eq_Nil_conv split: list.split)
qed

text \<open>
  The search for a task by name, on a system that does not change meanwhile: it succeeds exactly
  when some thread of some process has that name, and then returns the first such thread in
  the order of the directory listings; otherwise it reports TTSCHED_ERROR_SYSTEM and leaves -1
  in the result.
\<close>

theorem get_pid_by_name_first:
  assumes "steady s"
  shows "result (get_pid_by_name (Some name) True) s =
    (case concat (map (threads_named s name) (dir_pids s ''/proc'')) of
       [] \<Rightarrow> (TTSCHED_ERROR_SYSTEM, Some (-1))
     | tid # _ \<Rightarrow> (TTSCHED_SUCCESS, Some tid))"
  by (rule steady_get_pid_by_name [OF assms])

lemma get_pid_by_name_first_witness:
  "\<exists>s. steady s \<and> result (get_pid_by_name (Some ''cam'') True) s = (TTSCHED_SUCCESS, Some 7)"
proof -
  let ?f = "\<lambda>c. case c of
      Kern (Opendir p) \<Rightarrow> answer0\<lparr>ret := 1, out_dir := (if p = ''/proc'' then [(''.'', True), (''7'', True)] else [(''7'', True)])\<rparr>
    | Kern (Fopen p m) \<Rightarrow> answer0\<lparr>ret := 1, out_text := ''cam'' @ [CHR 0x0A]\<rparr>
    | _ \<Rightarrow> answer0"
  define s where "s = os_of ?f"
  have n: "atoi ''.'' = 0" "atoi ''7'' = 7"
    by (simp_all add: atoi_def strtol10_def cstr_def is_space_def is_digit_def to_int32_id)
  have "concat (map (threads_named s ''cam'') (dir_pids s ''/proc'')) = [7]"
    by (simp add: s_def dir_pids_def threads_named_def comm_of_def n cstr_def)
  moreover have st: "steady s" by (simp add: s_def)
  ultimately have "result (get_pid_by_name (Some ''cam'') True) s = (TTSCHED_SUCCESS, Some 7)"
    using get_pid_by_name_first [of s "''cam''"] by (simp only: list.case)
  with st show ?thesis by blast
qed

text \<open>
  The search for a containerised process: a pid that is returned was read, during the search, from
  the status file of a numeric entry of /proc, by the scan for the given name and container
  pid, and whatever the system answers, only reads of /proc are made.
\<close>

theorem get_pid_by_nspid_sound:
  assumes "result (get_pid_by_nspid (Some name) nspid True) s = (TTSCHED_SUCCESS, Some pid)"
  shows "\<exists>p f. p \<in> set (pids (out_dir (answers s (length (trace s)) (Kern (Opendir ''/proc''))))) \<and>
      (\<exists>n. f = answers s n (Kern (Fopen (''/proc/'' @ printf_d p @ ''/status'') ''r''))) \<and> ret f \<noteq> 0 \<and>
      pid = nspid_scan (concat (out_strings f)) name nspid (fgets_lines 255 (out_text f)) \<and> pid \<noteq> -1 \<and>
      list_all is_proc_read (calls (get_pid_by_nspid (Some name) nspid True) s)"
proof -
  let ?s0 = "s\<lparr>trace := trace s @ [Kern (Opendir ''/proc'')]\<rparr>"
  let ?ds = "out_dir (answers s (length (trace s)) (Kern (Opendir ''/proc'')))"
  have scan: "result (scan_dir (pid_by_nspid name nspid) ?ds) ?s0 = pid" and "pid \<noteq> -1"
    using assms by (auto simp: get_pid_by_nspid_def case_prod_beta split: if_splits)
  then obtain p s' where p: "p \<in> set (pids ?ds)" and s': "appends is_proc_read ?s0 s'"
      and r: "result (pid_by_nspid name nspid p) s' = pid"
    using nspids.scan_found [of name nspid ?ds ?s0] by auto
  from s' have ans: "answers s' = answers s" by (auto simp: appends_def)
  let ?f = "answers s (length (trace s')) (Kern (Fopen (''/proc/'' @ printf_d p @ ''/status'') ''r''))"
  have "ret ?f \<noteq> 0" "pid = nspid_scan (concat (out_strings ?f)) name nspid (fgets_lines 255 (out_text ?f))"
    using r \<open>pid \<noteq> -1\<close> by (auto simp: pid_by_nspid_def Let_def ans split: if_splits)
  with p \<open>pid \<noteq> -1\<close> only_calls [OF only_get_pid_by_nspid] show ?thesis by blast
qed

lemma get_pid_by_nspid_sound_witness:
  "\<exists>s p. p \<in> set (pids (out_dir (answers s (length (trace s)) (Kern (Opendir ''/proc''))))) \<and>
     result (get_pid_by_nspid (Some ''cam'') 1 True) s = (TTSCHED_SUCCESS, Some 7)"
proof -
  let ?text = "''Name:'' @ [CHR 0x09] @ ''cam'' @ [CHR 0x0A] @ ''NSpid:'' @ [CHR 0x09] @ ''7 1'' @ [CHR 0x0A]"
  define s where "s = os_of (\<lambda>c. answer0\<lparr>ret := 1, out_dir := [(''7'', True)], out_text := ?text\<rparr>)"
  have n: "atoi ''7'' = 7"
    by (simp_all add: atoi_def strtol10_def cstr_def is_space_def is_digit_def to_int32_id)
  have "nspid_scan [] ''cam'' 1 (fgets_lines 255 ?text) = 7"
    by code_simp
  then have r: "result (get_pid_by_nspid (Some ''cam'') 1 True) s = (TTSCHED_SUCCESS, Some 7)"
    by (simp add: s_def get_pid_by_nspid_def pid_by_nspid_def Let_def n answer0_def
        del: fgets_lines.simps nspid_scan.simps)
  from get_pid_by_nspid_sound [OF r] r show ?thesis by blast
qed

lemma create_pidfd_valid:
  "result (create_pidfd pid True) s = (TTSCHED_SUCCESS, Some fd) \<Longrightarrow> 0 < pid \<and> 0 \<le> fd"
  by (auto simp: create_pidfd_def open_pidfd_syscall_def split: if_splits)

text \<open>
  Scheduling attributes: the kernel is asked only for a priority of at most 99 and one of the
  policies NORMAL, FIFO and RR, once, with the given values and every other attribute zero;
  any other request is refused as invalid without a call.
\<close>

theorem set_schedattr_valid:
  "calls (set_schedattr pid priority policy) s =
     (if unat priority \<le> 99 \<and> unat policy \<le> 2
      then [Kern (Sched_setattr pid \<lparr>sa_size = 48, sa_sched_policy = policy, sa_sched_flags = 0,
              sa_sched_nice = 0, sa_sched_priority = priority, sa_sched_runtime = 0,
              sa_sched_deadline = 0, sa_sched_period = 0\<rparr> 0)]
      else []) \<and>
   (result (set_schedattr pid priority policy) s = TTSCHED_ERROR_INVALID_ARGS \<longleftrightarrow>
      99 < unat priority \<or> 2 < unat policy)"
proof -
  have pol: "unat policy \<le> 2 \<longleftrightarrow> policy = 0 \<or> policy = 1 \<or> policy = 2"
  proof -
    have "unat policy \<le> 2 \<longleftrightarrow> unat policy = 0 \<or> unat policy = 1 \<or> unat policy = 2" by auto
    then show ?thesis by (simp add: word_unat_eq_iff)
  qed
  have pri: "unat priority \<le> 99 \<longleftrightarrow> \<not> 99 < priority"
    by (simp add: word_less_nat_alt not_less)
  show ?thesis
    unfolding not_le [symmetric] pol pri
    by (auto simp: set_schedattr_def set_sched_attr_syscall_def calls_def sched_policies Let_def)
qed

end
