(* ===== verification/Apex.thy ===== *)
theory Apex
  imports Sched Trpc
begin

text \<open>
  The supervision of Apex.OS processes: the socket on which their events arrive, the reports to the
  data provider (\<^verbatim>\<open>timpani-n/src/apex_monitor.c\<close>), and the handlers of the events
  (\<^verbatim>\<open>handle_apex_*_event\<close> of \<^verbatim>\<open>timpani-n/src/core.c\<close>). The list of supervised processes is part of
  the context; an element is named by its position where a timer refers to it. The lemmas say
  what each event does to the list, when a fault is escalated, and which CPUs a process
  gets in the normal case and after a fault.
\<close>

section \<open>The monitor socket\<close>

definition SOCKET_DIR :: string where "SOCKET_DIR = ''/tmp/timpani/''"
definition SOCKET_PATH :: string where "SOCKET_PATH = SOCKET_DIR @ ''timpani.sock''"
definition COREDATA_SOCKET_PATH :: string where "COREDATA_SOCKET_PATH = ''/tmp/appdata/appdata.sock''"

text \<open>The modes are 0755 for the directory and 0622 for the socket.\<close>

definition apex_monitor_init :: "tt_context \<Rightarrow> (tt_error \<times> tt_context) io" where
  "apex_monitor_init ctx = do {
     server_fd \<leftarrow> kern (Socket ''unix'');
     if ret server_fd = -1 then return_io (TT_ERROR_NETWORK, ctx)
     else do {
       a \<leftarrow> kern (Access SOCKET_PATH);
       _ \<leftarrow> (if ret a = 0 then kern (Unlink SOCKET_PATH) else kern (Mkdir SOCKET_DIR 493));
       b \<leftarrow> kern (Bind (ret server_fd) SOCKET_PATH);
       if ret b < 0 then do {
         _ \<leftarrow> kern (Close (ret server_fd));
         return_io (TT_ERROR_NETWORK, ctx)
       }
       else do {
         c \<leftarrow> kern (Chmod SOCKET_PATH 402);
         if ret c < 0 then do {
           _ \<leftarrow> kern (Close (ret server_fd));
           _ \<leftarrow> kern (Unlink SOCKET_PATH);
           return_io (TT_ERROR_NETWORK, ctx)
         }
         else return_io (TT_SUCCESS, ctx\<lparr>cx_apex_fd := ret server_fd\<rparr>)
       }
     }
   }"

definition apex_monitor_cleanup :: "tt_context \<Rightarrow> tt_context io" where
  "apex_monitor_cleanup ctx =
     (if cx_apex_fd ctx \<noteq> -1 then do {
        let server_fd = cx_apex_fd ctx;
        _ \<leftarrow> kern (Close server_fd);
        _ \<leftarrow> kern (Unlink SOCKET_PATH);
        return_io (ctx\<lparr>cx_apex_fd := -1\<rparr>)
      }
      else return_io ctx)"

text \<open>
  The output arguments are passed in with their old contents (\<open>None\<close> for a NULL pointer) and
  returned with their new ones.
\<close>

definition apex_monitor_recv ::
  "tt_context \<Rightarrow> string option \<Rightarrow> nat \<Rightarrow> int option \<Rightarrow> int option \<Rightarrow>
     (tt_error \<times> string option \<times> int option \<times> int option) io" where
  "apex_monitor_recv ctx name sz pid type = do {
     r \<leftarrow> kern (Recvfrom (cx_apex_fd ctx));
     if ret r < 0 then
       (if errno r = EAGAIN then return_io (TT_ERROR_IO, name, pid, type)
        else return_io (TT_ERROR_NETWORK, name, pid, type))
     else if ret r = 0 then return_io (TT_ERROR_IO, name, pid, type)
     else (case out_msg r of
        Msg_fault n t \<Rightarrow>
          return_io (TT_SUCCESS, map_option (\<lambda>_. strncpy_field sz n) name, pid,
            map_option (\<lambda>_. apex_type_code APEX_FAULT) type)
      | Msg_up n p \<Rightarrow>
          return_io (TT_SUCCESS, map_option (\<lambda>_. strncpy_field sz n) name, map_option (\<lambda>_. p) pid,
            map_option (\<lambda>_. apex_type_code APEX_UP) type)
      | Msg_down p \<Rightarrow>
          return_io (TT_SUCCESS, name, map_option (\<lambda>_. p) pid, map_option (\<lambda>_. apex_type_code APEX_DOWN) type)
      | Msg_reset \<Rightarrow> return_io (TT_SUCCESS, name, pid, map_option (\<lambda>_. apex_type_code APEX_RESET) type)
      | Msg_unknown t \<Rightarrow> return_io (TT_ERROR_IO, name, pid, type))
   }"

section \<open>The list of supervised processes\<close>

primrec init_apexes :: "task_info list \<Rightarrow> tt_context \<Rightarrow> nat \<Rightarrow> (tt_context \<times> nat) io" where
  "init_apexes [] ctx success_count = return_io (ctx, success_count)"
| "init_apexes (ti # tis) ctx success_count =
     (if cstr (cfg_node_id (cx_config ctx)) \<noteq> cstr (ti_node_id ti) then init_apexes tis ctx success_count
      else do {
        a \<leftarrow> kern (Calloc ''apex_info'');
        if ret a = 0 then init_apexes tis ctx success_count
        else init_apexes tis (ctx\<lparr>cx_apex_list := zero_apex_info\<lparr>ax_task := ti\<rparr> # cx_apex_list ctx\<rparr>)
               (success_count + 1)
      })"

definition init_apex_list :: "tt_context \<Rightarrow> (tt_error \<times> tt_context) io" where
  "init_apex_list ctx = do {
     (ctx', success_count) \<leftarrow> init_apexes (si_tasks (cx_sched_info ctx)) ctx 0;
     if success_count = 0 then return_io (TT_ERROR_CONFIG, ctx') else return_io (TT_SUCCESS, ctx')
   }"

section \<open>Reports to the data provider\<close>

definition coredata_client_init :: "int io" where
  "coredata_client_init = do {
     f \<leftarrow> kern (Socket ''unix'');
     if ret f = -1 then return_io (-1) else return_io (ret f)
   }"

definition dmiss_msg :: "apex_info \<Rightarrow> dmiss_status_msg" where
  "dmiss_msg app = \<lparr>dm_name = strncpy_field 256 (ax_name app), dm_pid = ax_nspid app,
     dm_period_us = uint (ti_period (ax_task app)),
     dm_dmiss_max = sint (ti_allowable_deadline_misses (ax_task app)),
     dm_dmiss_count = sint (ax_dmiss_count app)\<rparr>"

text \<open>The socket is opened at the first report and kept in a static variable.\<close>

definition coredata_client_send :: "apex_info \<Rightarrow> tt_error io" where
  "coredata_client_send app = do {
     g \<leftarrow> get_globals;
     fd \<leftarrow> (if g_coredata_fd g = -1 then coredata_client_init else return_io (g_coredata_fd g));
     if fd = -1 then return_io TT_ERROR_IO
     else do {
       set_globals (g\<lparr>g_coredata_fd := fd\<rparr>);
       r \<leftarrow> kern (Sendto fd (dmiss_msg app) COREDATA_SOCKET_PATH);
       if ret r = -1 then return_io TT_ERROR_IO else return_io TT_SUCCESS
     }
   }"

definition coredata_timer_handler :: "apex_info \<Rightarrow> apex_info io" where
  "coredata_timer_handler app = do {
     app' \<leftarrow> (if ax_dmiss_time_us app \<noteq> 0 then do {
         a \<leftarrow> kern (Clock_gettime CLOCK_MONOTONIC);
         let delta = tt_timespec_to_us (out_ts a) - ax_dmiss_time_us app;
         if delta > ucast (ti_period (ax_task app))
         then return_io (app\<lparr>ax_dmiss_count := 0, ax_dmiss_time_us := 0\<rparr>)
         else return_io app
       }
       else return_io app);
     _ \<leftarrow> coredata_client_send app';
     return_io app'
   }"

definition coredata_its :: itimerspec where
  "coredata_its = \<lparr>it_value = Timespec 0 1000, it_interval = Timespec 0 500000000\<rparr>"

text \<open>The process at position \<open>i\<close> of the list gets its timer.\<close>

definition coredata_create_timer :: "nat \<Rightarrow> apex_info \<Rightarrow> (tt_error \<times> apex_info) io" where
  "coredata_create_timer i app = do {
     a \<leftarrow> kern (Timer_create CLOCK_REALTIME (Notify_coredata i));
     if ret a = -1 then return_io (TT_ERROR_TIMER, app)
     else do {
       let app' = app\<lparr>ax_coredata_timer := out_timer a\<rparr>;
       b \<leftarrow> kern (Timer_settime (ax_coredata_timer app') False coredata_its);
       if ret b = -1 then do {
         _ \<leftarrow> kern (Timer_delete (ax_coredata_timer app'));
         return_io (TT_ERROR_TIMER, app')
       }
       else return_io (TT_SUCCESS, app')
     }
   }"

definition coredata_delete_timer :: "apex_info \<Rightarrow> unit io" where
  "coredata_delete_timer app =
     (if ax_coredata_timer app \<noteq> 0 then do { _ \<leftarrow> kern (Timer_delete (ax_coredata_timer app)); return_io () }
      else return_io ())"

section \<open>Events\<close>

text \<open>The loop over the list up to the first element with \<open>P\<close>; \<open>i\<close> is the position.\<close>

primrec on_first ::
  "(apex_info \<Rightarrow> bool) \<Rightarrow> (nat \<Rightarrow> apex_info \<Rightarrow> (tt_error \<times> apex_info) io) \<Rightarrow> nat \<Rightarrow> apex_info list \<Rightarrow>
     (tt_error \<times> apex_info list) io" where
  "on_first P f i [] = return_io (TT_ERROR_INVALID_ARGS, [])"
| "on_first P f i (apex # rest) =
     (if P apex then do { (e, apex') \<leftarrow> f i apex; return_io (e, apex' # rest) }
      else do { (e, rest') \<leftarrow> on_first P f (i + 1) rest; return_io (e, apex # rest') })"

definition affinity_fault :: "u64 \<Rightarrow> u64" where
  "affinity_fault cpu_affinity = drop_bit 32 (cpu_affinity AND 0xFFFFFFFF00000000)"

definition affinity_normal :: "u64 \<Rightarrow> u64" where
  "affinity_normal cpu_affinity = cpu_affinity AND 0xFFFFFFFF"

text \<open>The window of the misses: a miss later than one period after the first one starts a new window.\<close>

definition count_miss :: "u64 \<Rightarrow> apex_info \<Rightarrow> apex_info" where
  "count_miss now_us apex =
     (let delta = now_us - ax_dmiss_time_us apex
      in if ax_dmiss_time_us apex = 0 \<or> delta > ucast (ti_period (ax_task apex))
         then apex\<lparr>ax_dmiss_count := 1, ax_dmiss_time_us := now_us\<rparr>
         else apex\<lparr>ax_dmiss_count := ax_dmiss_count apex + 1\<rparr>)"

text \<open>A fault: it is reported, the counters start again and the process moves to its spare CPUs.\<close>

definition apex_escalate :: "tt_context \<Rightarrow> string \<Rightarrow> apex_info \<Rightarrow> (tt_error \<times> apex_info) io" where
  "apex_escalate ctx name apex = do {
     _ \<leftarrow> report_deadline_miss ctx name;
     let apex' = apex\<lparr>ax_dmiss_count := 0, ax_dmiss_time_us := 0\<rparr>;
     e \<leftarrow> set_affinity_cpumask_all_threads (sint (ti_pid (ax_task apex')))
            (affinity_fault (ti_cpu_affinity (ax_task apex')));
     if e \<noteq> TTSCHED_SUCCESS then return_io (TT_ERROR_PERMISSION, apex') else return_io (TT_SUCCESS, apex')
   }"

text \<open>The part of the handler after the process is known.\<close>

definition apex_fault_counted :: "tt_context \<Rightarrow> string \<Rightarrow> apex_info \<Rightarrow> (tt_error \<times> apex_info) io" where
  "apex_fault_counted ctx name apex = do {
     a \<leftarrow> kern (Clock_gettime CLOCK_MONOTONIC);
     let apex1 = count_miss (tt_timespec_to_us (out_ts a)) apex;
     _ \<leftarrow> coredata_client_send apex1;
     if ax_dmiss_count apex1 \<ge> ti_allowable_deadline_misses (ax_task apex1)
     then apex_escalate ctx name apex1
     else return_io (TT_SUCCESS, apex1)
   }"

definition apex_fault :: "tt_context \<Rightarrow> string \<Rightarrow> apex_info \<Rightarrow> (tt_error \<times> apex_info) io" where
  "apex_fault ctx name apex =
     (if ti_pid (ax_task apex) = 0
      then do {
        (e, out) \<leftarrow> get_pid_by_name (Some name) True;
        let apex' = (case out of None \<Rightarrow> apex
                     | Some p \<Rightarrow> apex\<lparr>ax_task := (ax_task apex)\<lparr>ti_pid := word_of_int p\<rparr>\<rparr>);
        if e \<noteq> TTSCHED_SUCCESS then return_io (TT_ERROR_INVALID_ARGS, apex')
        else apex_fault_counted ctx name apex'
      }
      else apex_fault_counted ctx name apex)"

definition handle_apex_fault_event :: "tt_context \<Rightarrow> string \<Rightarrow> (tt_error \<times> tt_context) io" where
  "handle_apex_fault_event ctx name = do {
     (e, apexes) \<leftarrow> on_first (\<lambda>apex. strncmp_eq (ti_name (ax_task apex)) name 15)
       (\<lambda>i. apex_fault ctx name) 0 (cx_apex_list ctx);
     return_io (e, ctx\<lparr>cx_apex_list := apexes\<rparr>)
   }"

definition apex_up :: "string \<Rightarrow> int \<Rightarrow> int \<Rightarrow> nat \<Rightarrow> apex_info \<Rightarrow> (tt_error \<times> apex_info) io" where
  "apex_up name pid nspid i apex = do {
     let apex1 = apex\<lparr>ax_task := (ax_task apex)\<lparr>ti_pid := word_of_int pid\<rparr>, ax_nspid := nspid,
                      ax_name := strncpy_field MAX_APEX_NAME_LEN name\<rparr>;
     e \<leftarrow> set_affinity_cpumask_all_threads pid (affinity_normal (ti_cpu_affinity (ax_task apex1)));
     if e \<noteq> TTSCHED_SUCCESS then return_io (TT_ERROR_PERMISSION, apex1)
     else do {
       (_, apex2) \<leftarrow> coredata_create_timer i apex1;
       return_io (TT_SUCCESS, apex2)
     }
   }"

definition handle_apex_up_event :: "tt_context \<Rightarrow> string \<Rightarrow> int \<Rightarrow> (tt_error \<times> tt_context) io" where
  "handle_apex_up_event ctx name nspid = do {
     (e, out) \<leftarrow> get_pid_by_nspid (Some name) nspid True;
     let pid = (if e \<noteq> TTSCHED_SUCCESS then nspid else (case out of None \<Rightarrow> nspid | Some p \<Rightarrow> p));
     (e', apexes) \<leftarrow> on_first (\<lambda>apex. strncmp_eq (ti_name (ax_task apex)) name 15)
       (apex_up name pid nspid) 0 (cx_apex_list ctx);
     return_io (e', ctx\<lparr>cx_apex_list := apexes\<rparr>)
   }"

definition apex_down :: "apex_info \<Rightarrow> (tt_error \<times> apex_info) io" where
  "apex_down apex = do {
     coredata_delete_timer apex;
     return_io (TT_SUCCESS, apex\<lparr>ax_task := (ax_task apex)\<lparr>ti_pid := 0\<rparr>, ax_nspid := 0\<rparr>)
   }"

definition handle_apex_down_event :: "tt_context \<Rightarrow> int \<Rightarrow> (tt_error \<times> tt_context) io" where
  "handle_apex_down_event ctx nspid = do {
     (e, apexes) \<leftarrow> on_first (\<lambda>apex. ax_nspid apex = nspid) (\<lambda>i. apex_down) 0 (cx_apex_list ctx);
     return_io (e, ctx\<lparr>cx_apex_list := apexes\<rparr>)
   }"

text \<open>The loop over all processes; it stops at the first one whose CPUs cannot be set.\<close>

primrec reset_apexes :: "apex_info list \<Rightarrow> (tt_error \<times> apex_info list) io" where
  "reset_apexes [] = return_io (TT_ERROR_INVALID_ARGS, [])"
| "reset_apexes (apex # rest) =
     (let pid = sint (ti_pid (ax_task apex))
      in if pid \<noteq> 0
         then do {
           e \<leftarrow> set_affinity_cpumask_all_threads pid (affinity_normal (ti_cpu_affinity (ax_task apex)));
           if e \<noteq> TTSCHED_SUCCESS then return_io (TT_ERROR_PERMISSION, apex # rest)
           else do {
             let apex' = apex\<lparr>ax_dmiss_count := 0, ax_dmiss_time_us := 0\<rparr>;
             _ \<leftarrow> coredata_client_send apex';
             (e', rest') \<leftarrow> reset_apexes rest;
             return_io (e', apex' # rest')
           }
         }
         else do {
           (e', rest') \<leftarrow> reset_apexes rest;
           return_io (e', apex # rest')
         })"

definition handle_apex_reset_event :: "tt_context \<Rightarrow> (tt_error \<times> tt_context) io" where
  "handle_apex_reset_event ctx = do {
     (e, apexes) \<leftarrow> reset_apexes (cx_apex_list ctx);
     return_io (e, ctx\<lparr>cx_apex_list := apexes\<rparr>)
   }"

text \<open>
  The variables are not initialised in the code; an event reads only those that its message has
  set, so that the initial values here are never looked at.
\<close>

definition handle_apex_events :: "tt_context \<Rightarrow> (tt_error \<times> tt_context) io" where
  "handle_apex_events ctx = do {
     (r, name, nspid, type) \<leftarrow> apex_monitor_recv ctx (Some []) MAX_APEX_NAME_LEN (Some 0) (Some (-1));
     if r \<noteq> TT_SUCCESS then return_io (r, ctx)
     else do {
       (_, ctx') \<leftarrow>
         (if type = Some (apex_type_code APEX_FAULT) then handle_apex_fault_event ctx (the name)
          else if type = Some (apex_type_code APEX_UP) then handle_apex_up_event ctx (the name) (the nspid)
          else if type = Some (apex_type_code APEX_DOWN) then handle_apex_down_event ctx (the nspid)
          else if type = Some (apex_type_code APEX_RESET) then handle_apex_reset_event ctx
          else return_io (TT_SUCCESS, ctx));
       return_io (TT_SUCCESS, ctx')
     }
   }"

section \<open>Effects\<close>

fun is_apex_call :: "call \<Rightarrow> bool" where
  "is_apex_call (Kern (Socket f)) = True"
| "is_apex_call (Kern (Sendto fd m p)) = True"
| "is_apex_call (Kern (Recvfrom fd)) = True"
| "is_apex_call (Kern (Clock_gettime c)) = True"
| "is_apex_call (Kern (Timer_create c e)) = True"
| "is_apex_call (Kern (Timer_settime t a i)) = True"
| "is_apex_call (Kern (Timer_delete t)) = True"
| "is_apex_call c = (is_sched_call c \<or> is_bus c)"

lemma apex_call_mono: "is_sched_call c \<Longrightarrow> is_apex_call c" "is_bus c \<Longrightarrow> is_apex_call c"
  "is_proc_read c \<Longrightarrow> is_apex_call c"
  by (cases c rule: is_apex_call.cases; simp)+

lemma only_send: "only_g is_apex_call (coredata_client_send app)"
  unfolding coredata_client_send_def coredata_client_init_def by (intro only_g_rules) simp_all

lemmas apex_only = only_all_threads [THEN only_mono, THEN only_imp_only_g, OF apex_call_mono(1)]
  only_report [THEN only_mono, THEN only_imp_only_g, OF apex_call_mono(2)]
  only_get_pid_by_name [THEN only_mono, THEN only_imp_only_g, OF apex_call_mono(3)]
  only_get_pid_by_nspid [THEN only_mono, THEN only_imp_only_g, OF apex_call_mono(3)] only_send

lemma only_timer_handler: "only_g is_apex_call (coredata_timer_handler app)"
  unfolding coredata_timer_handler_def Let_def by (intro only_g_rules apex_only) simp_all

lemma only_create_timer: "only_g is_apex_call (coredata_create_timer i app)"
  unfolding coredata_create_timer_def Let_def by (intro only_g_rules) simp_all

lemma only_on_first: "(\<And>i a. only_g P (f i a)) \<Longrightarrow> only_g P (on_first Q f i as)"
  by (induction as arbitrary: i) (auto intro!: only_g_rules)

lemma only_fault: "only_g is_apex_call (apex_fault ctx name apex)"
  unfolding apex_fault_def apex_fault_counted_def apex_escalate_def Let_def
  by (intro only_g_rules apex_only) simp_all

lemma only_up: "only_g is_apex_call (apex_up name pid nspid i apex)"
  unfolding apex_up_def Let_def by (intro only_g_rules apex_only only_create_timer)

lemma only_down: "only_g is_apex_call (apex_down apex)"
  unfolding apex_down_def coredata_delete_timer_def by (intro only_g_rules) simp_all

lemma only_reset: "only_g is_apex_call (reset_apexes as)"
  by (induction as) (auto simp: Let_def intro!: only_g_rules apex_only)

lemma only_apex_events: "only_g is_apex_call (handle_apex_events ctx)"
  unfolding handle_apex_events_def handle_apex_fault_event_def handle_apex_up_event_def
    handle_apex_down_event_def handle_apex_reset_event_def apex_monitor_recv_def Let_def
  by (intro only_g_rules apex_only only_on_first only_fault only_up only_down only_reset)
    (simp_all split: timpani_msg.split add: only_g_rules)

section \<open>Lemmas\<close>

lemma filter_calls_bind:
  assumes "only_g P m" and "\<And>x. only_g P' (f x)"
  shows "filter Q (calls (State_Monad.bind m f) s) =
    filter Q (calls m s) @ filter Q (calls (f (result m s)) (after m s))"
  by (simp only: calls_bind [OF assms] filter_append)

lemma filter_calls_none:
  assumes "only_g P m" and "\<And>c. P c \<Longrightarrow> \<not> Q c"
  shows "filter Q (calls m s) = []"
  using only_g_calls [OF assms(1), of s] assms(2) by (auto simp: list_all_iff filter_empty_conv)

lemma calls_after_sys:
  assumes "run_state m s = run_state m' (s\<lparr>trace := trace s @ [c]\<rparr>)" and "only_g P m'"
  shows "calls m s = c # calls m' (s\<lparr>trace := trace s @ [c]\<rparr>)"
proof -
  let ?s = "s\<lparr>trace := trace s @ [c]\<rparr>"
  have "trace (after m s) = trace s @ c # calls m' ?s"
    unfolding assms(1) only_g_trace [OF assms(2)] by simp
  then show ?thesis unfolding calls_def [of m s] by simp
qed

lemma report_requests:
  "filter is_request (calls (report_deadline_miss ctx t) s) =
     [Bus (Bus_call_method ''DMiss'' [cfg_node_id (cx_config ctx), t])]"
  unfolding report_deadline_miss_def
  by (subst filter_calls_bind [OF only_client_dmiss [THEN only_imp_only_g] tch.effect_return])
    (simp add: dmiss_rq.one_request trpc_methods)

lemma affinity_fault_bits: "affinity_fault a = drop_bit 32 a"
proof -
  have "(0xFFFFFFFF00000000 :: u64) = push_bit 32 (mask 32)"
    by (simp add: mask_eq_exp_minus_1 push_bit_eq_mult)
  then have "affinity_fault a = drop_bit 32 (a AND push_bit 32 (mask 32))"
    unfolding affinity_fault_def by (rule arg_cong)
  also have "\<dots> = drop_bit 32 a"
  proof (rule bit_word_eqI)
    fix n
    have "bit a (32 + n) \<Longrightarrow> n < 32" using bit_imp_le_length [of a "32 + n"] by simp
    then show "bit (drop_bit 32 (a AND push_bit 32 (mask 32))) n = bit (drop_bit 32 a) n"
      unfolding bit_drop_bit_eq comp_def bit_and_iff bit_push_bit_iff bit_mask_iff by auto
  qed
  finally show ?thesis .
qed

text \<open>The loop over the list is a step of the first element that is meant.\<close>

lemma on_first_run:
  assumes "\<forall>a\<in>set pre. \<not> P a" and "P a"
  shows "run_state (on_first P f i (pre @ a # post)) s =
    (let (r, s') = run_state (f (i + length pre) a) s in ((fst r, pre @ snd r # post), s'))"
  using assms by (induction pre arbitrary: i) (simp_all add: case_prod_beta Let_def)

lemma on_first_miss: "\<forall>a\<in>set as. \<not> P a \<Longrightarrow> run_state (on_first P f i as) s = ((TT_ERROR_INVALID_ARGS, as), s)"
  by (induction as arbitrary: i) simp_all

text \<open>A reflexive relation of the elements that every step respects is respected by the loop.\<close>

lemma on_first_rel:
  assumes "\<And>a. R a a" and "\<And>i a s. R a (snd (result (f i a) s))"
  shows "list_all2 R as (snd (result (on_first P f i as) s))"
  by (induction as arbitrary: i s) (auto simp: case_prod_beta assms list.rel_refl)

text \<open>What an escalation may do: one report, and CPU settings with one mask.\<close>

fun is_escalation :: "call \<Rightarrow> bool" where
  "is_escalation (Kern (Sched_setaffinity p m)) = True"
| "is_escalation c = is_request c"

fun uses_mask :: "u64 \<Rightarrow> call \<Rightarrow> bool" where
  "uses_mask m (Kern (Sched_setaffinity p m')) = (m' = ucast m)"
| "uses_mask m c = (\<not> is_request c)"

lemma all_threads_mask: "only (uses_mask m) (set_affinity_cpumask_all_threads pid m)"
proof -
  have "only (uses_mask m) (affinity_threads m ds a b)" for ds a b
    by (induction ds arbitrary: a b)
      (auto intro!: only_rules simp: set_affinity_cpumask_def cpumask_set_ucast)
  then show ?thesis
    unfolding set_affinity_cpumask_all_threads_def Let_def by (intro only_rules) simp_all
qed

lemma escalation_only_request: "is_bus c \<Longrightarrow> is_escalation c = is_request c"
  by (cases c rule: is_escalation.cases) simp_all

text \<open>The calls of a report to the data provider: the socket, at the first report, and one datagram.\<close>

definition send_calls :: "os \<Rightarrow> apex_info \<Rightarrow> call list" where
  "send_calls s app =
     (let fd = g_coredata_fd (globals s); new = ret (answers s (length (trace s)) (Kern (Socket ''unix''))) in
      if fd \<noteq> -1 then [Kern (Sendto fd (dmiss_msg app) COREDATA_SOCKET_PATH)]
      else Kern (Socket ''unix'') # (if new = -1 then [] else [Kern (Sendto new (dmiss_msg app) COREDATA_SOCKET_PATH)]))"

lemma calls_send: "calls (coredata_client_send app) s = send_calls s app"
  by (simp add: coredata_client_send_def coredata_client_init_def send_calls_def calls_def Let_def)

lemma report_escalation:
  "filter is_escalation (calls (report_deadline_miss ctx t) s) =
     [Bus (Bus_call_method ''DMiss'' [cfg_node_id (cx_config ctx), t])]"
proof -
  have "list_all is_bus (calls (report_deadline_miss ctx t) s)" by (rule only_calls [OF only_report])
  then have "filter is_escalation (calls (report_deadline_miss ctx t) s) =
      filter is_request (calls (report_deadline_miss ctx t) s)"
    by (intro filter_cong refl) (auto simp: list_all_iff escalation_only_request)
  then show ?thesis by (simp only: report_requests)
qed

definition escalates :: "apex_info \<Rightarrow> bool" where
  "escalates apex \<longleftrightarrow> ti_allowable_deadline_misses (ax_task apex) \<le> ax_dmiss_count apex"

lemma calls_bind_last:
  assumes "only_g P m" and "only_g P' m'" and "\<And>y. \<exists>x. f y = return_io x"
  shows "calls (State_Monad.bind m (\<lambda>_. State_Monad.bind m' f)) s = calls m s @ calls m' (after m s)"
proof -
  have f: "only_g P' (f y)" "calls (f y) t = []" for y t
    using assms(3) [of y] by (auto simp: tch.effect_return)
  have "only_g P' (State_Monad.bind m' f)" by (rule tch.effect_bind [OF assms(2) f(1)])
  then show ?thesis by (simp add: calls_bind [OF assms(1)] calls_bind [OF assms(2) f(1)] f(2))
qed

definition escalated :: "tt_context \<Rightarrow> string \<Rightarrow> apex_info \<Rightarrow> os \<Rightarrow> tt_error \<times> call list" where
  "escalated ctx name apex s =
     (let spare = set_affinity_cpumask_all_threads (sint (ti_pid (ax_task apex))) (drop_bit 32 (ti_cpu_affinity (ax_task apex)));
          s' = after (report_deadline_miss ctx name) s
      in (if result spare s' = TTSCHED_SUCCESS then TT_SUCCESS else TT_ERROR_PERMISSION,
          calls (report_deadline_miss ctx name) s @ calls spare s'))"

lemma escalate_run:
  "result (apex_escalate ctx name apex) s =
     (fst (escalated ctx name apex s), apex\<lparr>ax_dmiss_count := 0, ax_dmiss_time_us := 0\<rparr>) \<and>
   calls (apex_escalate ctx name apex) s = snd (escalated ctx name apex s) \<and>
   (\<exists>as. filter is_escalation (calls (apex_escalate ctx name apex) s) =
      Bus (Bus_call_method ''DMiss'' [cfg_node_id (cx_config ctx), name]) # as \<and>
      list_all (uses_mask (drop_bit 32 (ti_cpu_affinity (ax_task apex)))) as)"
proof -
  let ?apex = "apex\<lparr>ax_dmiss_count := 0, ax_dmiss_time_us := 0\<rparr>"
  let ?set = "set_affinity_cpumask_all_threads (sint (ti_pid (ax_task apex))) (drop_bit 32 (ti_cpu_affinity (ax_task apex)))"
  let ?last = "\<lambda>e. if e \<noteq> TTSCHED_SUCCESS then return_io (TT_ERROR_PERMISSION, ?apex) else return_io (TT_SUCCESS, ?apex)"
  let ?s = "after (report_deadline_miss ctx name) s"
  have def: "apex_escalate ctx name apex = State_Monad.bind (report_deadline_miss ctx name) (\<lambda>_. State_Monad.bind ?set ?last)"
    by (simp add: apex_escalate_def affinity_fault_bits Let_def)
  have "filter is_escalation (calls (State_Monad.bind ?set ?last) ?s) = filter is_escalation (calls ?set ?s)"
    by (subst filter_calls_bind [where P = is_apex_call and P' = is_apex_call]) (simp_all add: apex_only only_g_rules)
  then have "filter is_escalation (calls (apex_escalate ctx name apex) s) =
      Bus (Bus_call_method ''DMiss'' [cfg_node_id (cx_config ctx), name]) # filter is_escalation (calls ?set ?s)"
    unfolding def
    by (simp only: filter_calls_bind [where P = is_apex_call and P' = is_apex_call, OF apex_only(2) tch.effect_bind
          [OF apex_only(1) tch.effect_if [OF tch.effect_return tch.effect_return]]]
        report_escalation append_Cons append_Nil)
  moreover have "list_all (uses_mask (drop_bit 32 (ti_cpu_affinity (ax_task apex)))) (filter is_escalation (calls ?set ?s))"
    using only_calls [OF all_threads_mask] by (auto simp: list_all_iff)
  moreover have "result (apex_escalate ctx name apex) s = (fst (escalated ctx name apex s), ?apex)"
    unfolding def escalated_def Let_def by (simp add: case_prod_beta)
  moreover have "calls (apex_escalate ctx name apex) s = snd (escalated ctx name apex s)"
    unfolding def escalated_def Let_def snd_conv
    by (rule calls_bind_last [OF apex_only(2) apex_only(1)]) auto
  ultimately show ?thesis by blast
qed

lemma count_miss_task [simp]: "ax_task (count_miss now apex) = ax_task apex"
  by (simp add: count_miss_def Let_def)

lemma fault_counted_run:
  fixes s apex ctx name
  defines "s1 \<equiv> s\<lparr>trace := trace s @ [Kern (Clock_gettime CLOCK_MONOTONIC)]\<rparr>"
  defines "apex1 \<equiv> count_miss (tt_timespec_to_us (out_ts (answers s (length (trace s)) (Kern (Clock_gettime CLOCK_MONOTONIC))))) apex"
  defines "esc \<equiv> escalated ctx name apex1 (after (coredata_client_send apex1) s1)"
  shows "result (apex_fault_counted ctx name apex) s =
      (if escalates apex1 then (fst esc, apex1\<lparr>ax_dmiss_count := 0, ax_dmiss_time_us := 0\<rparr>) else (TT_SUCCESS, apex1)) \<and>
    calls (apex_fault_counted ctx name apex) s =
      Kern (Clock_gettime CLOCK_MONOTONIC) # send_calls s1 apex1 @ (if escalates apex1 then snd esc else []) \<and>
    (\<exists>as. filter is_escalation (calls (apex_fault_counted ctx name apex) s) =
        (if escalates apex1 then Bus (Bus_call_method ''DMiss'' [cfg_node_id (cx_config ctx), name]) # as else []) \<and>
      list_all (uses_mask (drop_bit 32 (ti_cpu_affinity (ax_task apex)))) as)"
proof -
  let ?clk = "Kern (Clock_gettime CLOCK_MONOTONIC)"
  let ?tail = "\<lambda>apex1. if escalates apex1 then apex_escalate ctx name apex1 else return_io (TT_SUCCESS, apex1)"
  let ?send = "coredata_client_send apex1"
  have tail_only: "only_g is_apex_call (?tail a)" for a
    unfolding apex_escalate_def Let_def by (intro only_g_rules apex_only)
  have task: "ax_task apex1 = ax_task apex" by (simp add: apex1_def)
  have run: "run_state (apex_fault_counted ctx name apex) s = run_state (State_Monad.bind ?send (\<lambda>_. ?tail apex1)) s1"
    by (simp add: apex_fault_counted_def Let_def apex1_def s1_def escalates_def case_prod_beta)
  then have "calls (apex_fault_counted ctx name apex) s = ?clk # calls (State_Monad.bind ?send (\<lambda>_. ?tail apex1)) s1"
    unfolding s1_def by (rule calls_after_sys) (rule tch.effect_bind [OF only_send tail_only])
  then have calls: "calls (apex_fault_counted ctx name apex) s =
      ?clk # send_calls s1 apex1 @ calls (?tail apex1) (after ?send s1)"
    by (simp add: calls_bind [OF only_send tail_only] calls_send)
  have "filter is_escalation (send_calls s1 apex1) = []" by (simp add: send_calls_def Let_def)
  then have "filter is_escalation (calls (apex_fault_counted ctx name apex) s) =
      filter is_escalation (calls (?tail apex1) (after ?send s1))"
    unfolding calls by simp
  moreover have "result (apex_fault_counted ctx name apex) s = result (?tail apex1) (after ?send s1)"
    unfolding run by (simp add: case_prod_beta)
  ultimately show ?thesis using escalate_run [of ctx name apex1 "after ?send s1"] calls
    by (cases "escalates apex1") (auto simp: task esc_def)
qed

section \<open>Evolution of the list\<close>

text \<open>
  The count of misses stays below what is allowed, and nothing but the process of a description
  changes.
\<close>

definition apex_ok :: "apex_info \<Rightarrow> bool" where
  "apex_ok a \<longleftrightarrow> ax_dmiss_count a = 0 \<or> ax_dmiss_count a < ti_allowable_deadline_misses (ax_task a)"

definition static_part :: "apex_info \<Rightarrow> task_info" where
  "static_part a = (ax_task a)\<lparr>ti_pid := 0\<rparr>"

definition evolves :: "apex_info \<Rightarrow> apex_info \<Rightarrow> bool" where
  "evolves a a' \<longleftrightarrow> static_part a' = static_part a \<and> (apex_ok a \<longrightarrow> apex_ok a')"

lemma evolves_refl [simp]: "evolves a a"
  by (simp add: evolves_def)

lemma evolves_trans: "evolves a b \<Longrightarrow> evolves b c \<Longrightarrow> evolves a c"
  by (simp add: evolves_def)

lemma evolves_pid [simp]: "evolves a (a\<lparr>ax_task := (ax_task a)\<lparr>ti_pid := p\<rparr>\<rparr>)"
  by (simp add: evolves_def static_part_def apex_ok_def)

lemma evolves_clear: "static_part a' = static_part a \<Longrightarrow> evolves a (a'\<lparr>ax_dmiss_count := 0, ax_dmiss_time_us := t\<rparr>)"
  by (simp add: evolves_def static_part_def apex_ok_def)

lemma fault_counted_evolves: "evolves a (snd (result (apex_fault_counted ctx name a) s))"
  using fault_counted_run [of ctx name a s]
  by (auto simp: evolves_def static_part_def apex_ok_def escalates_def not_le)

lemma fault_evolves: "evolves a (snd (result (apex_fault ctx name a) s))"
  unfolding apex_fault_def
  by (auto simp: case_prod_beta Let_def fault_counted_evolves split: option.split
      intro: evolves_trans [OF evolves_pid fault_counted_evolves])

lemma create_timer_evolves: "evolves a (snd (result (coredata_create_timer i a) s))"
  by (simp add: coredata_create_timer_def Let_def evolves_def static_part_def apex_ok_def)

lemma up_evolves: "evolves a (snd (result (apex_up name pid nspid i a) s))"
proof -
  let ?a = "a\<lparr>ax_task := (ax_task a)\<lparr>ti_pid := word_of_int pid\<rparr>, ax_nspid := nspid, ax_name := strncpy_field MAX_APEX_NAME_LEN name\<rparr>"
  have "evolves a ?a" by (simp add: evolves_def static_part_def apex_ok_def)
  then show ?thesis
    by (auto simp: apex_up_def Let_def case_prod_beta intro: evolves_trans [OF _ create_timer_evolves])
qed

lemma down_evolves: "evolves a (snd (result (apex_down a) s))"
  by (simp add: apex_down_def case_prod_beta evolves_def static_part_def apex_ok_def)

lemma timer_evolves: "evolves a (result (coredata_timer_handler a) s)"
  by (auto simp: coredata_timer_handler_def Let_def case_prod_beta intro: evolves_clear)

lemma reset_evolves: "list_all2 evolves as (snd (result (reset_apexes as) s))"
  by (induction as arbitrary: s) (auto simp: Let_def case_prod_beta list.rel_refl intro: evolves_clear)

lemma reset_event_error: "result (handle_apex_reset_event ctx) s = (e, ctx') \<Longrightarrow> e \<noteq> TT_SUCCESS"
proof -
  have "fst (result (reset_apexes as) s) \<noteq> TT_SUCCESS" for as s
    by (induction as arbitrary: s) (auto simp: Let_def case_prod_beta)
  then show "result (handle_apex_reset_event ctx) s = (e, ctx') \<Longrightarrow> e \<noteq> TT_SUCCESS"
    by (auto simp: handle_apex_reset_event_def case_prod_beta)
qed

definition context_evolves :: "tt_context \<Rightarrow> tt_context \<Rightarrow> bool" where
  "context_evolves ctx ctx' \<longleftrightarrow>
     (\<exists>as. ctx' = ctx\<lparr>cx_apex_list := as\<rparr> \<and> list_all2 evolves (cx_apex_list ctx) as)"

lemma context_evolves_refl [simp]: "context_evolves ctx ctx"
  unfolding context_evolves_def by (intro exI [of _ "cx_apex_list ctx"]) (simp add: list.rel_refl)

lemma context_evolvesI:
  "list_all2 evolves (cx_apex_list ctx) as \<Longrightarrow> context_evolves ctx (ctx\<lparr>cx_apex_list := as\<rparr>)"
  by (auto simp: context_evolves_def)

lemma fault_event_evolves: "context_evolves ctx (snd (result (handle_apex_fault_event ctx name) s))"
  unfolding handle_apex_fault_event_def
  by (simp add: case_prod_beta context_evolvesI on_first_rel fault_evolves)

lemma up_event_evolves: "context_evolves ctx (snd (result (handle_apex_up_event ctx name nspid) s))"
  unfolding handle_apex_up_event_def Let_def
  by (simp add: case_prod_beta context_evolvesI on_first_rel up_evolves)

lemma down_event_evolves: "context_evolves ctx (snd (result (handle_apex_down_event ctx nspid) s))"
  unfolding handle_apex_down_event_def
  by (simp add: case_prod_beta context_evolvesI on_first_rel down_evolves)

lemma reset_event_evolves: "context_evolves ctx (snd (result (handle_apex_reset_event ctx) s))"
  unfolding handle_apex_reset_event_def
  by (simp add: case_prod_beta context_evolvesI reset_evolves)

lemma events_evolve: "context_evolves ctx (snd (result (handle_apex_events ctx) s))"
  unfolding handle_apex_events_def
  by (simp add: case_prod_beta fault_event_evolves up_event_evolves down_event_evolves reset_event_evolves)

text \<open>The steps of the supervision: an event on the socket, or the timer of a process.\<close>

inductive apex_step :: "tt_context \<Rightarrow> tt_context \<Rightarrow> bool" where
  event: "result (handle_apex_events ctx) s = (e, ctx') \<Longrightarrow> apex_step ctx ctx'"
| timer: "i < length (cx_apex_list ctx) \<Longrightarrow> result (coredata_timer_handler (cx_apex_list ctx ! i)) s = a \<Longrightarrow>
    apex_step ctx (ctx\<lparr>cx_apex_list := (cx_apex_list ctx)[i := a]\<rparr>)"

lemma apex_step_evolves:
  assumes "apex_step ctx ctx'"
  shows "context_evolves ctx ctx'"
  using assms
proof cases
  case (event s e)
  then show ?thesis using events_evolve [of ctx s] by simp
next
  case (timer i s a)
  then have "list_all2 evolves (cx_apex_list ctx) ((cx_apex_list ctx)[i := a])"
    using timer_evolves [of "cx_apex_list ctx ! i" s]
    by (auto simp: list_all2_conv_all_nth nth_list_update)
  with timer show ?thesis by (simp add: context_evolvesI)
qed

section \<open>Properties\<close>

text \<open>
  C25. A miss of a supervised process that is running: inside the window that its first miss opened it is
  counted up, otherwise a new window starts with a count of one. All the system calls of the
  handler are these: the clock is read; the counted miss is sent to the data provider (whose
  socket is opened at the first report); and only when the count reaches what the task allows,
  exactly one miss is reported to the orchestrator and then every thread of the process is moved,
  every CPU setting with the upper half of the mask of the task. Then the counters are cleared, and
  the result is TT_ERROR_PERMISSION if the move failed, otherwise TT_SUCCESS. The other
  processes are not touched.
\<close>

theorem apex_fault_escalation:
  fixes s ctx apex name
  defines "clk \<equiv> Kern (Clock_gettime CLOCK_MONOTONIC)"
  defines "now \<equiv> tt_timespec_to_us (out_ts (answers s (length (trace s)) clk))"
  defines "fresh \<equiv> ax_dmiss_time_us apex = 0 \<or> now - ax_dmiss_time_us apex > ucast (ti_period (ax_task apex))"
  defines "n \<equiv> (if fresh then 1 else ax_dmiss_count apex + 1)"
  defines "counted \<equiv> apex\<lparr>ax_dmiss_count := n, ax_dmiss_time_us := (if fresh then now else ax_dmiss_time_us apex)\<rparr>"
  defines "spare \<equiv> set_affinity_cpumask_all_threads (sint (ti_pid (ax_task apex))) (drop_bit 32 (ti_cpu_affinity (ax_task apex)))"
  defines "s1 \<equiv> s\<lparr>trace := trace s @ [clk]\<rparr>"
  defines "s2 \<equiv> after (coredata_client_send counted) s1"
  defines "s3 \<equiv> after (report_deadline_miss ctx name) s2"
  assumes "cx_apex_list ctx = pre @ apex # post"
    and "\<forall>a\<in>set pre. \<not> strncmp_eq (ti_name (ax_task a)) name 15"
    and "strncmp_eq (ti_name (ax_task apex)) name 15" and "ti_pid (ax_task apex) \<noteq> 0"
  shows "result (handle_apex_fault_event ctx name) s =
      (if ti_allowable_deadline_misses (ax_task apex) \<le> n
       then (if result spare s3 = TTSCHED_SUCCESS then TT_SUCCESS else TT_ERROR_PERMISSION,
             ctx\<lparr>cx_apex_list := pre @ counted\<lparr>ax_dmiss_count := 0, ax_dmiss_time_us := 0\<rparr> # post\<rparr>)
       else (TT_SUCCESS, ctx\<lparr>cx_apex_list := pre @ counted # post\<rparr>)) \<and>
    calls (handle_apex_fault_event ctx name) s = clk # send_calls s1 counted @
      (if ti_allowable_deadline_misses (ax_task apex) \<le> n
       then calls (report_deadline_miss ctx name) s2 @ calls spare s3 else []) \<and>
    (\<exists>as. filter is_escalation (calls (handle_apex_fault_event ctx name) s) =
        (if ti_allowable_deadline_misses (ax_task apex) \<le> n
         then Bus (Bus_call_method ''DMiss'' [cfg_node_id (cx_config ctx), name]) # as else []) \<and>
      list_all (uses_mask (drop_bit 32 (ti_cpu_affinity (ax_task apex)))) as)"
proof -
  let ?P = "\<lambda>apex. strncmp_eq (ti_name (ax_task apex)) name 15"
  have f: "apex_fault ctx name apex = apex_fault_counted ctx name apex" using assms(13) by (simp add: apex_fault_def)
  have run: "run_state (handle_apex_fault_event ctx name) s =
      (let (r, s') = run_state (apex_fault_counted ctx name apex) s
       in ((fst r, ctx\<lparr>cx_apex_list := pre @ snd r # post\<rparr>), s'))"
    using on_first_run [where P = ?P and f = "\<lambda>i. apex_fault ctx name", OF assms(11,12)]
    by (simp add: handle_apex_fault_event_def assms(10) case_prod_beta Let_def f)
  then have calls: "calls (handle_apex_fault_event ctx name) s = calls (apex_fault_counted ctx name apex) s"
    by (simp add: calls_def case_prod_beta Let_def)
  have counted: "count_miss now apex = counted"
    by (auto simp: count_miss_def Let_def fresh_def n_def counted_def)
  have esc: "escalated ctx name counted s2 = (if result spare s3 = TTSCHED_SUCCESS then TT_SUCCESS else TT_ERROR_PERMISSION,
      calls (report_deadline_miss ctx name) s2 @ calls spare s3)"
    by (simp add: escalated_def spare_def s3_def counted_def Let_def)
  have reached: "escalates counted \<longleftrightarrow> ti_allowable_deadline_misses (ax_task apex) \<le> n"
    by (simp add: escalates_def counted_def)
  note counted_run = fault_counted_run [of ctx name apex s, folded clk_def, folded now_def, unfolded counted,
      folded s1_def, folded s2_def, unfolded esc reached fst_conv snd_conv]
  have "result (handle_apex_fault_event ctx name) s =
      (let r = result (apex_fault_counted ctx name apex) s in (fst r, ctx\<lparr>cx_apex_list := pre @ snd r # post\<rparr>))"
    unfolding run by (simp add: case_prod_beta Let_def)
  then have "result (handle_apex_fault_event ctx name) s =
      (if ti_allowable_deadline_misses (ax_task apex) \<le> n
       then (if result spare s3 = TTSCHED_SUCCESS then TT_SUCCESS else TT_ERROR_PERMISSION,
             ctx\<lparr>cx_apex_list := pre @ counted\<lparr>ax_dmiss_count := 0, ax_dmiss_time_us := 0\<rparr> # post\<rparr>)
       else (TT_SUCCESS, ctx\<lparr>cx_apex_list := pre @ counted # post\<rparr>))"
    unfolding counted_run [THEN conjunct1] by (simp add: Let_def)
  with counted_run [THEN conjunct2] show ?thesis unfolding calls by (rule conjI [rotated])
qed

lemma apex_fault_escalation_witness:
  "(\<exists>s ctx as. filter is_escalation (calls (handle_apex_fault_event ctx ''cam'') s) =
     Bus (Bus_call_method ''DMiss'' [''n1'', ''cam'']) # as) \<and>
   (\<exists>s ctx app. calls (handle_apex_fault_event ctx ''cam'') s =
     [Kern (Clock_gettime CLOCK_MONOTONIC), Kern (Socket ''unix''), Kern (Sendto 5 app COREDATA_SOCKET_PATH)])"
proof
  let ?apex = "\<lambda>k. zero_apex_info\<lparr>ax_task := zero_task_info\<lparr>ti_name := ''cam'', ti_pid := 7, ti_allowable_deadline_misses := k\<rparr>\<rparr>"
  let ?ctx = "\<lambda>k. zero_context\<lparr>cx_apex_list := [?apex k], cx_config := (cx_config zero_context)\<lparr>cfg_node_id := ''n1''\<rparr>\<rparr>"
  let ?s = "os_of (\<lambda>c. answer0\<lparr>ret := 5\<rparr>)"
  show "\<exists>s ctx as. filter is_escalation (calls (handle_apex_fault_event ctx ''cam'') s) =
      Bus (Bus_call_method ''DMiss'' [''n1'', ''cam'']) # as"
    using apex_fault_escalation [of "?ctx 1" "[]" "?apex 1" "[]" "''cam''" ?s]
    by (auto simp: zero_apex_info_def)
  have "calls (handle_apex_fault_event (?ctx 2) ''cam'') ?s =
      [Kern (Clock_gettime CLOCK_MONOTONIC), Kern (Socket ''unix''),
       Kern (Sendto 5 (dmiss_msg ((?apex 2)\<lparr>ax_dmiss_count := 1, ax_dmiss_time_us := tt_timespec_to_us (out_ts (answer0\<lparr>ret := 5\<rparr>))\<rparr>)) COREDATA_SOCKET_PATH)]"
    by (subst apex_fault_escalation [of "?ctx 2" "[]" "?apex 2" "[]" "''cam''" ?s, THEN conjunct2, THEN conjunct1])
      (simp_all add: zero_apex_info_def send_calls_def globals0_def word_le_nat_alt)
  then show "\<exists>s ctx app. calls (handle_apex_fault_event ctx ''cam'') s =
     [Kern (Clock_gettime CLOCK_MONOTONIC), Kern (Socket ''unix''), Kern (Sendto 5 app COREDATA_SOCKET_PATH)]" by blast
qed

lemma init_apexes_list:
  "\<exists>ts. set ts \<subseteq> {t \<in> set tis. cstr (cfg_node_id (cx_config ctx)) = cstr (ti_node_id t)} \<and>
     fst (result (init_apexes tis ctx k) s) =
       ctx\<lparr>cx_apex_list := map (\<lambda>t. zero_apex_info\<lparr>ax_task := t\<rparr>) ts @ cx_apex_list ctx\<rparr>"
proof (induction tis arbitrary: ctx k s)
  case Nil
  show ?case by (intro exI [of _ "[]"]) simp
next
  case (Cons ti tis ctx k s)
  let ?s1 = "s\<lparr>trace := trace s @ [Kern (Calloc ''apex_info'')]\<rparr>"
  let ?ctx = "ctx\<lparr>cx_apex_list := zero_apex_info\<lparr>ax_task := ti\<rparr> # cx_apex_list ctx\<rparr>"
  show ?case
  proof (cases "cstr (cfg_node_id (cx_config ctx)) = cstr (ti_node_id ti)")
    case True
    from Cons.IH [of ?ctx "k + 1" ?s1] obtain ts where
      "set ts \<subseteq> {t \<in> set tis. cstr (cfg_node_id (cx_config ctx)) = cstr (ti_node_id t)}"
      "fst (result (init_apexes tis ?ctx (k + 1)) ?s1) =
        ctx\<lparr>cx_apex_list := map (\<lambda>t. zero_apex_info\<lparr>ax_task := t\<rparr>) (ts @ [ti]) @ cx_apex_list ctx\<rparr>"
      by auto
    then have "\<exists>ts. set ts \<subseteq> {t \<in> set (ti # tis). cstr (cfg_node_id (cx_config ctx)) = cstr (ti_node_id t)} \<and>
        fst (result (init_apexes tis ?ctx (k + 1)) ?s1) =
        ctx\<lparr>cx_apex_list := map (\<lambda>t. zero_apex_info\<lparr>ax_task := t\<rparr>) ts @ cx_apex_list ctx\<rparr>"
      using True by (intro exI [of _ "ts @ [ti]"]) auto
    moreover have "\<exists>ts. set ts \<subseteq> {t \<in> set (ti # tis). cstr (cfg_node_id (cx_config ctx)) = cstr (ti_node_id t)} \<and>
        fst (result (init_apexes tis ctx k) ?s1) =
        ctx\<lparr>cx_apex_list := map (\<lambda>t. zero_apex_info\<lparr>ax_task := t\<rparr>) ts @ cx_apex_list ctx\<rparr>"
      using Cons.IH [of ctx k ?s1] by auto
    ultimately show ?thesis
      using True by (cases "ret (answers s (length (trace s)) (Kern (Calloc ''apex_info''))) = 0") simp_all
  next
    case False
    with Cons.IH [of ctx k s] show ?thesis by auto
  qed
qed

lemma apex_reach_evolves: "apex_step\<^sup>*\<^sup>* ctx ctx' \<Longrightarrow> context_evolves ctx ctx'"
proof (induction rule: rtranclp_induct)
  case (step ctx1 ctx2)
  from step.IH obtain as where 1: "ctx1 = ctx\<lparr>cx_apex_list := as\<rparr>" "list_all2 evolves (cx_apex_list ctx) as"
    by (auto simp: context_evolves_def)
  from apex_step_evolves [OF step.hyps(2)] obtain bs where 2: "ctx2 = ctx1\<lparr>cx_apex_list := bs\<rparr>" "list_all2 evolves as bs"
    by (auto simp: context_evolves_def 1(1))
  show ?case unfolding 1(1) 2(1)
    using list_all2_trans [OF evolves_trans 1(2) 2(2)] by (simp add: context_evolvesI)
qed simp

text \<open>
  C26. Whatever events arrive, in any order and with any answers of the system, once the list of
  supervised processes is built: it keeps its length and its order, every element keeps the
  description of a task of this node, the count of misses never stays at or above what the task
  allows, and no other part of the context changes.
\<close>

theorem apex_counters_bounded:
  assumes "result (init_apex_list ctx0) s = (e, ctx)" and "cx_apex_list ctx0 = []" and "apex_step\<^sup>*\<^sup>* ctx ctx'"
  shows "ctx' = ctx0\<lparr>cx_apex_list := cx_apex_list ctx'\<rparr> \<and> length (cx_apex_list ctx') = length (cx_apex_list ctx) \<and>
    map static_part (cx_apex_list ctx') = map static_part (cx_apex_list ctx) \<and>
    (\<forall>a\<in>set (cx_apex_list ctx').
       (ax_dmiss_count a = 0 \<or> ax_dmiss_count a < ti_allowable_deadline_misses (ax_task a)) \<and>
       (\<exists>t\<in>set (si_tasks (cx_sched_info ctx0)). static_part a = t\<lparr>ti_pid := 0\<rparr> \<and>
          cstr (ti_node_id t) = cstr (cfg_node_id (cx_config ctx0))))"
proof -
  from init_apexes_list [of "si_tasks (cx_sched_info ctx0)" ctx0 0 s] assms(1,2) obtain ts where
    ts: "set ts \<subseteq> {t \<in> set (si_tasks (cx_sched_info ctx0)). cstr (cfg_node_id (cx_config ctx0)) = cstr (ti_node_id t)}"
    and ctx: "ctx = ctx0\<lparr>cx_apex_list := map (\<lambda>t. zero_apex_info\<lparr>ax_task := t\<rparr>) ts\<rparr>"
    by (auto simp: init_apex_list_def case_prod_beta split: if_splits)
  from apex_reach_evolves [OF assms(3)] obtain as where
    ctx': "ctx' = ctx\<lparr>cx_apex_list := as\<rparr>" and ev: "list_all2 evolves (cx_apex_list ctx) as"
    by (auto simp: context_evolves_def)
  have len: "length as = length ts" using list_all2_lengthD [OF ev] by (simp add: ctx)
  have el: "apex_ok (as ! i) \<and> static_part (as ! i) = (ts ! i)\<lparr>ti_pid := 0\<rparr>" if "i < length as" for i
    using list_all2_nthD2 [OF ev that] that len
    by (simp add: evolves_def ctx static_part_def apex_ok_def zero_apex_info_def)
  have 1: "map static_part as = map static_part (cx_apex_list ctx)"
    by (rule nth_equalityI) (use el len in \<open>simp_all add: ctx static_part_def\<close>)
  have 2: "(ax_dmiss_count a = 0 \<or> ax_dmiss_count a < ti_allowable_deadline_misses (ax_task a)) \<and>
      (\<exists>t\<in>set (si_tasks (cx_sched_info ctx0)). static_part a = t\<lparr>ti_pid := 0\<rparr> \<and>
        cstr (ti_node_id t) = cstr (cfg_node_id (cx_config ctx0)))" if "a \<in> set as" for a
  proof -
    from that obtain i where i: "i < length as" "a = as ! i" by (auto simp: in_set_conv_nth)
    have "ts ! i \<in> set (si_tasks (cx_sched_info ctx0))" "cstr (ti_node_id (ts ! i)) = cstr (cfg_node_id (cx_config ctx0))"
      using subsetD [OF ts nth_mem [of i ts]] i(1) len by auto
    with el [OF i(1)] show ?thesis unfolding i(2) apex_ok_def by blast
  qed
  show ?thesis using 1 2 len by (simp add: ctx' ctx)
qed

lemma apex_counters_bounded_witness:
  "\<exists>ctx0 s ctx ctx'. result (init_apex_list ctx0) s = (TT_SUCCESS, ctx) \<and> cx_apex_list ctx0 = [] \<and> apex_step\<^sup>*\<^sup>* ctx ctx' \<and>
     map ax_dmiss_count (cx_apex_list ctx) = [0] \<and> map ax_dmiss_count (cx_apex_list ctx') = [1] \<and>
     map static_part (cx_apex_list ctx') = map static_part (cx_apex_list ctx)"
proof -
  let ?t = "zero_task_info\<lparr>ti_name := ''cam'', ti_allowable_deadline_misses := 2, ti_pid := 7\<rparr>"
  let ?ctx = "zero_context\<lparr>cx_sched_info := zero_sched_info\<lparr>si_tasks := [?t]\<rparr>\<rparr>"
  define s where "s = os_of (\<lambda>c. answer0\<lparr>ret := 1, out_msg := Msg_fault ''cam'' 0, out_ts := Timespec 1 0\<rparr>)"
  let ?a = "zero_apex_info\<lparr>ax_task := ?t\<rparr>"
  let ?mid = "?ctx\<lparr>cx_apex_list := [?a]\<rparr>"
  have 1: "result (init_apex_list ?ctx) s = (TT_SUCCESS, ?mid)"
    by (simp add: init_apex_list_def zero_context_def zero_task_info_def s_def)
  have 2: "cx_apex_list ?ctx = []" by (simp add: zero_context_def)
  obtain e ctx' where ev: "result (handle_apex_events ?mid) s = (e, ctx')" by fastforce
  then have 3: "apex_step\<^sup>*\<^sup>* ?mid ctx'" by (intro r_into_rtranclp) (rule apex_step.event)
  have name: "strncpy_field MAX_APEX_NAME_LEN ''cam'' = ''cam''" "strncmp_eq ''cam'' ''cam'' 15"
    by (simp_all add: strncpy_field_fits fits_def MAX_APEX_NAME_LEN_def strncmp_eq_def)
  have "map ax_dmiss_count (cx_apex_list ctx') = [1]"
    using ev by (auto simp: name handle_apex_events_def apex_monitor_recv_def handle_apex_fault_event_def apex_fault_def
      apex_fault_counted_def count_miss_def coredata_client_send_def coredata_client_init_def s_def zero_apex_info_def
      case_prod_beta Let_def word_le_nat_alt)
  moreover have "map static_part (cx_apex_list ctx') = map static_part (cx_apex_list ?mid)"
    using apex_counters_bounded [OF 1 2 3] by blast
  moreover have "map ax_dmiss_count (cx_apex_list ?mid) = [0]" by (simp add: zero_apex_info_def)
  ultimately show ?thesis
    by (intro exI [of _ ?ctx] exI [of _ s] exI [of _ ?mid] exI [of _ ctx'] conjI 1 2 3)
qed

end
