(* ===== verification/Trace_Bpf.thy ===== *)
theory Trace_Bpf
  imports Os
begin

text \<open>
  The user-space side of the kernel tracing (\<^verbatim>\<open>timpani-n/src/trace_bpf.c\<close>): loading and unloading the
  programs, the threads that read the ring buffers, and the filter of the traced threads. The
  two programs are handled by the same code twice; \<open>start_prog\<close> and \<open>stop_prog\<close> are that code for
  either. The argument \<open>ev\<close> is the build option \<^verbatim>\<open>CONFIG_TRACE_BPF_EVENT\<close>. The lemmas show that
  what is opened is closed, on every failure path as well.
\<close>

section \<open>Static variables of the programs\<close>

definition loaded :: "prog \<Rightarrow> globals \<Rightarrow> bool" where
  "loaded p g = (case p of Sigwait_prog \<Rightarrow> g_sigwait_bpf g | Schedstat_prog \<Rightarrow> g_schedstat_bpf g)"

definition set_loaded :: "prog \<Rightarrow> bool \<Rightarrow> globals \<Rightarrow> globals" where
  "set_loaded p b g = (case p of Sigwait_prog \<Rightarrow> g\<lparr>g_sigwait_bpf := b\<rparr> | Schedstat_prog \<Rightarrow> g\<lparr>g_schedstat_bpf := b\<rparr>)"

definition has_rb :: "prog \<Rightarrow> globals \<Rightarrow> bool" where
  "has_rb p g = (case p of Sigwait_prog \<Rightarrow> g_sigwait_rb g | Schedstat_prog \<Rightarrow> g_schedstat_rb g)"

definition set_rb :: "prog \<Rightarrow> bool \<Rightarrow> globals \<Rightarrow> globals" where
  "set_rb p b g = (case p of Sigwait_prog \<Rightarrow> g\<lparr>g_sigwait_rb := b\<rparr> | Schedstat_prog \<Rightarrow> g\<lparr>g_schedstat_rb := b\<rparr>)"

definition set_need_exit :: "prog \<Rightarrow> globals \<Rightarrow> globals" where
  "set_need_exit p g =
     (case p of Sigwait_prog \<Rightarrow> g\<lparr>g_sigwait_need_exit := True\<rparr> | Schedstat_prog \<Rightarrow> g\<lparr>g_schedstat_need_exit := True\<rparr>)"

definition update_globals :: "(globals \<Rightarrow> globals) \<Rightarrow> unit io" where
  "update_globals f = do { g \<leftarrow> get_globals; set_globals (f g) }"

section \<open>Operations\<close>

text \<open>
  The reader thread; the list has the values of the exit flag that its checks see. It ends when
  the flag is set or the poll fails with anything but an interruption.
\<close>

primrec rb_thread_func :: "prog \<Rightarrow> bool list \<Rightarrow> unit io" where
  "rb_thread_func p [] = return_io ()"
| "rb_thread_func p (need_exit # later) =
     (if need_exit then return_io ()
      else do {
        r \<leftarrow> bpf (Ring_buffer_poll p);
        if ret r < 0 \<and> ret r \<noteq> -4 then return_io () else rb_thread_func p later
      })"

text \<open>The common end of the failed starts.\<close>

definition start_fail :: "prog \<Rightarrow> int \<Rightarrow> int io" where
  "start_fail p r = do {
     g \<leftarrow> get_globals;
     (if has_rb p g then do { _ \<leftarrow> bpf (Ring_buffer_free p); update_globals (set_rb p False) } else return_io ());
     g \<leftarrow> get_globals;
     (if loaded p g then do { _ \<leftarrow> bpf (Prog_destroy p); update_globals (set_loaded p False) } else return_io ());
     return_io r
   }"

text \<open>
  When the program cannot be opened the variable \<^verbatim>\<open>ret\<close> is returned uninitialised; the answer of
  the failed call supplies the arbitrary value.
\<close>

definition start_prog :: "prog \<Rightarrow> int io" where
  "start_prog p = do {
     o1 \<leftarrow> bpf (Prog_open p);
     update_globals (set_loaded p (ret o1 \<noteq> 0));
     if ret o1 = 0 then start_fail p (errno o1)
     else do {
       l \<leftarrow> bpf (Prog_load p);
       if ret l < 0 then start_fail p (ret l)
       else do {
         n \<leftarrow> bpf (Ring_buffer_new p);
         update_globals (set_rb p (ret n \<noteq> 0));
         if ret n = 0 then start_fail p (ret l)
         else do {
           a \<leftarrow> bpf (Prog_attach p);
           if ret a < 0 then start_fail p (ret a)
           else do {
             t \<leftarrow> kern (Pthread_create p);
             if ret t \<noteq> 0 then start_fail p (ret a) else return_io 0
           }
         }
       }
     }
   }"

definition start_sigwait_bpf :: "int io" where
  "start_sigwait_bpf = start_prog Sigwait_prog"

definition start_schedstat_bpf :: "int io" where
  "start_schedstat_bpf = start_prog Schedstat_prog"

definition bpf_on :: "bool \<Rightarrow> int io" where
  "bpf_on ev = do {
     _ \<leftarrow> bpf Libbpf_set_print;
     r \<leftarrow> start_sigwait_bpf;
     if r < 0 then return_io 0
     else if ev then do { _ \<leftarrow> start_schedstat_bpf; return_io 0 }
     else return_io 0
   }"

definition stop_prog :: "prog \<Rightarrow> unit io" where
  "stop_prog p = do {
     g \<leftarrow> get_globals;
     if loaded p g then do {
       update_globals (set_need_exit p);
       _ \<leftarrow> kern (Pthread_join p);
       g \<leftarrow> get_globals;
       (if has_rb p g then do { _ \<leftarrow> bpf (Ring_buffer_free p); update_globals (set_rb p False) } else return_io ());
       _ \<leftarrow> bpf (Prog_destroy p);
       update_globals (set_loaded p False)
     }
     else return_io ()
   }"

definition bpf_off :: "bool \<Rightarrow> unit io" where
  "bpf_off ev = do {
     stop_prog Sigwait_prog;
     (if ev then stop_prog Schedstat_prog else return_io ())
   }"

definition bpf_add_pid :: "bool \<Rightarrow> int \<Rightarrow> int io" where
  "bpf_add_pid ev pid = do {
     g \<leftarrow> get_globals;
     if \<not> loaded Sigwait_prog g then return_io 0
     else do {
       u \<leftarrow> bpf (Map_update_elem Sigwait_prog pid 1);
       if ret u \<noteq> 0 then return_io 0
       else do {
         (if ev \<and> loaded Schedstat_prog g
          then do { _ \<leftarrow> bpf (Map_update_elem Schedstat_prog pid 1); return_io () } else return_io ());
         return_io 0
       }
     }
   }"

definition bpf_del_pid :: "bool \<Rightarrow> int \<Rightarrow> int io" where
  "bpf_del_pid ev pid = do {
     g \<leftarrow> get_globals;
     if \<not> loaded Sigwait_prog g then return_io 0
     else do {
       u \<leftarrow> bpf (Map_delete_elem Sigwait_prog pid);
       if ret u \<noteq> 0 then return_io 0
       else do {
         (if ev \<and> loaded Schedstat_prog g
          then do { _ \<leftarrow> bpf (Map_delete_elem Schedstat_prog pid); return_io () } else return_io ());
         return_io 0
       }
     }
   }"

section \<open>Effects\<close>

fun is_bpf :: "call \<Rightarrow> bool" where
  "is_bpf (Bpf c) = True"
| "is_bpf (Kern (Pthread_create p)) = True"
| "is_bpf (Kern (Pthread_join p)) = True"
| "is_bpf _ = False"

lemma run_update_globals [simp, os_simps]:
  "run_state (update_globals f) s = ((), s\<lparr>globals := f (globals s)\<rparr>)"
  by (simp add: update_globals_def)

lemma only_g_update: "only_g P (update_globals f)"
  unfolding update_globals_def by (intro only_g_rules)

lemma only_add_pid [only_intros]: "only is_bpf (bpf_add_pid ev pid)"
  unfolding bpf_add_pid_def by (intro only_rules) simp_all

lemma only_del_pid [only_intros]: "only is_bpf (bpf_del_pid ev pid)"
  unfolding bpf_del_pid_def by (intro only_rules) simp_all

lemma only_start_fail: "only_g is_bpf (start_fail p r)"
  unfolding start_fail_def by (intro only_g_rules only_g_update) simp_all

lemma only_start_prog: "only_g is_bpf (start_prog p)"
  unfolding start_prog_def by (intro only_g_rules only_g_update only_start_fail) simp_all

lemma only_bpf_on: "only_g is_bpf (bpf_on ev)"
  unfolding bpf_on_def start_sigwait_bpf_def start_schedstat_bpf_def
  by (intro only_g_rules only_start_prog) simp_all

lemma only_stop_prog: "only_g is_bpf (stop_prog p)"
  unfolding stop_prog_def by (intro only_g_rules only_g_update) simp_all

lemma only_bpf_off: "only_g is_bpf (bpf_off ev)"
  unfolding bpf_off_def by (intro only_g_rules only_stop_prog)

lemma bpf_add_pid_result: "result (bpf_add_pid ev pid) s = 0"
  by (simp add: bpf_add_pid_def case_prod_beta)

lemma bpf_del_pid_result: "result (bpf_del_pid ev pid) s = 0"
  by (simp add: bpf_del_pid_def case_prod_beta)

section \<open>Resources\<close>

text \<open>
  Between the objects that were successfully made and those that were released there is a
  difference of one for a program that is loaded and none otherwise.
\<close>

definition balanced :: "prog \<Rightarrow> os \<Rightarrow> nat \<Rightarrow> call list \<Rightarrow> int \<Rightarrow> bool" where
  "balanced p s n cs d \<longleftrightarrow>
     int (tally (\<lambda>c a. c = Bpf (Prog_open p) \<and> ret a \<noteq> 0) s n cs) =
       int (tally (\<lambda>c a. c = Bpf (Prog_destroy p)) s n cs) + d \<and>
     int (tally (\<lambda>c a. c = Bpf (Ring_buffer_new p) \<and> ret a \<noteq> 0) s n cs) =
       int (tally (\<lambda>c a. c = Bpf (Ring_buffer_free p)) s n cs) + d \<and>
     int (tally (\<lambda>c a. c = Kern (Pthread_create p) \<and> ret a = 0) s n cs) =
       int (tally (\<lambda>c a. c = Kern (Pthread_join p)) s n cs) + d"

lemma balanced_append:
  "balanced p s n cs d \<Longrightarrow> balanced p s (n + length cs) ds e \<Longrightarrow> balanced p s n (cs @ ds) (d + e)"
  by (simp add: balanced_def tally_append)

lemma balanced_env [simp]:
  "balanced p (s\<lparr>trace := t\<rparr>) n cs d = balanced p s n cs d"
  "balanced p (s\<lparr>globals := g\<rparr>) n cs d = balanced p s n cs d"
  by (simp_all add: balanced_def)

text \<open>The state of the static variables: a loaded program has its ring buffer.\<close>

definition paired :: "prog \<Rightarrow> globals \<Rightarrow> bool" where
  "paired p g \<longleftrightarrow> has_rb p g = loaded p g"

lemmas prog_flags = loaded_def set_loaded_def has_rb_def set_rb_def set_need_exit_def paired_def


text \<open>
  The contract of an operation on one program: starting from variables in the state \<open>pre\<close>, the
  balance of that program changes by the change of its loaded flag, its variables stay paired,
  and the other program is not touched.
\<close>

definition tracks :: "prog \<Rightarrow> 'a io \<Rightarrow> os \<Rightarrow> bool" where
  "tracks p m s \<longleftrightarrow>
     balanced p s (length (trace s)) (calls m s)
       (of_bool (loaded p (globals (after m s))) - of_bool (loaded p (globals s))) \<and>
     paired p (globals (after m s)) \<and>
     (\<forall>q. q \<noteq> p \<longrightarrow> balanced q s (length (trace s)) (calls m s) 0 \<and>
        loaded q (globals (after m s)) = loaded q (globals s) \<and> has_rb q (globals (after m s)) = has_rb q (globals s))"

lemma start_prog_tracks:
  assumes "\<not> loaded p (globals s)" and "\<not> has_rb p (globals s)"
  shows "tracks p (start_prog p) s"
proof (cases p)
  case Sigwait_prog
  with assms show ?thesis
    by (auto simp: tracks_def start_prog_def start_fail_def calls_def balanced_def prog_flags split: prog.splits)
next
  case Schedstat_prog
  with assms show ?thesis
    by (auto simp: tracks_def start_prog_def start_fail_def calls_def balanced_def prog_flags split: prog.splits)
qed

lemma stop_prog_tracks:
  assumes "paired p (globals s)"
  shows "tracks p (stop_prog p) s \<and> \<not> loaded p (globals (after (stop_prog p) s))"
proof (cases p)
  case Sigwait_prog
  with assms show ?thesis
    by (auto simp: tracks_def stop_prog_def calls_def balanced_def prog_flags split: prog.splits)
next
  case Schedstat_prog
  with assms show ?thesis
    by (auto simp: tracks_def stop_prog_def calls_def balanced_def prog_flags split: prog.splits)
qed

lemma balanced_answers: "answers s' = answers s \<Longrightarrow> balanced p s' n cs d = balanced p s n cs d"
proof -
  assume "answers s' = answers s"
  then have "tally Q s' n cs = tally Q s n cs" for Q n cs
    by (induction cs arbitrary: n) simp_all
  then show ?thesis by (simp add: balanced_def)
qed

text \<open>
  The same for all programs as a relation of states, which composes: \<open>accounted\<close> says that
  every program's balance has changed by the change of its flag and that the pairing is kept.
\<close>

definition accounted :: "os \<Rightarrow> os \<Rightarrow> bool" where
  "accounted s s' \<longleftrightarrow> answers s' = answers s \<and>
     (\<exists>cs. trace s' = trace s @ cs \<and> (\<forall>p. balanced p s (length (trace s)) cs
        (of_bool (loaded p (globals s')) - of_bool (loaded p (globals s))))) \<and>
     ((\<forall>p. paired p (globals s)) \<longrightarrow> (\<forall>p. paired p (globals s')))"

interpretation acc: io_effect accounted
proof unfold_locales
  fix s s' s''
  show "accounted s s"
    unfolding accounted_def by (intro conjI exI [of _ "[]"]) (simp_all add: balanced_def)
  assume 1: "accounted s s'" and 2: "accounted s' s''"
  from 1 obtain cs where cs: "trace s' = trace s @ cs" "\<forall>p. balanced p s (length (trace s)) cs
        (of_bool (loaded p (globals s')) - of_bool (loaded p (globals s)))"
    unfolding accounted_def by blast
  from 2 obtain ds where ds: "trace s'' = trace s' @ ds" "\<forall>p. balanced p s' (length (trace s')) ds
        (of_bool (loaded p (globals s'')) - of_bool (loaded p (globals s')))"
    unfolding accounted_def by blast
  have "balanced p s (length (trace s)) (cs @ ds) (of_bool (loaded p (globals s'')) - of_bool (loaded p (globals s)))" for p
  proof -
    have "balanced p s (length (trace s) + length cs) ds
        (of_bool (loaded p (globals s'')) - of_bool (loaded p (globals s')))"
    proof -
      have "answers s' = answers s" using 1 unfolding accounted_def by blast
      from balanced_answers [OF this] show ?thesis using ds(2) unfolding cs(1) by simp
    qed
    from balanced_append [OF spec [OF cs(2)] this] show ?thesis by simp
  qed
  then show "accounted s s''"
    using 1 2 cs(1) ds(1) unfolding accounted_def by (metis append.assoc)
qed

lemma tracks_accounted:
  assumes "tracks p m s" and "only_g P m"
  shows "accounted s (after m s)"
proof -
  have "loaded q (globals (after m s)) = loaded q (globals s)" "balanced q s (length (trace s)) (calls m s) 0"
      "paired q (globals s) \<Longrightarrow> paired q (globals (after m s))" if "q \<noteq> p" for q
    using assms(1) that by (auto simp: tracks_def paired_def)
  then have "balanced q s (length (trace s)) (calls m s)
      (of_bool (loaded q (globals (after m s))) - of_bool (loaded q (globals s)))" for q
    using assms(1) by (cases "q = p") (auto simp: tracks_def)
  then show ?thesis
    using assms(1) only_g_env [OF assms(2), of s] only_g_trace [OF assms(2), of s]
    unfolding accounted_def tracks_def paired_def by metis
qed

lemma bpf_on_accounted:
  assumes "\<forall>p. \<not> loaded p (globals s) \<and> \<not> has_rb p (globals s)"
  shows "accounted s (after (bpf_on ev) s) \<and>
    (\<not> ev \<longrightarrow> \<not> loaded Schedstat_prog (globals (after (bpf_on ev) s)))"
proof -
  let ?s1 = "s\<lparr>trace := trace s @ [Bpf Libbpf_set_print]\<rparr>"
  let ?s2 = "after (start_prog Sigwait_prog) ?s1" and ?r = "result (start_prog Sigwait_prog) ?s1"
  let ?s3 = "after (start_prog Schedstat_prog) ?s2"
  have t1: "tracks Sigwait_prog (start_prog Sigwait_prog) ?s1" using assms by (intro start_prog_tracks) simp_all
  have other: "\<not> loaded Schedstat_prog (globals ?s2) \<and> \<not> has_rb Schedstat_prog (globals ?s2)"
    using t1 assms by (simp add: tracks_def)
  have "accounted s ?s1"
    unfolding accounted_def by (intro conjI exI [of _ "[Bpf Libbpf_set_print]"]) (simp_all add: balanced_def)
  then have a2: "accounted s ?s2"
    using tracks_accounted [OF t1 only_start_prog] by (rule acc.effect_trans)
  moreover have "accounted s ?s3"
    using a2 tracks_accounted [OF start_prog_tracks only_start_prog] other by (blast intro: acc.effect_trans)
  moreover have "after (bpf_on ev) s = (if ?r < 0 \<or> \<not> ev then ?s2 else ?s3)"
    by (simp add: bpf_on_def start_sigwait_bpf_def start_schedstat_bpf_def case_prod_beta)
  ultimately show ?thesis using other by (cases "?r < 0 \<or> \<not> ev") (simp_all only: if_True if_False, blast+)
qed

lemma bpf_off_accounted:
  assumes "\<forall>p. paired p (globals s)" and "\<not> ev \<longrightarrow> \<not> loaded Schedstat_prog (globals s)"
  shows "accounted s (after (bpf_off ev) s) \<and> (\<forall>p. \<not> loaded p (globals (after (bpf_off ev) s)))"
proof -
  let ?s1 = "after (stop_prog Sigwait_prog) s"
  let ?s2 = "after (stop_prog Schedstat_prog) ?s1"
  have t1: "tracks Sigwait_prog (stop_prog Sigwait_prog) s" "\<not> loaded Sigwait_prog (globals ?s1)"
    using stop_prog_tracks assms(1) by blast+
  have a1: "accounted s ?s1" by (rule tracks_accounted [OF t1(1) only_stop_prog])
  have keep: "loaded Schedstat_prog (globals ?s1) = loaded Schedstat_prog (globals s)"
    using t1(1) by (simp add: tracks_def)
  have "paired Schedstat_prog (globals ?s1)" using a1 assms(1) by (simp add: accounted_def)
  then have t2: "tracks Schedstat_prog (stop_prog Schedstat_prog) ?s1" "\<not> loaded Schedstat_prog (globals ?s2)"
    using stop_prog_tracks by blast+
  have "accounted s ?s2"
    using a1 tracks_accounted [OF t2(1) only_stop_prog] by (rule acc.effect_trans)
  moreover have "\<not> loaded Sigwait_prog (globals ?s2)" using t2(1) t1(2) by (simp add: tracks_def)
  moreover have "after (bpf_off ev) s = (if ev then ?s2 else ?s1)"
    by (simp add: bpf_off_def case_prod_beta)
  ultimately show ?thesis
    using a1 t1(2) t2(2) keep assms(2) by (metis (full_types) prog.exhaust)
qed

section \<open>Properties\<close>

text \<open>
  C39. Tracing leaks nothing: from a state with no program loaded, switching tracing on and off again
  leaves no program loaded and, for each program, as many programs destroyed, ring buffers
  freed and threads joined as were successfully opened, made and created, wherever the start
  may have failed in between; switching it on always reports success.
\<close>

theorem bpf_session_balanced:
  assumes "\<forall>p. \<not> loaded p (globals s) \<and> \<not> has_rb p (globals s)"
  shows "let s' = after (do { _ \<leftarrow> bpf_on ev; bpf_off ev }) s in
    (\<exists>cs. trace s' = trace s @ cs \<and> (\<forall>p. balanced p s (length (trace s)) cs 0)) \<and>
    (\<forall>p. \<not> loaded p (globals s')) \<and> result (bpf_on ev) s = 0"
proof -
  let ?s1 = "after (bpf_on ev) s" and ?s2 = "after (bpf_off ev) (after (bpf_on ev) s)"
  have a1: "accounted s ?s1" "\<not> ev \<longrightarrow> \<not> loaded Schedstat_prog (globals ?s1)"
    using bpf_on_accounted [OF assms] by blast+
  then have "\<forall>p. paired p (globals ?s1)" using assms by (simp add: accounted_def paired_def)
  then have a2: "accounted ?s1 ?s2" "\<forall>p. \<not> loaded p (globals ?s2)"
    using bpf_off_accounted a1(2) by blast+
  have "accounted s ?s2" using a1(1) a2(1) by (rule acc.effect_trans)
  moreover have "after (do { _ \<leftarrow> bpf_on ev; bpf_off ev }) s = ?s2" by (simp add: case_prod_beta)
  moreover have "result (bpf_on ev) s = 0" by (simp add: bpf_on_def case_prod_beta)
  ultimately show ?thesis using a2(2) assms by (simp add: accounted_def Let_def)
qed

lemma bpf_session_balanced_witness:
  "\<forall>p. \<not> loaded p (globals (after (do { _ \<leftarrow> bpf_on True; bpf_off True }) (os_of (\<lambda>c. answer0\<lparr>ret := 1\<rparr>))))"
proof -
  have "\<forall>p. \<not> loaded p (globals (os_of (\<lambda>c. answer0\<lparr>ret := 1\<rparr>))) \<and> \<not> has_rb p (globals (os_of (\<lambda>c. answer0\<lparr>ret := 1\<rparr>)))"
    by (simp add: prog_flags globals0_def split: prog.split)
  from bpf_session_balanced [OF this, of True] show ?thesis unfolding Let_def by blast
qed

end
