(* ===== verification/Task.thy ===== *)
theory Task
  imports Sched Trace_Bpf "HOL-Library.Sublist"
begin

text \<open>
  The task list of the node (\<^verbatim>\<open>timpani-n/src/task.c\<close>): for every task of the schedule that belongs to
  this node the process is looked up, given its CPU and its scheduling class, and opened by a
  pidfd; the tasks for which all this works form the list of time triggers. The lemmas show that
  the list holds exactly those tasks, in what order, with valid process handles, and that nothing
  is leaked for the others. (\<^verbatim>\<open>destroy_task_info_list\<close> is in the theory of its callers, \<^verbatim>\<open>Trpc\<close>.)
\<close>

section \<open>Operations\<close>

text \<open>The copy of the description; \<open>None\<close> when the allocation fails.\<close>

definition task_create_node :: "task_info \<Rightarrow> time_trigger option io" where
  "task_create_node ti = do {
     a \<leftarrow> kern (Calloc ''time_trigger'');
     if ret a = 0 then return_io None
     else return_io (Some (zero_time_trigger\<lparr>tt_task := ti, tt_ctx := True\<rparr>))
   }"

text \<open>
  The first argument says whether the build traces scheduling events (\<^verbatim>\<open>CONFIG_TRACE_BPF_EVENT\<close>). A
  failure to set the CPU or the scheduling class only warns.
\<close>

definition task_setup_process :: "bool \<Rightarrow> time_trigger \<Rightarrow> (tt_error \<times> time_trigger) io" where
  "task_setup_process ev tt_node = do {
     (pid_result, pid_out) \<leftarrow> get_pid_by_name (Some (ti_name (tt_task tt_node))) True;
     (case pid_out of
        None \<Rightarrow> return_io (TT_ERROR_CONFIG, tt_node)
      | Some pid \<Rightarrow>
          if pid_result \<noteq> TTSCHED_SUCCESS then return_io (TT_ERROR_CONFIG, tt_node)
          else do {
            _ \<leftarrow> set_affinity pid (to_int32 (uint (ti_cpu_affinity (tt_task tt_node))));
            _ \<leftarrow> set_schedattr pid (ti_sched_priority (tt_task tt_node)) (ti_sched_policy (tt_task tt_node));
            let tt_node1 = tt_node\<lparr>tt_task := (tt_task tt_node)\<lparr>ti_pid := word_of_int pid\<rparr>\<rparr>;
            (pidfd_result, fd_out) \<leftarrow> create_pidfd pid True;
            let tt_node2 = (case fd_out of
                None \<Rightarrow> tt_node1
              | Some fd \<Rightarrow> tt_node1\<lparr>tt_task := (tt_task tt_node1)\<lparr>ti_pidfd := fd\<rparr>\<rparr>);
            if pidfd_result \<noteq> TTSCHED_SUCCESS then return_io (TT_ERROR_CONFIG, tt_node2)
            else do {
              _ \<leftarrow> bpf_add_pid ev pid;
              return_io (TT_SUCCESS, tt_node2)
            }
          })
   }"

text \<open>The loop over the schedule; the last argument is \<^verbatim>\<open>success_count\<close>.\<close>

primrec init_tasks :: "bool \<Rightarrow> task_info list \<Rightarrow> tt_context \<Rightarrow> nat \<Rightarrow> (tt_context \<times> nat) io" where
  "init_tasks ev [] ctx success_count = return_io (ctx, success_count)"
| "init_tasks ev (ti # tis) ctx success_count =
     (if cstr (cfg_node_id (cx_config ctx)) \<noteq> cstr (ti_node_id ti)
      then init_tasks ev tis ctx success_count
      else do {
        created \<leftarrow> task_create_node ti;
        (case created of
           None \<Rightarrow> init_tasks ev tis ctx success_count
         | Some tt_node \<Rightarrow> do {
             (e, tt_node') \<leftarrow> task_setup_process ev tt_node;
             if e \<noteq> TT_SUCCESS
             then do {
               _ \<leftarrow> kern (Free ''time_trigger'');
               init_tasks ev tis ctx success_count
             }
             else init_tasks ev tis
               (ctx\<lparr>cx_tt_list := tt_node' # cx_tt_list ctx,
                    cx_hp_manager := (cx_hp_manager ctx)\<lparr>hp_tasks_in_hyperperiod :=
                      hp_tasks_in_hyperperiod (cx_hp_manager ctx) + 1\<rparr>\<rparr>)
               (success_count + 1)
           })
      })"

definition init_task_list :: "bool \<Rightarrow> tt_context \<Rightarrow> (tt_error \<times> tt_context) io" where
  "init_task_list ev ctx = do {
     (ctx', success_count) \<leftarrow> init_tasks ev (si_tasks (cx_sched_info ctx)) ctx 0;
     if success_count = 0 then return_io (TT_ERROR_CONFIG, ctx')
     else return_io (TT_SUCCESS, ctx')
   }"

section \<open>Effects\<close>

fun is_task_call :: "call \<Rightarrow> bool" where
  "is_task_call (Kern (Calloc w)) = True"
| "is_task_call (Kern (Free w)) = True"
| "is_task_call c = (is_sched_call c \<or> is_bpf c)"

lemma task_call_mono: "is_sched_call c \<Longrightarrow> is_task_call c" "is_bpf c \<Longrightarrow> is_task_call c"
  "is_affinity c \<Longrightarrow> is_task_call c" "is_proc_read c \<Longrightarrow> is_task_call c"
  by (cases c rule: is_task_call.cases; simp)+

lemma only_create_node [only_intros]: "only is_task_call (task_create_node ti)"
  unfolding task_create_node_def by (intro only_rules) simp

lemma only_setup_process [only_intros]: "only is_task_call (task_setup_process ev n)"
  unfolding task_setup_process_def Let_def
  by (intro only_rules only_get_pid_by_name [THEN only_mono] only_set_affinity [THEN only_mono]
      only_set_schedattr [THEN only_mono] only_create_pidfd [THEN only_mono] only_add_pid [THEN only_mono]
      task_call_mono) simp_all

lemma only_init_tasks [only_intros]: "only is_task_call (init_tasks ev ts ctx n)"
  by (induction ts arbitrary: ctx n) (auto intro!: only_rules only_create_node only_setup_process)

lemma only_init_task_list [only_intros]: "only is_task_call (init_task_list ev ctx)"
  unfolding init_task_list_def by (intro only_rules only_init_tasks)

section \<open>Lemmas\<close>

text \<open>
  The time trigger made for a description and an opened process: the description with the process
  and its pidfd, and every other field zero.
\<close>

definition node_for :: "task_info \<Rightarrow> int \<times> int \<Rightarrow> time_trigger" where
  "node_for t pf = zero_time_trigger\<lparr>tt_task := t\<lparr>ti_pid := word_of_int (fst pf), ti_pidfd := snd pf\<rparr>, tt_ctx := True\<rparr>"

definition add_nodes :: "time_trigger list \<Rightarrow> tt_context \<Rightarrow> tt_context" where
  "add_nodes ns ctx = ctx\<lparr>cx_tt_list := rev ns @ cx_tt_list ctx,
     cx_hp_manager := (cx_hp_manager ctx)\<lparr>hp_tasks_in_hyperperiod :=
       hp_tasks_in_hyperperiod (cx_hp_manager ctx) + of_nat (length ns)\<rparr>\<rparr>"

lemma add_nodes_Nil [simp]: "add_nodes [] ctx = ctx"
  by (simp add: add_nodes_def)

lemma add_nodes_Cons:
  "add_nodes ns (ctx\<lparr>cx_tt_list := n # cx_tt_list ctx,
     cx_hp_manager := (cx_hp_manager ctx)\<lparr>hp_tasks_in_hyperperiod :=
       hp_tasks_in_hyperperiod (cx_hp_manager ctx) + 1\<rparr>\<rparr>) = add_nodes (n # ns) ctx"
  by (simp add: add_nodes_def add.assoc)

text \<open>The process and the pidfd of a call that opens one.\<close>

fun opened_pidfd :: "call \<Rightarrow> answer \<Rightarrow> (int \<times> int) option" where
  "opened_pidfd (Kern (Pidfd_open p f)) a = (if ret a \<ge> 0 then Some (p, ret a) else None)"
| "opened_pidfd _ a = None"

fun allocated :: "call \<Rightarrow> answer \<Rightarrow> bool" where
  "allocated (Kern (Calloc w)) a \<longleftrightarrow> ret a \<noteq> 0"
| "allocated _ a \<longleftrightarrow> False"

fun freed :: "call \<Rightarrow> answer \<Rightarrow> bool" where
  "freed (Kern (Free w)) a \<longleftrightarrow> True"
| "freed _ a \<longleftrightarrow> False"

text \<open>The calls that matter for the count of pidfds and of memory.\<close>

fun is_res :: "call \<Rightarrow> bool" where
  "is_res (Kern (Pidfd_open p f)) = True"
| "is_res (Kern (Calloc w)) = True"
| "is_res (Kern (Free w)) = True"
| "is_res _ = False"

lemma res_counts: "\<not> is_res c \<Longrightarrow> opened_pidfd c a = None" "\<not> is_res c \<Longrightarrow> \<not> allocated c a"
  "\<not> is_res c \<Longrightarrow> \<not> freed c a"
  by (cases c rule: is_res.cases; simp)+

lemma not_res: "is_proc_read c \<Longrightarrow> \<not> is_res c" "is_affinity c \<Longrightarrow> \<not> is_res c" "is_bpf c \<Longrightarrow> \<not> is_res c"
  by (cases c rule: is_res.cases; simp)+

lemma setup_memory:
  "made allocated (task_setup_process ev n) s = 0" "made freed (task_setup_process ev n) s = 0"
proof -
  have "only (\<lambda>c. is_sched_call c \<or> is_bpf c) (task_setup_process ev n)"
    unfolding task_setup_process_def Let_def
    by (intro only_rules only_get_pid_by_name [THEN only_mono] only_set_affinity [THEN only_mono]
      only_set_schedattr [THEN only_mono] only_create_pidfd [THEN only_mono] only_add_pid [THEN only_mono])
      (auto elim!: is_affinity.elims is_proc_read.elims)
  then have g: "only_g (\<lambda>c. is_sched_call c \<or> is_bpf c) (task_setup_process ev n)"
    by (rule only_imp_only_g)
  show "made allocated (task_setup_process ev n) s = 0" "made freed (task_setup_process ev n) s = 0"
    by (rule made_none [OF g], elim disjE; auto elim!: is_bpf.elims is_sched_call.elims is_affinity.elims is_proc_read.elims)+
qed

text \<open>
  \<open>opens m R\<close>: from every state, \<open>R\<close> holds of the result of the operation and the processes it has opened,
  each with its pidfd.
\<close>

definition opens :: "'a io \<Rightarrow> ('a \<Rightarrow> (int \<times> int) list \<Rightarrow> bool) \<Rightarrow> bool" where
  "opens m R \<longleftrightarrow> only_g (\<lambda>c. True) m \<and> (\<forall>s. R (result m s) (gathered opened_pidfd m s))"

lemma opens_none:
  assumes "only P m" and "\<And>c. P c \<Longrightarrow> \<not> is_res c"
  shows "opens m (\<lambda>_ l. l = [])"
  using gathered_none [OF only_imp_only_g [OF assms(1)], of opened_pidfd] assms(2) res_counts(1)
    only_g_mono [OF only_imp_only_g [OF assms(1)]]
  by (simp add: opens_def)

lemma opens_return: "R x [] \<Longrightarrow> opens (return_io x) R"
  by (simp add: opens_def tch.effect_return)

lemma opens_after_none:
  assumes "opens m (\<lambda>_ l. l = [])" and "\<And>x. opens (f x) R"
  shows "opens (State_Monad.bind m f) R"
  using assms gathered_bind [where m = m and f = f and g = opened_pidfd and P = "\<lambda>c. True" and P' = "\<lambda>c. True"]
  by (simp add: opens_def tch.effect_bind case_prod_beta)

lemma opens_before_none:
  assumes "opens m R0" and "\<And>x. opens (f x) (\<lambda>_ l. l = [])" and "\<And>x s l. R0 x l \<Longrightarrow> R (result (f x) s) l"
  shows "opens (State_Monad.bind m f) R"
  using assms gathered_bind [where m = m and f = f and g = opened_pidfd and P = "\<lambda>c. True" and P' = "\<lambda>c. True"]
  by (simp add: opens_def tch.effect_bind case_prod_beta)

lemma opens_mono: "opens m R \<Longrightarrow> (\<And>x l. R x l \<Longrightarrow> R' x l) \<Longrightarrow> opens m R'"
  by (simp add: opens_def)

lemma create_pidfd_opened:
  "opens (create_pidfd pid True) (\<lambda>r l. if fst r = TTSCHED_SUCCESS then \<exists>fd\<ge>0. snd r = Some fd \<and> l = [(pid, fd)] else l = [])"
  unfolding opens_def
proof
  show "only_g (\<lambda>c. True) (create_pidfd pid True)"
    by (rule only_g_mono [OF only_imp_only_g [OF only_create_pidfd]]) simp
qed (auto simp: create_pidfd_def open_pidfd_syscall_def gathered_def calls_def)

lemma only_schedattr_not_res: "only (\<lambda>c. \<not> is_res c) (set_schedattr pid p q)"
  unfolding set_schedattr_def set_sched_attr_syscall_def Let_def by (intro only_rules) simp_all

text \<open>A successful set-up has opened one process, the one the trigger names; a failed one has opened none.\<close>

definition one_open :: "time_trigger \<Rightarrow> tt_error \<times> time_trigger \<Rightarrow> (int \<times> int) list \<Rightarrow> bool" where
  "one_open n r l \<longleftrightarrow> (if fst r = TT_SUCCESS
     then \<exists>p fd. 0 \<le> fd \<and> l = [(p, fd)] \<and> snd r = n\<lparr>tt_task := (tt_task n)\<lparr>ti_pid := word_of_int p, ti_pidfd := fd\<rparr>\<rparr>
     else l = [])"

lemma setup_opened: "opens (task_setup_process ev n) (one_open n)"
proof -
  have add: "opens (do { _ \<leftarrow> bpf_add_pid ev pid; return_io x }) (\<lambda>_ l. l = [])" for pid and x :: "tt_error \<times> time_trigger"
    by (intro opens_after_none [OF opens_none [OF only_add_pid not_res(3)]] opens_return refl)
  have fd: "opens (do {
            (pidfd_result, fd_out) \<leftarrow> create_pidfd pid True;
            if pidfd_result \<noteq> TTSCHED_SUCCESS then return_io (TT_ERROR_CONFIG, g fd_out)
            else do { _ \<leftarrow> bpf_add_pid ev pid; return_io (TT_SUCCESS, g fd_out) }
          }) (\<lambda>r l. if fst r = TT_SUCCESS then \<exists>fd\<ge>0. snd r = g (Some fd) \<and> l = [(pid, fd)] else l = [])"
    for pid and g :: "int option \<Rightarrow> time_trigger"
    by (intro opens_before_none [OF create_pidfd_opened]) (auto simp: case_prod_beta intro: add opens_return split: if_splits)
  show ?thesis
    unfolding task_setup_process_def Let_def
    by (intro opens_after_none [OF opens_none [OF only_get_pid_by_name not_res(1)]])
      (auto simp: case_prod_beta one_open_def split: option.split intro!: opens_return
        opens_after_none [OF opens_none [OF only_set_affinity not_res(2)]]
        opens_after_none [OF opens_none [OF only_schedattr_not_res]] fd [THEN opens_mono] split: if_splits)
qed

lemma setup_made:
  "one_open n (result (task_setup_process ev n) s) (gathered opened_pidfd (task_setup_process ev n) s)"
  using setup_opened by (simp add: opens_def)

lemma create_node_run:
  "result (task_create_node ti) s =
     (if ret (answers s (length (trace s)) (Kern (Calloc ''time_trigger''))) = 0 then None
      else Some (zero_time_trigger\<lparr>tt_task := ti, tt_ctx := True\<rparr>)) \<and>
   gathered opened_pidfd (task_create_node ti) s = [] \<and> made freed (task_create_node ti) s = 0 \<and>
   made allocated (task_create_node ti) s = of_bool (result (task_create_node ti) s \<noteq> None)"
  by (auto simp: task_create_node_def made_def gathered_def calls_def)

text \<open>
  What the loop has achieved when the processes \<open>opn\<close> were opened and \<open>mem\<close> blocks were made before \<open>m\<close>
  takes over: the new nodes belong to a subsequence of the candidates, one for each opened process,
  in order, and as many blocks are left as there are new nodes.
\<close>

definition tasks_post ::
  "task_info list \<Rightarrow> tt_context \<Rightarrow> nat \<Rightarrow> (int \<times> int) list \<Rightarrow> nat \<Rightarrow> (tt_context \<times> nat) io \<Rightarrow> os \<Rightarrow> bool" where
  "tasks_post cands ctx k opn mem m s \<longleftrightarrow>
     (\<exists>ts pfs. subseq ts cands \<and> length ts = length pfs \<and> (\<forall>pf\<in>set pfs. 0 \<le> snd pf) \<and>
        result m s = (add_nodes (map2 node_for ts pfs) ctx, k + length pfs) \<and>
        opn @ gathered opened_pidfd m s = pfs \<and>
        mem + made allocated m s = made freed m s + length pfs)"

lemma tasks_post_return: "tasks_post cands ctx k [] 0 (return_io (ctx, k)) s"
  unfolding tasks_post_def by (intro exI [of _ "[]"]) simp

lemma tasks_post_bind:
  assumes "only P m" and "\<And>x. only P' (f x)"
    and "tasks_post cands ctx k (opn @ gathered opened_pidfd m s) mem' (f (result m s)) (after m s)"
    and "mem + made allocated m s = mem' + made freed m s"
  shows "tasks_post cands ctx k opn mem (State_Monad.bind m f) s"
proof -
  have eq: "made Q (State_Monad.bind m f) s = made Q m s + made Q (f (result m s)) (after m s)" for Q
    by (rule made_bind [OF assms(1,2) [THEN only_imp_only_g]])
  have opn: "gathered opened_pidfd (State_Monad.bind m f) s =
      gathered opened_pidfd m s @ gathered opened_pidfd (f (result m s)) (after m s)"
    by (rule gathered_bind [OF assms(1,2) [THEN only_imp_only_g]])
  have run: "result (State_Monad.bind m f) s = result (f (result m s)) (after m s)"
    by (simp add: case_prod_beta)
  from assms(3) obtain ts pfs where post: "subseq ts cands" "length ts = length pfs" "\<forall>pf\<in>set pfs. 0 \<le> snd pf"
    "result (f (result m s)) (after m s) = (add_nodes (map2 node_for ts pfs) ctx, k + length pfs)"
    "(opn @ gathered opened_pidfd m s) @ gathered opened_pidfd (f (result m s)) (after m s) = pfs"
    "mem' + made allocated (f (result m s)) (after m s) = made freed (f (result m s)) (after m s) + length pfs"
    unfolding tasks_post_def by blast
  have "mem + made allocated (State_Monad.bind m f) s = made freed (State_Monad.bind m f) s + length pfs"
    unfolding eq using post(6) assms(4) by linarith
  with post(1-5) show ?thesis unfolding tasks_post_def run opn append_assoc
    by blast
qed

lemma tasks_post_skip: "tasks_post cands ctx k opn mem m s \<Longrightarrow> tasks_post (ti # cands) ctx k opn mem m s"
  unfolding tasks_post_def by (meson list_emb_Cons)

lemma tasks_post_add:
  assumes "0 \<le> snd pf"
    and "tasks_post cands (ctx\<lparr>cx_tt_list := node_for ti pf # cx_tt_list ctx,
      cx_hp_manager := (cx_hp_manager ctx)\<lparr>hp_tasks_in_hyperperiod :=
        hp_tasks_in_hyperperiod (cx_hp_manager ctx) + 1\<rparr>\<rparr>) (k + 1) [] 0 m s"
  shows "tasks_post (ti # cands) ctx k [pf] 1 m s"
proof -
  from assms(2) obtain ts pfs where post: "subseq ts cands" "length ts = length pfs" "\<forall>pf\<in>set pfs. 0 \<le> snd pf"
    "result m s = (add_nodes (node_for ti pf # map2 node_for ts pfs) ctx, k + 1 + length pfs)"
    "gathered opened_pidfd m s = pfs" "made allocated m s = made freed m s + length pfs"
    unfolding tasks_post_def add_nodes_Cons by auto
  have "subseq (ti # ts) (ti # cands)" "\<forall>q\<in>set (pf # pfs). 0 \<le> snd q"
    using post(1,3) assms(1) by simp_all
  then show ?thesis unfolding tasks_post_def
    by (intro exI [of _ "ti # ts"] exI [of _ "pf # pfs"]) (use post(2,4-6) in simp)
qed

lemma init_tasks_post:
  "tasks_post (filter (\<lambda>t. cstr (cfg_node_id (cx_config ctx)) = cstr (ti_node_id t)) tis) ctx k [] 0
     (init_tasks ev tis ctx k) s"
proof (induction tis arbitrary: ctx k s)
  case (Cons ti tis ctx k s)
  let ?c = "filter (\<lambda>t. cstr (cfg_node_id (cx_config ctx)) = cstr (ti_node_id t)) tis"
  let ?n0 = "zero_time_trigger\<lparr>tt_task := ti, tt_ctx := True\<rparr>"
  let ?add = "\<lambda>n. ctx\<lparr>cx_tt_list := n # cx_tt_list ctx,
      cx_hp_manager := (cx_hp_manager ctx)\<lparr>hp_tasks_in_hyperperiod :=
        hp_tasks_in_hyperperiod (cx_hp_manager ctx) + 1\<rparr>\<rparr>"
  let ?go = "\<lambda>(e, n). if e \<noteq> TT_SUCCESS then do { _ \<leftarrow> kern (Free ''time_trigger''); init_tasks ev tis ctx k }
       else init_tasks ev tis (?add n) (k + 1)"
  have fail: "tasks_post (ti # ?c) ctx k [] 1 (do { _ \<leftarrow> kern (Free ''time_trigger''); init_tasks ev tis ctx k }) s" for s
    by (rule tasks_post_bind [OF only_sys only_init_tasks, where mem' = 0])
      (use tasks_post_skip [OF Cons.IH] in simp_all)
  have process: "tasks_post (ti # ?c) ctx k [] 1 (State_Monad.bind (task_setup_process ev ?n0) ?go) s" for s
  proof (rule tasks_post_bind [OF only_setup_process, where mem' = 1 and P' = is_task_call])
    show "only is_task_call (?go x)" for x
      by (cases x) (auto intro!: only_rules only_init_tasks)
    obtain e n where r: "result (task_setup_process ev ?n0) s = (e, n)" by fastforce
    have ok: "tasks_post (ti # ?c) ctx k [pf] 1 (init_tasks ev tis (?add (node_for ti pf)) (k + 1)) s'"
      if "0 \<le> snd pf" for pf s'
      by (rule tasks_post_add [OF that]) (use Cons.IH [of "?add (node_for ti pf)"] in simp)
    show "tasks_post (ti # ?c) ctx k ([] @ gathered opened_pidfd (task_setup_process ev ?n0) s) 1
        (?go (result (task_setup_process ev ?n0) s)) (after (task_setup_process ev ?n0) s)"
    proof (cases "e = TT_SUCCESS")
      case True
      with setup_made [of ?n0 ev s] obtain p fd where "0 \<le> fd"
        "gathered opened_pidfd (task_setup_process ev ?n0) s = [(p, fd)]"
        "n = ?n0\<lparr>tt_task := ti\<lparr>ti_pid := word_of_int p, ti_pidfd := fd\<rparr>\<rparr>"
        unfolding r one_open_def by auto
      moreover from this(3) have "n = node_for ti (p, fd)" by (simp add: node_for_def zero_time_trigger_def)
      ultimately show ?thesis using True ok [of "(p, fd)"] unfolding r by simp
    qed (use setup_made [of ?n0 ev s] fail in \<open>simp add: r one_open_def\<close>)
  qed (simp add: setup_memory)
  show ?case
  proof (cases "cstr (cfg_node_id (cx_config ctx)) = cstr (ti_node_id ti)")
    case True
    have "tasks_post (ti # ?c) ctx k [] 0 (State_Monad.bind (task_create_node ti) (\<lambda>created. case created of
           None \<Rightarrow> init_tasks ev tis ctx k
         | Some tt_node \<Rightarrow> State_Monad.bind (task_setup_process ev tt_node) ?go)) s"
    proof (rule tasks_post_bind [OF only_create_node, where P' = is_task_call and
          mem' = "of_bool (result (task_create_node ti) s \<noteq> None)"])
      show "only is_task_call (case c of None \<Rightarrow> init_tasks ev tis ctx k
         | Some tt_node \<Rightarrow> State_Monad.bind (task_setup_process ev tt_node) ?go)" for c
        by (intro only_rules only_setup_process only_init_tasks) simp
    qed (use create_node_run [of ti s] process tasks_post_skip [OF Cons.IH] in simp_all)
    with True show ?thesis by simp
  qed (use Cons.IH in simp)
qed (simp add: tasks_post_return)

section \<open>Properties\<close>

text \<open>
  C13. Building the task list, whatever the system answers: the processes that were opened, in their
  order, each with the valid pidfd that the kernel returned, are those of the new time triggers, and
  no other process was opened. The new triggers belong to tasks of this node only, each is the
  description of its task with that process and that pidfd and every other field zero; they stand
  in front of the list, in the reverse of the order of the schedule, the count for the
  hyperperiod grows by their number and nothing else in the context changes. Success is reported
  exactly when there is one. As many memory blocks are left allocated as there are new triggers.
\<close>

theorem init_task_list_sound:
  "\<exists>ts pfs. subseq ts (filter (\<lambda>t. cstr (cfg_node_id (cx_config ctx)) = cstr (ti_node_id t)) (si_tasks (cx_sched_info ctx))) \<and>
     gathered opened_pidfd (init_task_list ev ctx) s = pfs \<and> length ts = length pfs \<and> list_all (\<lambda>pf. 0 \<le> snd pf) pfs \<and>
     result (init_task_list ev ctx) s =
       (if pfs = [] then TT_ERROR_CONFIG else TT_SUCCESS, add_nodes (map2 node_for ts pfs) ctx) \<and>
     made allocated (init_task_list ev ctx) s = made freed (init_task_list ev ctx) s + length pfs"
proof -
  let ?m = "init_tasks ev (si_tasks (cx_sched_info ctx)) ctx 0"
  let ?f = "\<lambda>(ctx', success_count). if success_count = (0::nat) then return_io (TT_ERROR_CONFIG, ctx')
     else return_io (TT_SUCCESS, ctx')"
  have f: "only_g (\<lambda>c. True) (?f x)" for x by (intro only_g_rules)
  have eq: "made Q (init_task_list ev ctx) s = made Q ?m s" for Q
    unfolding init_task_list_def
    by (subst made_bind [OF only_init_tasks [THEN only_imp_only_g] f]) (simp add: case_prod_beta)
  have opn: "gathered opened_pidfd (init_task_list ev ctx) s = gathered opened_pidfd ?m s"
    unfolding init_task_list_def
    by (subst gathered_bind [OF only_init_tasks [THEN only_imp_only_g] f]) (simp add: case_prod_beta)
  from init_tasks_post [of ctx "si_tasks (cx_sched_info ctx)" 0 ev s] obtain ts pfs where post:
    "subseq ts (filter (\<lambda>t. cstr (cfg_node_id (cx_config ctx)) = cstr (ti_node_id t)) (si_tasks (cx_sched_info ctx)))"
    "gathered opened_pidfd ?m s = pfs" "length ts = length pfs" "list_all (\<lambda>pf. 0 \<le> snd pf) pfs"
    "result ?m s = (add_nodes (map2 node_for ts pfs) ctx, length pfs)"
    "made allocated ?m s = made freed ?m s + length pfs"
    unfolding tasks_post_def list_all_iff by auto
  have "result (init_task_list ev ctx) s =
      (if pfs = [] then TT_ERROR_CONFIG else TT_SUCCESS, add_nodes (map2 node_for ts pfs) ctx)"
    using post(5) by (simp add: init_task_list_def case_prod_beta)
  then show ?thesis unfolding eq opn by (intro exI [of _ ts] exI [of _ pfs] conjI post(1-4,6))
qed

text \<open>The process that the search finds on a system that does not change, -1 if there is none.\<close>

definition found_pid :: "os \<Rightarrow> string \<Rightarrow> int" where
  "found_pid s name = hd_or_fail (concat (map (threads_named s name) (dir_pids s ''/proc'')))"

definition startable :: "os \<Rightarrow> tt_context \<Rightarrow> task_info \<Rightarrow> bool" where
  "startable s ctx t \<longleftrightarrow> cstr (cfg_node_id (cx_config ctx)) = cstr (ti_node_id t) \<and>
     ret (answers s 0 (Kern (Calloc ''time_trigger''))) \<noteq> 0 \<and> found_pid s (ti_name t) \<noteq> -1 \<and>
     0 \<le> ret (answers s 0 (Kern (Pidfd_open (found_pid s (ti_name t)) 0)))"

definition trigger_for :: "os \<Rightarrow> task_info \<Rightarrow> time_trigger" where
  "trigger_for s t = zero_time_trigger\<lparr>tt_task := t\<lparr>ti_pid := word_of_int (found_pid s (ti_name t)),
     ti_pidfd := ret (answers s 0 (Kern (Pidfd_open (found_pid s (ti_name t)) 0)))\<rparr>, tt_ctx := True\<rparr>"

lemma steady_trace [simp]: "steady (s\<lparr>trace := t\<rparr>) = steady s"
  by (simp add: steady_def)

lemma search_trace [simp]: "threads_named (s\<lparr>trace := t\<rparr>) = threads_named s" "dir_pids (s\<lparr>trace := t\<rparr>) = dir_pids s"
  by (simp_all add: fun_eq_iff threads_named_def dir_pids_def comm_of_def)

lemma only_after_trace:
  assumes "only P m"
  obtains t' where "after m (s\<lparr>trace := t\<rparr>) = s\<lparr>trace := t'\<rparr>"
proof -
  have "after m (s\<lparr>trace := t\<rparr>) = s\<lparr>trace := t @ calls m (s\<lparr>trace := t\<rparr>)\<rparr>"
    unfolding only_after [OF assms] by simp
  then show ?thesis by (rule that)
qed

lemma found_pid_Cons:
  assumes "concat (map (threads_named s name) (dir_pids s ''/proc'')) = p # ps"
  shows "0 < p" "found_pid s name = p"
proof -
  have "p \<in> set (concat (map (threads_named s name) (dir_pids s ''/proc'')))" unfolding assms by simp
  then show "0 < p" by (auto simp: threads_named_def dest: dir_pids_pos)
  show "found_pid s name = p" unfolding found_pid_def assms by simp
qed

lemma found_pid_pos: "found_pid s name \<noteq> -1 \<Longrightarrow> 0 < found_pid s name"
  using found_pid_Cons [of s name]
  by (cases "concat (map (threads_named s name) (dir_pids s ''/proc''))") (simp_all only: found_pid_def list.case)

lemma steady_get_pid:
  assumes "steady s"
  shows "result (get_pid_by_name (Some name) True) (s\<lparr>trace := t\<rparr>) =
    (if found_pid s name = -1 then (TTSCHED_ERROR_SYSTEM, Some (-1)) else (TTSCHED_SUCCESS, Some (found_pid s name)))"
proof (cases "concat (map (threads_named s name) (dir_pids s ''/proc''))")
  case Nil
  have "result (get_pid_by_name (Some name) True) (s\<lparr>trace := t\<rparr>) = (TTSCHED_ERROR_SYSTEM, Some (-1))"
    using steady_get_pid_by_name [of "s\<lparr>trace := t\<rparr>" name] assms unfolding search_trace steady_trace Nil by simp
  moreover have "found_pid s name = -1" unfolding found_pid_def Nil by simp
  ultimately show ?thesis by simp
next
  case (Cons p ps)
  have "result (get_pid_by_name (Some name) True) (s\<lparr>trace := t\<rparr>) = (TTSCHED_SUCCESS, Some p)"
    using steady_get_pid_by_name [of "s\<lparr>trace := t\<rparr>" name] assms unfolding search_trace steady_trace Cons by simp
  then show ?thesis using found_pid_Cons [OF Cons] by simp
qed

lemma steady_setup:
  assumes "steady s"
  shows "result (task_setup_process ev n) (s\<lparr>trace := t\<rparr>) =
    (let p = found_pid s (ti_name (tt_task n)); fd = ret (answers s 0 (Kern (Pidfd_open p 0))) in
     if p = -1 then (TT_ERROR_CONFIG, n)
     else (if fd < 0 then TT_ERROR_CONFIG else TT_SUCCESS,
           n\<lparr>tt_task := (tt_task n)\<lparr>ti_pid := word_of_int p, ti_pidfd := fd\<rparr>\<rparr>))"
proof -
  from assms obtain f where f: "answers s = (\<lambda>n. f)" by (rule steadyE)
  let ?p = "found_pid s (ti_name (tt_task n))"
  obtain t1 where 1: "after (get_pid_by_name (Some (ti_name (tt_task n))) True) (s\<lparr>trace := t\<rparr>) = s\<lparr>trace := t1\<rparr>"
    by (rule only_after_trace [OF only_get_pid_by_name])
  obtain t2 where 2: "after (set_affinity ?p (to_int32 (uint (ti_cpu_affinity (tt_task n))))) (s\<lparr>trace := t1\<rparr>) = s\<lparr>trace := t2\<rparr>"
    by (rule only_after_trace [OF only_set_affinity])
  obtain t3 where 3: "after (set_schedattr ?p (ti_sched_priority (tt_task n)) (ti_sched_policy (tt_task n))) (s\<lparr>trace := t2\<rparr>) = s\<lparr>trace := t3\<rparr>"
    by (rule only_after_trace [OF only_set_schedattr])
  have "?p = -1 \<or> 0 < ?p" using found_pid_pos by blast
  then show ?thesis
    by (auto simp: task_setup_process_def Let_def case_prod_beta 1 2 3 steady_get_pid [OF assms] create_pidfd_def open_pidfd_syscall_def f)
qed

lemma steady_init_tasks:
  assumes "steady s"
  shows "result (init_tasks ev tis ctx k) (s\<lparr>trace := t\<rparr>) =
    (add_nodes (map (trigger_for s) (filter (startable s ctx) tis)) ctx, k + length (filter (startable s ctx) tis))"
proof (induction tis arbitrary: ctx k t)
  case (Cons ti tis ctx k t)
  from assms obtain f where f: "answers s = (\<lambda>n. f)" by (rule steadyE)
  let ?t1 = "t @ [Kern (Calloc ''time_trigger'')]"
  let ?n0 = "zero_time_trigger\<lparr>tt_task := ti, tt_ctx := True\<rparr>"
  obtain t2 where 2: "after (task_setup_process ev ?n0) (s\<lparr>trace := ?t1\<rparr>) = s\<lparr>trace := t2\<rparr>"
    by (rule only_after_trace [OF only_setup_process])
  have "startable s (ctx\<lparr>cx_tt_list := l, cx_hp_manager := h\<rparr>) = startable s ctx" for l h
    by (simp add: startable_def fun_eq_iff)
  then show ?case
    using Cons.IH 2
    by (auto simp: case_prod_beta steady_setup [OF assms] startable_def trigger_for_def task_create_node_def f Let_def add_nodes_Cons zero_time_trigger_def)
qed simp

text \<open>
  C14. Building the task list on a system that does not change meanwhile: the tasks that are started
  are exactly those of this node for which memory is available, a thread with the name of the
  task exists and its pidfd can be opened; each trigger has that thread and that pidfd.
\<close>

theorem init_task_list_complete:
  assumes "steady s"
  shows "result (init_task_list ev ctx) s =
    (let ts = filter (startable s ctx) (si_tasks (cx_sched_info ctx))
     in (if ts = [] then TT_ERROR_CONFIG else TT_SUCCESS, add_nodes (map (trigger_for s) ts) ctx))"
  using steady_init_tasks [OF assms, of ev "si_tasks (cx_sched_info ctx)" ctx 0 "trace s"]
  by (simp add: init_task_list_def case_prod_beta Let_def)

lemma init_task_list_complete_witness:
  "\<exists>s. steady s \<and> (\<exists>ctx. result (init_task_list True ctx) s =
     (TT_SUCCESS, add_nodes [trigger_for s (zero_task_info\<lparr>ti_name := ''cam''\<rparr>)] ctx))"
proof -
  let ?f = "\<lambda>c. case c of
      Kern (Opendir p) \<Rightarrow> answer0\<lparr>ret := 1, out_dir := [(''7'', True)]\<rparr>
    | Kern (Fopen p m) \<Rightarrow> answer0\<lparr>ret := 1, out_text := ''cam'' @ [CHR 0x0A]\<rparr>
    | Kern (Calloc w) \<Rightarrow> answer0\<lparr>ret := 1\<rparr>
    | _ \<Rightarrow> answer0"
  define s where "s = os_of ?f"
  let ?t = "zero_task_info\<lparr>ti_name := ''cam''\<rparr>"
  let ?ctx = "zero_context\<lparr>cx_sched_info := zero_sched_info\<lparr>si_tasks := [?t, ?t\<lparr>ti_node_id := ''other''\<rparr>]\<rparr>\<rparr>"
  have n: "atoi ''7'' = 7"
    by (simp_all add: atoi_def strtol10_def cstr_def is_space_def is_digit_def to_int32_id)
  have "found_pid s ''cam'' = 7"
    by (simp add: s_def found_pid_def dir_pids_def threads_named_def comm_of_def n cstr_def)
  moreover have "ret (answers s 0 (Kern (Calloc w))) = 1" "ret (answers s 0 (Kern (Pidfd_open p f))) = 0" for w p f
    by (simp_all add: s_def answer0_def)
  ultimately have "filter (startable s ?ctx) [?t, ?t\<lparr>ti_node_id := ''other''\<rparr>] = [?t]"
    by (simp add: startable_def zero_context_def zero_task_info_def cstr_def)
  moreover have st: "steady s" by (simp add: s_def)
  ultimately have "result (init_task_list True ?ctx) s = (TT_SUCCESS, add_nodes [trigger_for s ?t] ?ctx)"
    using init_task_list_complete [of s True ?ctx] by simp
  with st show ?thesis by blast
qed

end
