(* ===== verification/Core.thy ===== *)
theory Core
  imports Apex Task Hyperperiod
begin

text \<open>
  The engine of the node (\<^verbatim>\<open>timpani-n/src/core.c\<close>, apart from the Apex.OS handlers): the calibration of
  the kernel clock, the handlers of the two kinds of trace events, the handler that runs
  when the timer of a task expires, the start of the timers, and the main event loop. The build
  is the default one, with \<^verbatim>\<open>CONFIG_TRACE_BPF\<close>. A handler that runs in a thread of its own (a timer
  or a ring buffer) is a function of the context, executed as one step.
\<close>

section \<open>Clock calibration\<close>

definition UINT64_MAX :: u64 where
  "UINT64_MAX = - 1"

text \<open>The loop: the best distance so far, and the remaining number of rounds.\<close>

primrec calibrate_loop :: "nat \<Rightarrow> u64 \<Rightarrow> tt_error io" where
  "calibrate_loop 0 best_delta = return_io TT_SUCCESS"
| "calibrate_loop (Suc n) best_delta = do {
     t1 \<leftarrow> kern (Clock_gettime CLOCK_REALTIME);
     if ret t1 < 0 then return_io TT_ERROR_TIMER
     else do {
       t2 \<leftarrow> kern (Clock_gettime CLOCK_MONOTONIC);
       if ret t2 < 0 then return_io TT_ERROR_TIMER
       else do {
         t3 \<leftarrow> kern (Clock_gettime CLOCK_REALTIME);
         if ret t3 < 0 then return_io TT_ERROR_TIMER
         else do {
           let delta = tt_timespec_to_ns (out_ts t3) - tt_timespec_to_ns (out_ts t1);
           let ts = (tt_timespec_to_ns (out_ts t3) + tt_timespec_to_ns (out_ts t1)) div 2;
           if delta < best_delta then do {
             g \<leftarrow> get_globals;
             set_globals (g\<lparr>g_bpf_ktime_off := ts - tt_timespec_to_ns (out_ts t2)\<rparr>);
             calibrate_loop n delta
           }
           else calibrate_loop n best_delta
         }
       }
     }
   }"

definition calibrate_bpf_ktime_offset_internal :: "tt_error io" where
  "calibrate_bpf_ktime_offset_internal = calibrate_loop 20 UINT64_MAX"

definition calibrate_bpf_time_offset :: "tt_error io" where
  "calibrate_bpf_time_offset = calibrate_bpf_ktime_offset_internal"

definition bpf_ktime_to_real :: "globals \<Rightarrow> u64 \<Rightarrow> u64" where
  "bpf_ktime_to_real g bpf_ts = g_bpf_ktime_off g + bpf_ts"

section \<open>Trace events\<close>

text \<open>
  The size of the event structure is 24 bytes. The data are decoded: \<open>None\<close> is a NULL pointer. The
  comparison of the unsigned pid of the task with the signed one of the event is unsigned.
\<close>

definition sizeof_sigwait_event :: nat where
  "sizeof_sigwait_event = 24"

primrec record_sigwait :: "u64 \<Rightarrow> sigwait_event \<Rightarrow> time_trigger list \<Rightarrow> time_trigger list" where
  "record_sigwait ts e [] = []"
| "record_sigwait ts e (tt_p # rest) =
     (if ti_pid (tt_task tt_p) = word_of_int (sw_pid e)
      then tt_p\<lparr>tt_sigwait_ts := ts, tt_sigwait_enter := sw_enter e\<rparr> # rest
      else tt_p # record_sigwait ts e rest)"

definition handle_sigwait_bpf_event ::
  "tt_context option \<Rightarrow> sigwait_event option \<Rightarrow> nat \<Rightarrow> (tt_error \<times> tt_context option) io" where
  "handle_sigwait_bpf_event ctx data len =
     (case (ctx, data) of
        (Some ctx_struct, Some e) \<Rightarrow>
          if len < sizeof_sigwait_event then return_io (TT_ERROR_BPF, ctx)
          else do {
            g \<leftarrow> get_globals;
            return_io (TT_SUCCESS, Some (ctx_struct\<lparr>cx_tt_list :=
              record_sigwait (bpf_ktime_to_real g (sw_timestamp e)) e (cx_tt_list ctx_struct)\<rparr>))
          }
      | _ \<Rightarrow> return_io (TT_ERROR_BPF, ctx))"

definition SCHEDSTAT_NS_TO_US :: "u64 \<Rightarrow> u64" where
  "SCHEDSTAT_NS_TO_US ns = (ns + (1000 - 1)) div 1000"

definition plot_file_name :: "tt_context \<Rightarrow> string" where
  "plot_file_name ctx = take 127 (cfg_node_id (cx_config ctx) @ ''.gpdata'')"

text \<open>
  The plot file: it is opened at the first event and closed when plotting is switched off. The
  result has the numbers of the line that is written, if one is.
\<close>

definition write_schedstat ::
  "tt_context \<Rightarrow> schedstat_event \<Rightarrow> string \<Rightarrow> (tt_context \<times> (string \<times> int \<times> u64 \<times> u64 \<times> u64) option) io" where
  "write_schedstat ctx e tname = do {
     g \<leftarrow> get_globals;
     if \<not> cfg_enable_plot (cx_config ctx) then
       (if g_plot_file g then do {
          _ \<leftarrow> kern (Fclose (plot_file_name ctx));
          set_globals (g\<lparr>g_plot_file := False\<rparr>);
          return_io (ctx, None)
        }
        else return_io (ctx, None))
     else do {
       opened \<leftarrow> (if g_plot_file g then return_io True
         else do {
           f \<leftarrow> kern (Fopen (plot_file_name ctx) ''w+'');
           set_globals (g\<lparr>g_plot_file := (ret f \<noteq> 0)\<rparr>);
           return_io (ret f \<noteq> 0)
         });
       if \<not> opened then return_io (ctx\<lparr>cx_config := (cx_config ctx)\<lparr>cfg_enable_plot := False\<rparr>\<rparr>, None)
       else return_io (ctx, Some (tname, ss_cpu e,
         SCHEDSTAT_NS_TO_US (bpf_ktime_to_real g (ss_ts_wakeup e)),
         SCHEDSTAT_NS_TO_US (bpf_ktime_to_real g (ss_ts_start e)),
         SCHEDSTAT_NS_TO_US (bpf_ktime_to_real g (ss_ts_stop e))))
     }
   }"

text \<open>The first argument is the build option \<^verbatim>\<open>CONFIG_TRACE_BPF_EVENT\<close>.\<close>

definition handle_schedstat_bpf_event ::
  "bool \<Rightarrow> tt_context option \<Rightarrow> schedstat_event option \<Rightarrow> nat \<Rightarrow> (tt_error \<times> tt_context option) io" where
  "handle_schedstat_bpf_event ev ctx data len =
     (if \<not> ev then return_io (TT_SUCCESS, ctx)
      else (case (ctx, data) of
        (Some ctx_struct, Some e) \<Rightarrow>
          if len = 0 then return_io (TT_ERROR_BPF, ctx)
          else (case find (\<lambda>tt_p. ti_pid (tt_task tt_p) = word_of_int (ss_pid e)) (cx_tt_list ctx_struct) of
              None \<Rightarrow> return_io (TT_SUCCESS, ctx)
            | Some tt_p \<Rightarrow>
                if cfg_enable_plot (cx_config ctx_struct)
                then do {
                  (ctx', _) \<leftarrow> write_schedstat ctx_struct e (ti_name (tt_task tt_p));
                  return_io (TT_SUCCESS, Some ctx')
                }
                else return_io (TT_SUCCESS, ctx))
      | _ \<Rightarrow> return_io (TT_ERROR_BPF, ctx)))"

section \<open>Expiration of a task timer\<close>

datatype miss_kind = Still_running | Late | Stuck_in_kernel

text \<open>The three checks of the handler, in their order.\<close>

definition deadline_check :: "u64 \<Rightarrow> time_trigger \<Rightarrow> miss_kind option" where
  "deadline_check deadline_ns tt_node =
     (if tt_sigwait_enter tt_node = 0 then Some Still_running
      else if tt_sigwait_ts tt_node > deadline_ns then Some Late
      else if tt_sigwait_ts tt_node = tt_sigwait_ts_prev tt_node then Some Stuck_in_kernel
      else None)"

definition count_deadline_miss :: "tt_context \<Rightarrow> tt_context" where
  "count_deadline_miss ctx = ctx\<lparr>cx_hp_manager := (cx_hp_manager ctx)\<lparr>
     hp_total_deadline_misses := hp_total_deadline_misses (cx_hp_manager ctx) + 1,
     hp_cycle_deadline_misses := hp_cycle_deadline_misses (cx_hp_manager ctx) + 1\<rparr>\<rparr>"

text \<open>The wait for the release time of the task, when it has one.\<close>

definition release_wait :: "clockid \<Rightarrow> task_info \<Rightarrow> unit io" where
  "release_wait clk task =
     (if ti_release_time task \<noteq> 0
      then do {
        _ \<leftarrow> kern (Clock_nanosleep clk (tt_us_to_timespec (ucast (ti_release_time task))));
        return_io ()
      }
      else return_io ())"

text \<open>The comparison of the last known wait of the task with the expiration time.\<close>

definition check_deadline :: "timespec \<Rightarrow> time_trigger \<Rightarrow> tt_context \<Rightarrow> (time_trigger \<times> tt_context) io" where
  "check_deadline before tt_node ctx =
     (if tt_sigwait_ts tt_node \<noteq> 0
      then do {
        let deadline_ns = tt_timespec_to_ns before;
        ctx1 \<leftarrow> (case deadline_check deadline_ns tt_node of
            None \<Rightarrow> return_io ctx
          | Some k \<Rightarrow> do {
              let ctx1 = count_deadline_miss ctx;
              _ \<leftarrow> report_deadline_miss ctx1 (ti_name (tt_task tt_node));
              return_io ctx1
            });
        return_io (tt_node\<lparr>tt_sigwait_ts_prev := tt_sigwait_ts tt_node\<rparr>, ctx1)
      }
      else return_io (tt_node, ctx))"

text \<open>The argument is the element the timer was created for; \<open>None\<close> is a NULL pointer.\<close>

definition timer_expired_handler ::
  "time_trigger option \<Rightarrow> tt_context \<Rightarrow> (time_trigger option \<times> tt_context) io" where
  "timer_expired_handler node ctx =
     (case node of
        None \<Rightarrow> return_io (node, ctx)
      | Some tt_node \<Rightarrow>
          if \<not> tt_ctx tt_node then return_io (node, ctx)
          else do {
            let task = tt_task tt_node;
            before \<leftarrow> kern (Clock_gettime (cfg_clockid (cx_config ctx)));
            _ \<leftarrow> get_hyperperiod_relative_time (cfg_clockid (cx_config ctx)) (Some (cx_hp_manager ctx));
            release_wait (cfg_clockid (cx_config ctx)) task;
            (tt_node1, ctx1) \<leftarrow> check_deadline (out_ts before) tt_node ctx;
            _ \<leftarrow> kern (Clock_gettime (cfg_clockid (cx_config ctx)));
            _ \<leftarrow> send_signal_pidfd (ti_pidfd task) SIGNO_TT;
            return_io (Some (tt_node1\<lparr>tt_prev_timer := out_ts before\<rparr>), ctx1)
          })"

section \<open>Start of the timers\<close>

definition task_its :: "timespec \<Rightarrow> u32 \<Rightarrow> itimerspec" where
  "task_its start period = \<lparr>it_value = start,
     it_interval = Timespec (ucast period div TT_USEC_PER_SEC) (ucast period mod TT_USEC_PER_SEC * TT_NSEC_PER_USEC)\<rparr>"

text \<open>The loop over the list from position \<open>i\<close>; it stops at the first failure.\<close>

primrec arm_timers :: "clockid \<Rightarrow> timespec \<Rightarrow> nat \<Rightarrow> time_trigger list \<Rightarrow> (tt_error \<times> time_trigger list) io" where
  "arm_timers clk start i [] = return_io (TT_SUCCESS, [])"
| "arm_timers clk start i (tt_p # rest) = do {
     a \<leftarrow> kern (Timer_create clk (Notify_timer_expired i));
     if ret a \<noteq> 0 then return_io (TT_ERROR_TIMER, tt_p # rest)
     else do {
       let tt_p' = tt_p\<lparr>tt_timer := out_timer a\<rparr>;
       b \<leftarrow> kern (Timer_settime (tt_timer tt_p') True (task_its start (ti_period (tt_task tt_p'))));
       if ret b \<noteq> 0 then return_io (TT_ERROR_TIMER, tt_p' # rest)
       else do {
         (e, rest') \<leftarrow> arm_timers clk start (i + 1) rest;
         return_io (e, tt_p' # rest')
       }
     }
   }"

definition start_timers :: "tt_context \<Rightarrow> (tt_error \<times> tt_context) io" where
  "start_timers ctx = do {
     ctx1 \<leftarrow> (if \<not> cfg_enable_sync (cx_config ctx)
       then do {
         a \<leftarrow> kern (Clock_gettime (cfg_clockid (cx_config ctx)));
         return_io (ctx\<lparr>cx_starttimer_ts :=
           Timespec (tv_sec (out_ts a)) (tv_nsec (out_ts a) + TT_TIMER_INCREMENT_NS)\<rparr>)
       }
       else return_io ctx);
     (e, tts) \<leftarrow> arm_timers (cfg_clockid (cx_config ctx1)) (cx_starttimer_ts ctx1) 0 (cx_tt_list ctx1);
     return_io (e, ctx1\<lparr>cx_tt_list := tts\<rparr>)
   }"

section \<open>Signals\<close>

text \<open>
  \<^verbatim>\<open>signal.c\<close>: the handler sets the flag of the context that the static variable points to.
\<close>

definition signal_handler :: "globals \<Rightarrow> int \<Rightarrow> tt_context \<Rightarrow> tt_context" where
  "signal_handler g signo ctx = (if g_ctx g then ctx\<lparr>cx_shutdown_requested := 1\<rparr> else ctx)"

definition setup_signal_handlers :: "tt_context \<Rightarrow> tt_error io" where
  "setup_signal_handlers ctx = do {
     g \<leftarrow> get_globals;
     set_globals (g\<lparr>g_ctx := True\<rparr>);
     a \<leftarrow> kern (Sigaction SIGINT);
     if ret a < 0 then return_io TT_ERROR_SIGNAL
     else do {
       b \<leftarrow> kern (Sigaction SIGTERM);
       if ret b < 0 then return_io TT_ERROR_SIGNAL else return_io TT_SUCCESS
     }
   }"

text \<open>
  A signal is handled between two steps of the main thread: before the flag is tested, the
  handler has run for every signal that was delivered during the calls since position \<open>n\<close>.
\<close>

definition handle_signals :: "nat \<Rightarrow> tt_context \<Rightarrow> tt_context io" where
  "handle_signals n ctx = State (\<lambda>s.
     (fold (signal_handler (globals s)) (filter (\<lambda>g. g = SIGINT \<or> g = SIGTERM) (delivered n s)) ctx, s))"

section \<open>The event loop\<close>

primrec epoll_add :: "int \<Rightarrow> time_trigger list \<Rightarrow> bool io" where
  "epoll_add efd [] = return_io True"
| "epoll_add efd (tt_p # rest) = do {
     a \<leftarrow> kern (Epoll_ctl_add efd (ti_pidfd (tt_task tt_p)));
     if ret a < 0 then return_io False else epoll_add efd rest
   }"

text \<open>One round after \<^verbatim>\<open>epoll_wait\<close> has reported the descriptor \<open>fd\<close>.\<close>

definition epoll_event :: "int \<Rightarrow> int \<Rightarrow> tt_context \<Rightarrow> tt_context io" where
  "epoll_event efd fd ctx =
     (if fd = cx_apex_fd ctx then do { (_, ctx') \<leftarrow> handle_apex_events ctx; return_io ctx' }
      else (case find (\<lambda>tt_p. ti_pidfd (tt_task tt_p) = fd) (cx_tt_list ctx) of
              None \<Rightarrow> return_io ctx
            | Some tt_p \<Rightarrow> do { _ \<leftarrow> kern (Epoll_ctl_del efd (ti_pidfd (tt_task tt_p))); return_io ctx }))"

text \<open>
  The loop with a bound on the number of rounds; \<open>None\<close> means that the bound was reached. \<open>n\<close> is the
  position up to which the signals have been handled.
\<close>

primrec epoll_rounds :: "nat \<Rightarrow> int \<Rightarrow> nat \<Rightarrow> tt_context \<Rightarrow> (tt_error \<times> tt_context) option io" where
  "epoll_rounds 0 efd n ctx = return_io None"
| "epoll_rounds (Suc fuel) efd n ctx = do {
     ctx1 \<leftarrow> handle_signals n ctx;
     n1 \<leftarrow> position;
     if cx_shutdown_requested ctx1 \<noteq> 0 then return_io (Some (TT_SUCCESS, ctx1))
     else do {
       w \<leftarrow> kern (Epoll_wait efd);
       if ret w < 0 then
         (if errno w = EINTR then epoll_rounds fuel efd n1 ctx1
          else return_io (Some (TT_ERROR_TIMER, ctx1)))
       else do {
         ctx2 \<leftarrow> epoll_event efd (out_fd w) ctx1;
         epoll_rounds fuel efd n1 ctx2
       }
     }
   }"

definition epoll_loop :: "nat \<Rightarrow> nat \<Rightarrow> tt_context \<Rightarrow> (tt_error \<times> tt_context) option io" where
  "epoll_loop fuel n ctx = do {
     efd \<leftarrow> kern Epoll_create1;
     if ret efd < 0 then return_io (Some (TT_ERROR_TIMER, ctx))
     else do {
       added \<leftarrow> epoll_add (ret efd) (cx_tt_list ctx);
       if \<not> added then do {
         _ \<leftarrow> kern (Close (ret efd));
         return_io (Some (TT_ERROR_TIMER, ctx))
       }
       else do {
         a \<leftarrow> kern (Epoll_ctl_add (ret efd) (cx_apex_fd ctx));
         if ret a = -1 then do {
           _ \<leftarrow> kern (Close (ret efd));
           return_io (Some (TT_ERROR_TIMER, ctx))
         }
         else do {
           r \<leftarrow> epoll_rounds fuel (ret efd) n ctx;
           (case r of
              None \<Rightarrow> return_io None
            | Some x \<Rightarrow> do { _ \<leftarrow> kern (Close (ret efd)); return_io (Some x) })
         }
       }
     }
   }"

section \<open>Visible calls\<close>

text \<open>\<open>emits Q m l\<close>: from every state the calls with \<open>Q\<close> that \<open>m\<close> makes are \<open>l\<close>.\<close>

definition emits :: "(call \<Rightarrow> bool) \<Rightarrow> 'a io \<Rightarrow> call list \<Rightarrow> bool" where
  "emits Q m l \<longleftrightarrow> only_g (\<lambda>c. True) m \<and> (\<forall>s. filter Q (calls m s) = l)"

lemma emits_return: "emits Q (return_io x) []"
  by (simp add: emits_def tch.effect_return)

lemma emits_sys: "emits Q (sys c) (if Q c then [c] else [])"
  by (simp add: emits_def only_g_rules)

lemma emits_none: "only_g P m \<Longrightarrow> (\<And>c. P c \<Longrightarrow> \<not> Q c) \<Longrightarrow> emits Q m []"
  using filter_calls_none only_g_mono unfolding emits_def by metis

lemma emits_bind:
  assumes "emits Q m k" and "\<And>x. emits Q (f x) l"
  shows "emits Q (State_Monad.bind m f) (k @ l)"
proof -
  have "only_g (\<lambda>c. True) m" "\<And>x. only_g (\<lambda>c. True) (f x)" using assms by (simp_all add: emits_def)
  note only = this
  from filter_calls_bind [OF only] tch.effect_bind [OF only] assms show ?thesis by (simp add: emits_def)
qed

lemma emits_bind_none:
  assumes "emits Q m []" and "\<And>x. emits Q (f x) l"
  shows "emits Q (State_Monad.bind m f) l"
  using emits_bind [OF assms] by simp

lemma emits_end:
  assumes "emits Q m l" and "\<And>x. emits Q (f x) []"
  shows "emits Q (State_Monad.bind m f) l"
  using emits_bind [OF assms] by simp

lemma emits_only: "emits Q m l \<Longrightarrow> only_g (\<lambda>c. True) m"
  by (simp add: emits_def)

lemma emitsD: "emits Q m l \<Longrightarrow> filter Q (calls m s) = l"
  by (simp add: emits_def)

text \<open>The calls other parties see: requests to the orchestrator and signals to the tasks.\<close>

fun is_visible :: "call \<Rightarrow> bool" where
  "is_visible (Kern (Pidfd_send_signal fd sig f)) = True"
| "is_visible c = is_request c"

lemma visible_bus: "is_bus c \<Longrightarrow> is_visible c = is_request c"
  by (cases c rule: is_visible.cases) simp_all

lemma report_visible:
  "emits is_visible (report_deadline_miss ctx t) [Bus (Bus_call_method ''DMiss'' [cfg_node_id (cx_config ctx), t])]"
proof -
  have "filter is_visible (calls (report_deadline_miss ctx t) s) = filter is_request (calls (report_deadline_miss ctx t) s)" for s
    using only_calls [OF only_report, of ctx t s] by (intro filter_cong refl) (auto simp: list_all_iff visible_bus)
  moreover have "only_g (\<lambda>c. True) (report_deadline_miss ctx t)"
    by (rule only_g_mono [OF only_imp_only_g [OF only_report]]) simp
  ultimately show ?thesis by (simp add: emits_def report_requests)
qed

lemma signal_visible:
  "emits is_visible (send_signal_pidfd fd n) (if fd < 0 then [] else [Kern (Pidfd_send_signal fd n 0)])"
proof -
  have "only_g (\<lambda>c. True) (send_signal_pidfd fd n)"
    by (rule only_g_mono [OF only_imp_only_g [OF only_send_signal]]) simp
  then show ?thesis
    by (simp add: emits_def send_signal_pidfd_def send_signal_pidfd_syscall_def calls_def)
qed

lemma clock_visible: "emits is_visible (kern (Clock_gettime c)) []"
  using emits_sys [of is_visible "Kern (Clock_gettime c)"] by simp

lemma sleep_visible: "emits is_visible (kern (Clock_nanosleep c t)) []"
  using emits_sys [of is_visible "Kern (Clock_nanosleep c t)"] by simp

lemma position_visible: "emits is_visible (get_hyperperiod_relative_time clk hp) []"
  by (rule emits_none [OF only_relative_time [THEN only_imp_only_g]])
    (auto elim: is_clock_read.elims)

lemma release_visible: "emits is_visible (release_wait clk task) []"
  unfolding release_wait_def by (auto intro: emits_bind_none [OF sleep_visible] emits_return)

text \<open>Whether the expiration of the timer finds a miss.\<close>

definition misses :: "timespec \<Rightarrow> time_trigger \<Rightarrow> bool" where
  "misses before tt_node \<longleftrightarrow> tt_sigwait_ts tt_node \<noteq> 0 \<and>
     (tt_sigwait_enter tt_node = 0 \<or> tt_timespec_to_ns before < tt_sigwait_ts tt_node \<or>
      tt_sigwait_ts tt_node = tt_sigwait_ts_prev tt_node)"

lemma deadline_check_misses:
  "tt_sigwait_ts tt_node \<noteq> 0 \<Longrightarrow> (deadline_check (tt_timespec_to_ns before) tt_node \<noteq> None) = misses before tt_node"
  by (simp add: deadline_check_def misses_def)

lemma check_visible:
  "emits is_visible (check_deadline before tt_node ctx)
     (if misses before tt_node
      then [Bus (Bus_call_method ''DMiss'' [cfg_node_id (cx_config ctx), ti_name (tt_task tt_node)])] else [])"
proof (cases "tt_sigwait_ts tt_node = 0")
  case False
  show ?thesis
    using report_visible [of "count_deadline_miss ctx" "ti_name (tt_task tt_node)"]
      deadline_check_misses [OF False, of before] False
    by (auto simp: check_deadline_def Let_def count_deadline_miss_def split: option.split
        intro!: emits_end emits_return)
qed (simp add: check_deadline_def misses_def emits_return)

lemma check_result:
  "result (check_deadline before tt_node ctx) s =
     (tt_node\<lparr>tt_sigwait_ts_prev :=
        (if tt_sigwait_ts tt_node = 0 then tt_sigwait_ts_prev tt_node else tt_sigwait_ts tt_node)\<rparr>,
      if misses before tt_node then count_deadline_miss ctx else ctx)"
  using deadline_check_misses [of tt_node before]
  by (cases "tt_sigwait_ts tt_node = 0")
    (auto simp: check_deadline_def Let_def case_prod_beta misses_def split: option.split)

lemma timer_handler_run:
  fixes s ctx tt_node
  defines "before \<equiv> out_ts (answers s (length (trace s)) (Kern (Clock_gettime (cfg_clockid (cx_config ctx)))))"
  assumes "tt_ctx tt_node"
  shows "result (timer_expired_handler (Some tt_node) ctx) s =
      (Some (tt_node\<lparr>tt_prev_timer := before, tt_sigwait_ts_prev :=
          (if tt_sigwait_ts tt_node = 0 then tt_sigwait_ts_prev tt_node else tt_sigwait_ts tt_node)\<rparr>),
       if misses before tt_node then count_deadline_miss ctx else ctx) \<and>
    filter is_visible (calls (timer_expired_handler (Some tt_node) ctx) s) =
      (if misses before tt_node
       then [Bus (Bus_call_method ''DMiss'' [cfg_node_id (cx_config ctx), ti_name (tt_task tt_node)])] else []) @
      (if ti_pidfd (tt_task tt_node) < 0 then [] else [Kern (Pidfd_send_signal (ti_pidfd (tt_task tt_node)) SIGNO_TT 0)])"
proof -
  let ?clk = "cfg_clockid (cx_config ctx)" and ?task = "tt_task tt_node"
  let ?send = "\<lambda>x. do { _ \<leftarrow> kern (Clock_gettime ?clk); _ \<leftarrow> send_signal_pidfd (ti_pidfd ?task) SIGNO_TT; return_io x }"
  let ?rest = "do {
     _ \<leftarrow> get_hyperperiod_relative_time ?clk (Some (cx_hp_manager ctx));
     release_wait ?clk ?task;
     (tt_node1, ctx1) \<leftarrow> check_deadline before tt_node ctx;
     ?send (Some (tt_node1\<lparr>tt_prev_timer := before\<rparr>), ctx1)
   }"
  have send: "emits is_visible (?send x)
      (if ti_pidfd ?task < 0 then [] else [Kern (Pidfd_send_signal (ti_pidfd ?task) SIGNO_TT 0)])" for x
    by (rule emits_bind_none [OF clock_visible emits_end [OF signal_visible emits_return]])
  have rest: "emits is_visible ?rest ((if misses before tt_node
       then [Bus (Bus_call_method ''DMiss'' [cfg_node_id (cx_config ctx), ti_name ?task])] else []) @
      (if ti_pidfd ?task < 0 then [] else [Kern (Pidfd_send_signal (ti_pidfd ?task) SIGNO_TT 0)]))"
    by (rule emits_bind_none [OF position_visible emits_bind_none [OF release_visible emits_bind [OF check_visible]]])
      (simp only: case_prod_beta send)
  have run: "run_state (timer_expired_handler (Some tt_node) ctx) s =
      run_state ?rest (s\<lparr>trace := trace s @ [Kern (Clock_gettime ?clk)]\<rparr>)"
    using assms(2) by (simp add: timer_expired_handler_def before_def Let_def)
  have "result (timer_expired_handler (Some tt_node) ctx) s =
      (Some (tt_node\<lparr>tt_prev_timer := before, tt_sigwait_ts_prev :=
          (if tt_sigwait_ts tt_node = 0 then tt_sigwait_ts_prev tt_node else tt_sigwait_ts tt_node)\<rparr>),
       if misses before tt_node then count_deadline_miss ctx else ctx)"
    unfolding run by (simp add: case_prod_beta check_result)
  with calls_after_sys [OF run emits_only [OF rest]] emitsD [OF rest] show ?thesis by simp
qed

text \<open>
  C11. The expiration of the timer of a task: the task is signalled exactly once, through its pidfd if it has a
  valid one, after at most one report. A miss is reported, and both counters grow by one, exactly when the kernel
  has reported the task before and it is still running, or entered its wait after the
  expiration, or has not moved since the previous one; otherwise nothing is reported. The time of
  the wait and of the expiration are remembered for the next round.
\<close>

theorem timer_expiration:
  fixes s ctx tt_node
  defines "before \<equiv> out_ts (answers s (length (trace s)) (Kern (Clock_gettime (cfg_clockid (cx_config ctx)))))"
  assumes "tt_ctx tt_node"
  shows "result (timer_expired_handler (Some tt_node) ctx) s =
      (Some (tt_node\<lparr>tt_prev_timer := before, tt_sigwait_ts_prev :=
          (if tt_sigwait_ts tt_node = 0 then tt_sigwait_ts_prev tt_node else tt_sigwait_ts tt_node)\<rparr>),
       if misses before tt_node then count_deadline_miss ctx else ctx) \<and>
    filter is_visible (calls (timer_expired_handler (Some tt_node) ctx) s) =
      (if misses before tt_node
       then [Bus (Bus_call_method ''DMiss'' [cfg_node_id (cx_config ctx), ti_name (tt_task tt_node)])] else []) @
      (if ti_pidfd (tt_task tt_node) < 0 then [] else [Kern (Pidfd_send_signal (ti_pidfd (tt_task tt_node)) SIGNO_TT 0)])"
  unfolding before_def by (rule timer_handler_run [OF assms(2)])

lemma timer_expiration_witness:
  "\<exists>s ctx n. tt_ctx n \<and> filter is_visible (calls (timer_expired_handler (Some n) ctx) s) =
     [Bus (Bus_call_method ''DMiss'' [[], ''cam'']), Kern (Pidfd_send_signal 5 34 0)]"
proof -
  let ?n = "zero_time_trigger\<lparr>tt_ctx := True, tt_sigwait_ts := 9, tt_task := zero_task_info\<lparr>ti_name := ''cam'', ti_pidfd := 5\<rparr>\<rparr>"
  have "tt_ctx ?n" by simp
  moreover have "misses zero_ts ?n" by (simp add: misses_def zero_time_trigger_def)
  ultimately show ?thesis
    using timer_expiration [of ?n zero_context "os_of (\<lambda>c. answer0)"]
    by (intro exI [of _ "os_of (\<lambda>c. answer0)"] exI [of _ zero_context] exI [of _ ?n])
      (simp add: answer0_def SIGNO_TT_def zero_context_def)
qed

section \<open>Timers\<close>

lemma task_its_interval:
  "tt_timespec_to_us (it_interval (task_its start period)) = ucast period \<and>
   normal_ts (it_interval (task_its start period))"
proof -
  have "it_interval (task_its start period) = tt_us_to_timespec (ucast period)"
    by (simp add: task_its_def tt_us_to_timespec_def)
  then show ?thesis by (simp add: to_us_us_to_timespec normal_us_to_timespec)
qed

abbreviation arm_calls :: "clockid \<Rightarrow> timespec \<Rightarrow> nat \<Rightarrow> time_trigger \<Rightarrow> call list" where
  "arm_calls clk start i n \<equiv> [Kern (Timer_create clk (Notify_timer_expired i)),
     Kern (Timer_settime (tt_timer n) True (task_its start (ti_period (tt_task n))))]"

lemma arm_timers_success:
  assumes "result (arm_timers clk start i tts) s = (TT_SUCCESS, tts')"
  shows "map (\<lambda>n. n\<lparr>tt_timer := 0\<rparr>) tts' = map (\<lambda>n. n\<lparr>tt_timer := 0\<rparr>) tts \<and>
    trace (after (arm_timers clk start i tts) s) =
      trace s @ concat (map (\<lambda>(k, n). arm_calls clk start k n) (enumerate i tts'))"
  using assms
proof (induction tts arbitrary: i s tts')
  case (Cons n tts i s tts')
  let ?c = "Kern (Timer_create clk (Notify_timer_expired i))"
  let ?n = "n\<lparr>tt_timer := out_timer (answers s (length (trace s)) ?c)\<rparr>"
  let ?s2 = "s\<lparr>trace := trace s @ [?c, Kern (Timer_settime (tt_timer ?n) True (task_its start (ti_period (tt_task ?n))))]\<rparr>"
  obtain e rest where r: "result (arm_timers clk start (i + 1) tts) ?s2 = (e, rest)" by fastforce
  with Cons.prems have ok: "e = TT_SUCCESS" and t: "tts' = ?n # rest"
    and run: "after (arm_timers clk start i (n # tts)) s = after (arm_timers clk start (i + 1) tts) ?s2"
    by (auto simp: case_prod_beta Let_def split: if_splits)
  from Cons.IH [OF r [unfolded ok]] show ?case unfolding run by (simp add: t)
qed simp

fun armed_at :: "timespec \<Rightarrow> call \<Rightarrow> bool" where
  "armed_at start (Kern (Timer_settime t absolute its)) \<longleftrightarrow> absolute \<and> it_value its = start"
| "armed_at start (Kern (Timer_create clk e)) \<longleftrightarrow> True"
| "armed_at start c \<longleftrightarrow> False"

lemma only_arm_timers: "only (armed_at start) (arm_timers clk start i tts)"
  by (induction tts arbitrary: i) (auto simp: Let_def task_its_def intro!: only_rules)

text \<open>The start time the timers get, and the clock reading it comes from.\<close>

definition first_start :: "tt_context \<Rightarrow> os \<Rightarrow> timespec" where
  "first_start ctx s = (if cfg_enable_sync (cx_config ctx) then cx_starttimer_ts ctx
     else let now = out_ts (answers s (length (trace s)) (Kern (Clock_gettime (cfg_clockid (cx_config ctx)))))
          in Timespec (tv_sec now) (tv_nsec now + 5000000))"

definition clock_calls :: "tt_context \<Rightarrow> call list" where
  "clock_calls ctx = (if cfg_enable_sync (cx_config ctx) then [] else [Kern (Clock_gettime (cfg_clockid (cx_config ctx)))])"

lemma start_timers_run:
  "run_state (start_timers ctx) s =
    (let r = run_state (arm_timers (cfg_clockid (cx_config ctx)) (first_start ctx s) 0 (cx_tt_list ctx))
               (s\<lparr>trace := trace s @ clock_calls ctx\<rparr>)
     in ((fst (fst r), ctx\<lparr>cx_starttimer_ts := first_start ctx s, cx_tt_list := snd (fst r)\<rparr>), snd r))"
  by (cases "cfg_enable_sync (cx_config ctx)")
    (simp_all add: start_timers_def case_prod_beta TT_TIMER_INCREMENT_NS_def first_start_def clock_calls_def Let_def)

text \<open>
  A successful start of the timers: for every task, in the order of the list, one timer is created
  and armed at the absolute start time with an interval of exactly the period of the task; the list
  keeps everything but the timer ids. Without synchronisation the start is five milliseconds
  after the clock reading.
\<close>

theorem start_timers_arm:
  assumes "result (start_timers ctx) s = (TT_SUCCESS, ctx')"
  shows "calls (start_timers ctx) s =
      (if cfg_enable_sync (cx_config ctx) then [] else [Kern (Clock_gettime (cfg_clockid (cx_config ctx)))]) @
      concat (map (\<lambda>(k, n). [Kern (Timer_create (cfg_clockid (cx_config ctx)) (Notify_timer_expired k)),
          Kern (Timer_settime (tt_timer n) True (task_its (cx_starttimer_ts ctx') (ti_period (tt_task n))))])
        (enumerate 0 (cx_tt_list ctx'))) \<and>
    map (\<lambda>n. n\<lparr>tt_timer := 0\<rparr>) (cx_tt_list ctx') = map (\<lambda>n. n\<lparr>tt_timer := 0\<rparr>) (cx_tt_list ctx) \<and>
    cx_starttimer_ts ctx' = (if cfg_enable_sync (cx_config ctx) then cx_starttimer_ts ctx
      else let now = out_ts (answers s (length (trace s)) (Kern (Clock_gettime (cfg_clockid (cx_config ctx)))))
           in Timespec (tv_sec now) (tv_nsec now + 5000000)) \<and>
    (\<forall>n\<in>set (cx_tt_list ctx'). let its = task_its (cx_starttimer_ts ctx') (ti_period (tt_task n))
       in it_value its = cx_starttimer_ts ctx' \<and> tt_timespec_to_us (it_interval its) = ucast (ti_period (tt_task n)) \<and>
          normal_ts (it_interval its))"
proof -
  let ?clk = "cfg_clockid (cx_config ctx)" and ?start = "first_start ctx s"
  let ?arm = "arm_timers ?clk ?start 0 (cx_tt_list ctx)" and ?s1 = "s\<lparr>trace := trace s @ clock_calls ctx\<rparr>"
  obtain e tts where r: "result ?arm ?s1 = (e, tts)" by fastforce
  have run: "run_state (start_timers ctx) s = ((e, ctx\<lparr>cx_starttimer_ts := ?start, cx_tt_list := tts\<rparr>), after ?arm ?s1)"
    using r by (simp add: start_timers_run Let_def)
  with assms have e: "e = TT_SUCCESS" and ctx': "ctx' = ctx\<lparr>cx_starttimer_ts := ?start, cx_tt_list := tts\<rparr>"
    by simp_all
  note arm = arm_timers_success [OF r [unfolded e]]
  have "calls (start_timers ctx) s = clock_calls ctx @ concat (map (\<lambda>(k, n). arm_calls ?clk ?start k n) (enumerate 0 tts))"
    using arm run by (simp add: calls_def)
  with arm show ?thesis
    by (simp add: ctx' Let_def task_its_interval) (simp add: task_its_def first_start_def clock_calls_def Let_def)
qed

lemma start_timers_arm_witness:
  "\<exists>s ctx ctx'. result (start_timers ctx) s = (TT_SUCCESS, ctx') \<and>
     calls (start_timers ctx) s = [Kern (Clock_gettime CLOCK_REALTIME),
       Kern (Timer_create CLOCK_REALTIME (Notify_timer_expired 0)),
       Kern (Timer_settime 3 True (task_its (Timespec 0 5000000) 20000))]"
proof -
  let ?n = "zero_time_trigger\<lparr>tt_task := zero_task_info\<lparr>ti_period := 20000\<rparr>\<rparr>"
  let ?ctx = "zero_context\<lparr>cx_tt_list := [?n]\<rparr>"
  let ?s = "os_of (\<lambda>c. answer0\<lparr>out_timer := 3\<rparr>)"
  have "result (start_timers ?ctx) ?s =
      (TT_SUCCESS, ?ctx\<lparr>cx_starttimer_ts := Timespec 0 5000000, cx_tt_list := [?n\<lparr>tt_timer := 3\<rparr>]\<rparr>)"
    by (simp add: start_timers_def zero_context_def answer0_def zero_ts_def TT_TIMER_INCREMENT_NS_def Let_def)
  from start_timers_arm [OF this] this show ?thesis
    by (intro exI [of _ ?s] exI [of _ ?ctx] exI) (auto simp: zero_context_def)
qed

text \<open>
  Without synchronisation the addition of five milliseconds to the clock reading does not carry: when
  the reading lies in the last five milliseconds of a second, the start time has a nanosecond
  part of a full second or more, and every timer is armed with that value, which is no valid time
  of the timer interface.
\<close>

theorem start_time_not_normal:
  fixes s ctx
  defines "now \<equiv> out_ts (answers s (length (trace s)) (Kern (Clock_gettime (cfg_clockid (cx_config ctx)))))"
  assumes "\<not> cfg_enable_sync (cx_config ctx)" and "normal_ts now" and "995000000 \<le> unat (tv_nsec now)"
  shows "\<not> normal_ts (cx_starttimer_ts (snd (result (start_timers ctx) s))) \<and>
    (\<forall>t ab its. Kern (Timer_settime t ab its) \<in> set (calls (start_timers ctx) s) \<longrightarrow> \<not> normal_ts (it_value its))"
proof -
  let ?start = "first_start ctx s"
  let ?arm = "arm_timers (cfg_clockid (cx_config ctx)) ?start 0 (cx_tt_list ctx)" and ?s1 = "s\<lparr>trace := trace s @ clock_calls ctx\<rparr>"
  have "unat (tv_nsec now + 5000000) = unat (tv_nsec now) + 5000000"
    using assms(3) by (simp add: normal_ts_unat unat_word_ariths)
  then have bad: "\<not> normal_ts ?start"
    using assms(2,4) by (simp add: first_start_def Let_def now_def [symmetric] normal_ts_unat)
  have "calls (start_timers ctx) s = clock_calls ctx @ calls ?arm ?s1"
    unfolding calls_def [of "start_timers ctx"] start_timers_run Let_def only_after [OF only_arm_timers] by simp
  moreover have "list_all (armed_at ?start) (calls ?arm ?s1)" by (rule only_calls [OF only_arm_timers])
  ultimately have "\<forall>t ab its. Kern (Timer_settime t ab its) \<in> set (calls (start_timers ctx) s) \<longrightarrow> it_value its = ?start"
    by (auto simp: list_all_iff clock_calls_def split: if_splits)
  with bad show ?thesis by (auto simp: start_timers_run Let_def)
qed

lemma start_time_not_normal_witness:
  "\<exists>s ctx. \<not> normal_ts (cx_starttimer_ts (snd (result (start_timers ctx) s)))"
proof -
  let ?s = "os_of (\<lambda>c. answer0\<lparr>out_ts := Timespec 7 999000000\<rparr>)"
  show ?thesis
    using start_time_not_normal [of zero_context ?s]
    by (intro exI [of _ ?s] exI [of _ zero_context]) (simp add: zero_context_def normal_ts_unat)
qed

section \<open>The event loop\<close>

lemma fold_signal_handler:
  "fold (signal_handler g) sgs ctx = (if sgs \<noteq> [] \<and> g_ctx g then ctx\<lparr>cx_shutdown_requested := 1\<rparr> else ctx)"
  by (induction sgs arbitrary: ctx) (auto simp: signal_handler_def)

lemma run_handle_signals:
  "run_state (handle_signals n ctx) s =
    (if stop_signal n s \<and> g_ctx (globals s) then ctx\<lparr>cx_shutdown_requested := 1\<rparr> else ctx, s)"
  by (auto simp: handle_signals_def fold_signal_handler stop_signal_def filter_empty_conv)

fun is_loop_call :: "call \<Rightarrow> bool" where
  "is_loop_call (Kern (Epoll_ctl_del efd fd)) = True"
| "is_loop_call c = is_apex_call c"

lemma only_epoll_event: "only_g is_loop_call (epoll_event efd fd ctx)"
proof -
  have "is_apex_call c \<Longrightarrow> is_loop_call c" for c by (cases c rule: is_loop_call.cases) simp_all
  from only_g_mono [OF only_apex_events this] show ?thesis
    unfolding epoll_event_def by (intro only_g_rules) simp_all
qed

text \<open>The pointer to the context that the signal handler uses stays set.\<close>

definition keeps_ctx :: "os \<Rightarrow> os \<Rightarrow> bool" where
  "keeps_ctx s s' \<longleftrightarrow> answers s' = answers s \<and> (\<exists>cs. trace s' = trace s @ cs) \<and> g_ctx (globals s') = g_ctx (globals s)"

interpretation kc: io_effect keeps_ctx
  by unfold_locales (auto simp: keeps_ctx_def)

lemma kc_sys: "state_io_rel keeps_ctx (sys c)"
  by (auto simp: state_io_rel_def keeps_ctx_def)

lemma kc_get_globals: "state_io_rel keeps_ctx get_globals"
  by (simp add: state_io_rel_def kc.effect_refl)

lemma kc_only: "only P m \<Longrightarrow> state_io_rel keeps_ctx m"
  unfolding state_io_rel_def [of keeps_ctx] keeps_ctx_def by (simp add: only_after)

lemmas kc_rules = kc.effect_return kc.effect_bind kc.effect_if kc.effect_option kc.effect_prod kc_sys kc_get_globals

lemma kc_send: "state_io_rel keeps_ctx (coredata_client_send app)"
  by (auto simp: state_io_rel_def keeps_ctx_def coredata_client_send_def coredata_client_init_def)

lemmas kc_apex = kc_rules kc_send kc_only [OF only_all_threads] kc_only [OF only_report]
  kc_only [OF only_get_pid_by_name] kc_only [OF only_get_pid_by_nspid]

lemma kc_on_first: "(\<And>i a. state_io_rel keeps_ctx (f i a)) \<Longrightarrow> state_io_rel keeps_ctx (on_first P f i as)"
  by (induction as arbitrary: i) (auto intro!: kc_rules)

lemma kc_fault: "state_io_rel keeps_ctx (apex_fault ctx name a)"
  unfolding apex_fault_def apex_fault_counted_def apex_escalate_def Let_def by (intro kc_apex)

lemma kc_up: "state_io_rel keeps_ctx (apex_up name pid nspid i a)"
  unfolding apex_up_def coredata_create_timer_def Let_def by (intro kc_apex)

lemma kc_down: "state_io_rel keeps_ctx (apex_down a)"
  unfolding apex_down_def coredata_delete_timer_def by (intro kc_apex)

lemma kc_reset: "state_io_rel keeps_ctx (reset_apexes as)"
  by (induction as) (auto simp: Let_def intro!: kc_apex)

lemma kc_epoll_event: "state_io_rel keeps_ctx (epoll_event efd fd ctx)"
  unfolding epoll_event_def handle_apex_events_def handle_apex_fault_event_def handle_apex_up_event_def
    handle_apex_down_event_def handle_apex_reset_event_def apex_monitor_recv_def Let_def
  by (intro kc_apex kc_on_first kc_fault kc_up kc_down kc_reset)
    (simp split: timpani_msg.split add: kc_rules)

lemma epoll_event_shutdown [simp]:
  "cx_shutdown_requested (result (epoll_event efd fd ctx) s) = cx_shutdown_requested ctx"
  using events_evolve [of ctx s]
  by (auto simp: epoll_event_def case_prod_beta context_evolves_def split: option.split)

text \<open>
  The loop ends with success only when a stop was requested, and it ends: from position \<open>p\<close> on every
  wait is interrupted by a signal, each round makes at least one call, so \<open>p\<close> rounds reach that
  position.
\<close>

lemma epoll_rounds_sound:
  "result (epoll_rounds fuel efd n ctx) s = Some (TT_SUCCESS, ctx') \<Longrightarrow> cx_shutdown_requested ctx' \<noteq> 0"
proof (induction fuel arbitrary: n ctx s)
  case (Suc fuel)
  then show ?case by (auto simp: run_handle_signals case_prod_beta split: if_splits)
qed simp

definition interrupts :: "int \<Rightarrow> nat \<Rightarrow> os \<Rightarrow> bool" where
  "interrupts efd p s \<longleftrightarrow>
     (\<forall>m. let w = answers s m (Kern (Epoll_wait efd)) in
        (ret w < 0 \<longrightarrow> errno w = EINTR) \<and> (p \<le> m \<longrightarrow> SIGINT \<in> set (signals w) \<or> SIGTERM \<in> set (signals w)))"

lemma interruptsD:
  assumes "interrupts efd p s"
  shows "ret (answers s m (Kern (Epoll_wait efd))) < 0 \<Longrightarrow> errno (answers s m (Kern (Epoll_wait efd))) = EINTR"
    and "p \<le> m \<Longrightarrow> SIGINT \<in> set (signals (answers s m (Kern (Epoll_wait efd)))) \<or>
      SIGTERM \<in> set (signals (answers s m (Kern (Epoll_wait efd))))"
  using assms by (auto simp: interrupts_def Let_def)

lemma interrupts_answers: "answers s' = answers s \<Longrightarrow> interrupts efd p s' = interrupts efd p s"
  by (simp add: interrupts_def)

lemma rounds_stop:
  "stop_signal n s \<Longrightarrow> g_ctx (globals s) \<Longrightarrow>
    result (epoll_rounds (Suc fuel) efd n ctx) s = Some (TT_SUCCESS, ctx\<lparr>cx_shutdown_requested := 1\<rparr>)"
  by (simp add: run_handle_signals)

lemma wait_signal:
  assumes "interrupts efd p s" and "p \<le> length (trace s)"
    and "answers s' = answers s" and "trace s' = trace s @ Kern (Epoll_wait efd) # cs"
  shows "stop_signal (length (trace s)) s'"
proof -
  let ?w = "answers s (length (trace s)) (Kern (Epoll_wait efd))"
  have "set (signals ?w) \<subseteq> set (delivered (length (trace s)) s')"
    unfolding delivered_def assms(3,4) by (force simp: nth_append)
  with interruptsD(2) [OF assms(1,2)] show ?thesis by (auto simp: stop_signal_def)
qed

text \<open>One round that does not stop: the position grows and the loop goes on in a state with the same answers.\<close>

lemma epoll_round_step:
  assumes "interrupts efd p s" and "g_ctx (globals s)"
  shows "(\<exists>ctx'. result (epoll_rounds (Suc fuel) efd n ctx) s = Some (TT_SUCCESS, ctx')) \<or>
    (\<exists>ctx2 s2 cs. result (epoll_rounds (Suc fuel) efd n ctx) s = result (epoll_rounds fuel efd (length (trace s)) ctx2) s2 \<and>
       answers s2 = answers s \<and> trace s2 = trace s @ Kern (Epoll_wait efd) # cs \<and> g_ctx (globals s2))"
proof -
  define ctx1 where "ctx1 = (if stop_signal n s then ctx\<lparr>cx_shutdown_requested := 1\<rparr> else ctx)"
  let ?c = "Kern (Epoll_wait efd)" and ?w = "answers s (length (trace s)) (Kern (Epoll_wait efd))"
  let ?s1 = "s\<lparr>trace := trace s @ [?c]\<rparr>"
  let ?ev = "epoll_event efd (out_fd ?w) ctx1"
  have run: "result (epoll_rounds (Suc fuel) efd n ctx) s =
      (if cx_shutdown_requested ctx1 \<noteq> 0 then Some (TT_SUCCESS, ctx1)
       else if ret ?w < 0 then result (epoll_rounds fuel efd (length (trace s)) ctx1) ?s1
       else result (epoll_rounds fuel efd (length (trace s)) (result ?ev ?s1)) (after ?ev ?s1))"
    using assms(2) interruptsD(1) [OF assms(1)]
    by (simp add: run_handle_signals ctx1_def [symmetric] case_prod_beta)
  have kc: "keeps_ctx ?s1 (after ?ev ?s1)" using kc_epoll_event by (simp add: state_io_rel_def)
  show ?thesis
  proof (cases "cx_shutdown_requested ctx1 \<noteq> 0")
    case True
    then show ?thesis unfolding run by simp
  next
    case False
    show ?thesis
    proof (cases "ret ?w < 0")
      case True
      with False assms(2) show ?thesis
        unfolding run by (intro disjI2 exI [of _ ctx1] exI [of _ ?s1] exI [of _ "[]"]) simp
    next
      case ev: False
      from kc obtain cs where "trace (after ?ev ?s1) = trace s @ ?c # cs" "answers (after ?ev ?s1) = answers s"
        "g_ctx (globals (after ?ev ?s1))"
        using assms(2) by (auto simp: keeps_ctx_def)
      with False ev show ?thesis
        unfolding run by (intro disjI2 exI [of _ "result ?ev ?s1"] exI [of _ "after ?ev ?s1"] exI [of _ cs]) simp
    qed
  qed
qed

lemma epoll_rounds_end:
  assumes "interrupts efd p s" and "g_ctx (globals s)" and "Suc (Suc (p - length (trace s))) \<le> fuel"
  shows "\<exists>ctx'. result (epoll_rounds fuel efd n ctx) s = Some (TT_SUCCESS, ctx')"
  using assms
proof (induction fuel arbitrary: n ctx s)
  case (Suc fuel)
  from epoll_round_step [OF Suc.prems(1,2), of fuel n ctx] show ?case
  proof
    assume "\<exists>ctx2 s2 cs. result (epoll_rounds (Suc fuel) efd n ctx) s = result (epoll_rounds fuel efd (length (trace s)) ctx2) s2 \<and>
       answers s2 = answers s \<and> trace s2 = trace s @ Kern (Epoll_wait efd) # cs \<and> g_ctx (globals s2)"
    then obtain ctx2 s2 cs where r: "result (epoll_rounds (Suc fuel) efd n ctx) s = result (epoll_rounds fuel efd (length (trace s)) ctx2) s2"
      and s2: "answers s2 = answers s" "trace s2 = trace s @ Kern (Epoll_wait efd) # cs" "g_ctx (globals s2)" by blast
    show ?thesis
    proof (cases "p \<le> length (trace s)")
      case True
      from Suc.prems(3) obtain f where f: "fuel = Suc f" by (cases fuel) auto
      have "result (epoll_rounds fuel efd (length (trace s)) ctx2) s2 = Some (TT_SUCCESS, ctx2\<lparr>cx_shutdown_requested := 1\<rparr>)"
        unfolding f by (rule rounds_stop [OF wait_signal [OF Suc.prems(1) True s2(1,2)] s2(3)])
      then show ?thesis unfolding r by blast
    next
      case False
      then have "Suc (Suc (p - length (trace s2))) \<le> fuel" using Suc.prems(3) by (simp add: s2(2))
      from Suc.IH [OF _ s2(3) this] Suc.prems(1) show ?thesis
        unfolding r by (simp add: interrupts_answers [OF s2(1)])
    qed
  qed
qed simp

lemma only_epoll_add: "only (\<lambda>c. \<exists>fd. c = Kern (Epoll_ctl_add efd fd)) (epoll_add efd tts)"
  by (induction tts) (auto intro!: only_rules)

lemma epoll_add_ok:
  assumes "\<forall>m fd. 0 \<le> ret (answers s m (Kern (Epoll_ctl_add efd fd)))"
  shows "result (epoll_add efd tts) s"
  using assms by (induction tts arbitrary: s) (auto simp: not_less)

text \<open>
  C18. The main loop ends when it is told to: if the descriptors can be registered, waits fail only by
  interruption, and from some point on every wait is interrupted by SIGINT or SIGTERM, then the
  loop returns success after a bounded number of rounds, with the stop requested, and the
  last call closes the descriptor of the loop.
\<close>

theorem epoll_loop_stops:
  fixes s
  defines "efd \<equiv> ret (answers s (length (trace s)) (Kern Epoll_create1))"
  assumes "0 \<le> efd" and "\<forall>m fd. 0 \<le> ret (answers s m (Kern (Epoll_ctl_add efd fd)))"
    and "interrupts efd p s" and "g_ctx (globals s)"
  shows "\<exists>ctx' t. run_state (epoll_loop (p + 2) n ctx) s = (Some (TT_SUCCESS, ctx'), t) \<and>
      cx_shutdown_requested ctx' \<noteq> 0 \<and> last (trace t) = Kern (Close efd)"
proof -
  let ?s1 = "s\<lparr>trace := trace s @ [Kern Epoll_create1]\<rparr>"
  define t2 where "t2 = trace ?s1 @ calls (epoll_add efd (cx_tt_list ctx)) ?s1 @ [Kern (Epoll_ctl_add efd (cx_apex_fd ctx))]"
  let ?s2 = "s\<lparr>trace := t2\<rparr>"
  have add: "result (epoll_add efd (cx_tt_list ctx)) ?s1"
    using assms(3) by (intro epoll_add_ok) simp
  have after_add: "after (epoll_add efd (cx_tt_list ctx)) ?s1 =
      s\<lparr>trace := trace ?s1 @ calls (epoll_add efd (cx_tt_list ctx)) ?s1\<rparr>"
    unfolding only_after [OF only_epoll_add] by simp
  have a: "ret (answers s m (Kern (Epoll_ctl_add efd (cx_apex_fd ctx)))) \<noteq> -1" for m
    using spec [OF spec [OF assms(3)], of m "cx_apex_fd ctx"] by linarith
  have "\<exists>ctx'. result (epoll_rounds (p + 2) efd n ctx) ?s2 = Some (TT_SUCCESS, ctx')"
    using assms(4,5) interrupts_answers [of ?s2 s] by (intro epoll_rounds_end [where p = p]) simp_all
  then obtain ctx' where r: "result (epoll_rounds (p + 2) efd n ctx) ?s2 = Some (TT_SUCCESS, ctx')" ..
  have "run_state (epoll_loop (p + 2) n ctx) s = run_state (do {
       r \<leftarrow> epoll_rounds (p + 2) efd n ctx;
       (case r of None \<Rightarrow> return_io None | Some x \<Rightarrow> do { _ \<leftarrow> kern (Close efd); return_io (Some x) }) }) ?s2"
    using assms(2) add a
    by (simp add: epoll_loop_def efd_def [symmetric] case_prod_beta after_add t2_def del: epoll_rounds.simps)
  with r have "run_state (epoll_loop (p + 2) n ctx) s =
      (Some (TT_SUCCESS, ctx'), (after (epoll_rounds (p + 2) efd n ctx) ?s2)
         \<lparr>trace := trace (after (epoll_rounds (p + 2) efd n ctx) ?s2) @ [Kern (Close efd)]\<rparr>)"
    by (simp add: case_prod_beta del: epoll_rounds.simps)
  then show ?thesis using epoll_rounds_sound [OF r] by simp
qed

lemma epoll_loop_stops_witness:
  "\<exists>s ctx ctx' t. run_state (epoll_loop (0 + 2) 0 ctx) s = (Some (TT_SUCCESS, ctx'), t) \<and>
     cx_shutdown_requested ctx' \<noteq> 0 \<and> last (trace t) = Kern (Close 0)"
proof -
  let ?s = "(os_of (\<lambda>c. answer0\<lparr>signals := [15]\<rparr>))\<lparr>globals := globals0\<lparr>g_ctx := True\<rparr>\<rparr>"
  have efd: "ret (answers ?s (length (trace ?s)) (Kern Epoll_create1)) = 0"
    by (simp add: answer0_def)
  have "interrupts 0 0 ?s" by (simp add: interrupts_def answer0_def SIGTERM_def)
  moreover have "\<forall>m fd. 0 \<le> ret (answers ?s m (Kern (Epoll_ctl_add 0 fd)))" and "g_ctx (globals ?s)"
    by (simp_all add: answer0_def)
  ultimately show ?thesis
    using epoll_loop_stops [of ?s 0 0 zero_context] unfolding efd by blast
qed

section \<open>Calibration\<close>

text \<open>The samples: round \<open>i\<close> makes three readings from position \<open>n + 3 * i\<close> on.\<close>

definition sample_delta :: "os \<Rightarrow> nat \<Rightarrow> u64" where
  "sample_delta s n = tt_timespec_to_ns (out_ts (answers s (n + 2) (Kern (Clock_gettime CLOCK_REALTIME))))
     - tt_timespec_to_ns (out_ts (answers s n (Kern (Clock_gettime CLOCK_REALTIME))))"

definition sample_off :: "os \<Rightarrow> nat \<Rightarrow> u64" where
  "sample_off s n = (tt_timespec_to_ns (out_ts (answers s (n + 2) (Kern (Clock_gettime CLOCK_REALTIME))))
     + tt_timespec_to_ns (out_ts (answers s n (Kern (Clock_gettime CLOCK_REALTIME))))) div 2
     - tt_timespec_to_ns (out_ts (answers s (n + 1) (Kern (Clock_gettime CLOCK_MONOTONIC))))"

lemma calibrate_round:
  assumes ok: "\<forall>m c. 0 \<le> ret (answers s m (Kern (Clock_gettime c)))"
  obtains s' where "run_state (calibrate_loop (Suc k) best) s =
      run_state (calibrate_loop k (if sample_delta s (length (trace s)) < best then sample_delta s (length (trace s)) else best)) s'"
    and "answers s' = answers s" and "length (trace s') = length (trace s) + 3"
    and "g_bpf_ktime_off (globals s') = (if sample_delta s (length (trace s)) < best
           then sample_off s (length (trace s)) else g_bpf_ktime_off (globals s))"
proof -
  let ?s3 = "s\<lparr>trace := trace s @ [Kern (Clock_gettime CLOCK_REALTIME), Kern (Clock_gettime CLOCK_MONOTONIC),
    Kern (Clock_gettime CLOCK_REALTIME)]\<rparr>"
  have ok': "\<not> ret (answers s m (Kern (Clock_gettime c))) < 0" for m c using ok by (simp add: not_less)
  let ?d = "sample_delta s (length (trace s))" and ?o = "sample_off s (length (trace s))"
  let ?s' = "if ?d < best then ?s3\<lparr>globals := (globals s)\<lparr>g_bpf_ktime_off := ?o\<rparr>\<rparr> else ?s3"
  have "run_state (calibrate_loop (Suc k) best) s = run_state (calibrate_loop k (if ?d < best then ?d else best)) ?s'"
    using ok' by (simp add: sample_delta_def sample_off_def Let_def)
  then show ?thesis by (rule that) auto
qed

text \<open>The loop keeps the first of the closest samples, if one is closer than what it starts from.\<close>

definition best_sample :: "os \<Rightarrow> nat \<Rightarrow> nat \<Rightarrow> nat \<Rightarrow> bool" where
  "best_sample s n k i \<longleftrightarrow> i < k \<and> (\<forall>j<k. sample_delta s (n + 3 * i) \<le> sample_delta s (n + 3 * j)) \<and>
     (\<forall>j<i. sample_delta s (n + 3 * i) < sample_delta s (n + 3 * j))"

lemma best_sample_0:
  "best_sample s n (Suc k) 0 \<longleftrightarrow> (\<forall>j<k. sample_delta s n \<le> sample_delta s (n + 3 + 3 * j))"
  by (simp add: best_sample_def All_less_Suc2 add.assoc)

lemma best_sample_Suc:
  "best_sample s n (Suc k) (Suc i) \<longleftrightarrow> best_sample s (n + 3) k i \<and> sample_delta s (n + 3 + 3 * i) < sample_delta s n"
  by (auto simp: best_sample_def All_less_Suc2 add.assoc)

text \<open>What \<open>k\<close> rounds make of the best distance \<open>best\<close> and the offset \<open>off\<close> so far.\<close>

definition calibrated :: "os \<Rightarrow> nat \<Rightarrow> nat \<Rightarrow> u64 \<Rightarrow> u64 \<Rightarrow> u64 \<Rightarrow> bool" where
  "calibrated s n k best off off' \<longleftrightarrow>
     (off' = off \<and> (\<forall>j<k. best \<le> sample_delta s (n + 3 * j))) \<or>
     (\<exists>i. best_sample s n k i \<and> sample_delta s (n + 3 * i) < best \<and> off' = sample_off s (n + 3 * i))"

lemma calibrated_answers: "answers s' = answers s \<Longrightarrow> calibrated s' = calibrated s"
  by (simp add: fun_eq_iff calibrated_def sample_delta_def sample_off_def best_sample_def)

lemma calibrated_Suc:
  fixes s n best off
  defines "d \<equiv> sample_delta s n"
  assumes "calibrated s (n + 3) k (if d < best then d else best) (if d < best then sample_off s n else off) off'"
  shows "calibrated s n (Suc k) best off off'"
proof -
  have first: "best_sample s n (Suc k) 0" if "d < best" "\<forall>j<k. d \<le> sample_delta s (n + 3 + 3 * j)"
    using that by (simp add: best_sample_0 d_def)
  have later: "best_sample s n (Suc k) (Suc i)" if "best_sample s (n + 3) k i"
      "sample_delta s (n + 3 + 3 * i) < (if d < best then d else best)" for i
    using that by (auto simp: best_sample_Suc d_def split: if_splits)
  from assms(2) show ?thesis
    unfolding calibrated_def
  proof (elim disjE exE conjE)
    fix i assume "best_sample s (n + 3) k i" and lt: "sample_delta s (n + 3 + 3 * i) < (if d < best then d else best)"
      and "off' = sample_off s (n + 3 + 3 * i)"
    with later [of i] show "(off' = off \<and> (\<forall>j<Suc k. best \<le> sample_delta s (n + 3 * j))) \<or>
        (\<exists>i. best_sample s n (Suc k) i \<and> sample_delta s (n + 3 * i) < best \<and> off' = sample_off s (n + 3 * i))"
      by (intro disjI2 exI [of _ "Suc i"]) (auto simp: add.assoc split: if_splits)
  qed (use first in \<open>auto simp: All_less_Suc2 add.assoc not_less d_def split: if_splits intro: exI [of _ 0]\<close>)
qed

lemma calibrate_loop_best:
  assumes "\<forall>m c. 0 \<le> ret (answers s m (Kern (Clock_gettime c)))"
  shows "result (calibrate_loop k best) s = TT_SUCCESS \<and>
    calibrated s (length (trace s)) k best (g_bpf_ktime_off (globals s)) (g_bpf_ktime_off (globals (after (calibrate_loop k best) s)))"
  using assms
proof (induction k arbitrary: best s)
  case 0
  then show ?case by (simp add: calibrated_def)
next
  case (Suc k)
  let ?n = "length (trace s)" and ?best = "if sample_delta s (length (trace s)) < best then sample_delta s (length (trace s)) else best"
  obtain s' where run: "run_state (calibrate_loop (Suc k) best) s = run_state (calibrate_loop k ?best) s'"
    and s': "answers s' = answers s" "length (trace s') = ?n + 3"
    and off: "g_bpf_ktime_off (globals s') = (if sample_delta s ?n < best then sample_off s ?n else g_bpf_ktime_off (globals s))"
    by (rule calibrate_round [OF Suc.prems])
  have "\<forall>m c. 0 \<le> ret (answers s' m (Kern (Clock_gettime c)))" using Suc.prems s'(1) by simp
  from Suc.IH [OF this, of ?best] show ?case
    unfolding run s'(2) off calibrated_answers [OF s'(1)] using calibrated_Suc by blast
qed

text \<open>
  Clock calibration keeps the best sample: when the clocks can be read, it succeeds, and if some round
  measures a distance below the initial bound, then the offset it stores is that of a round
  whose two readings of the wall clock are closest together (the first such round), namely the
  middle of these readings less the kernel clock read between them.
\<close>

theorem calibration_best:
  assumes "\<forall>m c. 0 \<le> ret (answers s m (Kern (Clock_gettime c)))"
    and "j < 20" and "sample_delta s (length (trace s) + 3 * j) < UINT64_MAX"
  shows "result calibrate_bpf_time_offset s = TT_SUCCESS \<and>
    (\<exists>i. best_sample s (length (trace s)) 20 i \<and>
       g_bpf_ktime_off (globals (after calibrate_bpf_time_offset s)) = sample_off s (length (trace s) + 3 * i))"
  using calibrate_loop_best [OF assms(1), of 20 UINT64_MAX] assms(2,3)
  unfolding calibrate_bpf_time_offset_def calibrate_bpf_ktime_offset_internal_def
  by (auto simp: calibrated_def simp del: calibrate_loop.simps)

lemma calibration_best_witness:
  "\<exists>s. result calibrate_bpf_time_offset s = TT_SUCCESS \<and>
    (\<exists>i. best_sample s 0 20 i \<and> g_bpf_ktime_off (globals (after calibrate_bpf_time_offset s)) = sample_off s (0 + 3 * i))"
proof -
  let ?s = "os_of (\<lambda>c. answer0)"
  have "\<forall>m c. 0 \<le> ret (answers ?s m (Kern (Clock_gettime c)))" by (simp add: answer0_def)
  moreover have "sample_delta ?s (length (trace ?s) + 3 * 0) < UINT64_MAX" by (simp add: sample_delta_def UINT64_MAX_def word_gt_0)
  ultimately show ?thesis using calibration_best [of ?s 0] by (intro exI [of _ ?s]) simp
qed

end
