(* ===== verification/Config.thy ===== *)
theory Config
  imports Os Getopt
begin

text \<open>
  The configuration of the node (\<^verbatim>\<open>timpani-n/src/config.c\<close>): defaults, command line options and their
  validation.
\<close>

section \<open>Defaults, options, validation\<close>

definition config_set_defaults :: "tt_context option \<Rightarrow> tt_context option" where
  "config_set_defaults ctx =
     map_option (\<lambda>ctx. ctx\<lparr>cx_shutdown_requested := 0, cx_tt_list := [], cx_apex_list := [],
       cx_config := \<lparr>cfg_cpu = -1, cfg_prio = -1, cfg_port = 7777, cfg_addr = ''127.0.0.1'',
         cfg_node_id = strncpy_field TINFO_NODEID_MAX ''1'', cfg_enable_sync = False,
         cfg_enable_plot = False, cfg_enable_apex = False, cfg_clockid = CLOCK_REALTIME,
         cfg_log_level = 3\<rparr>\<rparr>) ctx"

text \<open>
  One turn of the option loop; \<open>None\<close> is the return with the usage text. The log level is an
  enumeration without negative members, which the compiler keeps as an unsigned 32-bit number.
\<close>

definition apply_option :: "char \<Rightarrow> string \<Rightarrow> config \<Rightarrow> config option" where
  "apply_option opt optarg c =
     (if opt = CHR ''c'' then Some (c\<lparr>cfg_cpu := atoi optarg\<rparr>)
      else if opt = CHR ''P'' then Some (c\<lparr>cfg_prio := atoi optarg\<rparr>)
      else if opt = CHR ''p'' then Some (c\<lparr>cfg_port := atoi optarg\<rparr>)
      else if opt = CHR ''n'' then Some (c\<lparr>cfg_node_id := strncpy_field TINFO_NODEID_MAX optarg\<rparr>)
      else if opt = CHR ''l'' then Some (c\<lparr>cfg_log_level := atoi optarg mod 2 ^ 32\<rparr>)
      else if opt = CHR ''s'' then Some (c\<lparr>cfg_enable_sync := True\<rparr>)
      else if opt = CHR ''g'' then Some (c\<lparr>cfg_enable_plot := True\<rparr>)
      else if opt = CHR ''a'' then Some (c\<lparr>cfg_enable_apex := True\<rparr>)
      else None)"

text \<open>The option loop: the configuration it leaves, and whether it came to its end.\<close>

primrec apply_options :: "(char \<times> string option) list \<Rightarrow> config \<Rightarrow> config \<times> bool" where
  "apply_options [] c = (c, True)"
| "apply_options (o1 # os) c =
     (case apply_option (fst o1) (case snd o1 of None \<Rightarrow> [] | Some a \<Rightarrow> a) c of
        None \<Rightarrow> (c, False)
      | Some c' \<Rightarrow> apply_options os c')"

definition tt_set_log_level :: "int \<Rightarrow> unit io" where
  "tt_set_log_level level = do {
     g \<leftarrow> get_globals;
     set_globals (g\<lparr>g_log_level := level\<rparr>)
   }"

definition validate_config :: "tt_context \<Rightarrow> tt_error io" where
  "validate_config ctx =
     (let c = cx_config ctx in
      if cfg_prio c < -1 \<or> cfg_prio c > 99 then return_io TT_ERROR_CONFIG
      else if cfg_port c \<le> 0 \<or> cfg_port c > 65535 then return_io TT_ERROR_CONFIG
      else if cfg_cpu c < -1 \<or> cfg_cpu c > 1024 then return_io TT_ERROR_CONFIG
      else if length (cstr (cfg_node_id c)) = 0 then return_io TT_ERROR_CONFIG
      else if cfg_log_level c < 0 \<or> cfg_log_level c > 5 then return_io TT_ERROR_CONFIG
      else do {
        tt_set_log_level (cfg_log_level c);
        return_io TT_SUCCESS
      })"

definition optstring :: string where
  "optstring = ''hc:P:p:n:l:sga''"

definition parse_config :: "string list \<Rightarrow> tt_context \<Rightarrow> (tt_error \<times> tt_context) io" where
  "parse_config args ctx =
     (let ctx = the (config_set_defaults (Some ctx));
          (opts, operands) = getopt optstring args
      in case apply_options opts (cx_config ctx) of
           (c, False) \<Rightarrow> return_io (TT_ERROR_CONFIG, ctx\<lparr>cx_config := c\<rparr>)
         | (c, True) \<Rightarrow> do {
             let c' = (case operands of [] \<Rightarrow> c | a # _ \<Rightarrow> c\<lparr>cfg_addr := a\<rparr>);
             let ctx' = ctx\<lparr>cx_config := c'\<rparr>;
             e \<leftarrow> validate_config ctx';
             return_io (e, ctx')
           })"

section \<open>Properties\<close>

text \<open>
  The ranges that the code accepts. They are wider than the documented ones: the message of
  \<^verbatim>\<open>validate_config\<close> and the design document name the priorities -1 and 1 to 99 and the CPUs -1 and 0 to
  1023, the checks also let priority 0 and CPU 1024 pass.
\<close>

definition config_ok :: "config \<Rightarrow> bool" where
  "config_ok c \<longleftrightarrow> cfg_prio c \<in> {-1..99} \<and> cfg_port c \<in> {1..65535} \<and> cfg_cpu c \<in> {-1..1024} \<and>
     cfg_node_id c \<noteq> [] \<and> fits TINFO_NODEID_MAX (cfg_node_id c) \<and> cfg_log_level c \<in> {0..5}"

lemma apply_option_node_id:
  "apply_option opt a c = Some c' \<Longrightarrow> fits TINFO_NODEID_MAX (cfg_node_id c) \<Longrightarrow>
    fits TINFO_NODEID_MAX (cfg_node_id c')"
  by (auto simp: apply_option_def field_sizes split: if_splits)

lemma apply_options_node_id:
  "fits TINFO_NODEID_MAX (cfg_node_id c) \<Longrightarrow> fits TINFO_NODEID_MAX (cfg_node_id (fst (apply_options os c)))"
  by (induction os arbitrary: c) (auto dest: apply_option_node_id split: option.splits)

lemma validate_config_cases:
  "run_state (validate_config ctx) s =
    (if cfg_prio (cx_config ctx) \<in> {-1..99} \<and> cfg_port (cx_config ctx) \<in> {1..65535} \<and>
        cfg_cpu (cx_config ctx) \<in> {-1..1024} \<and> cstr (cfg_node_id (cx_config ctx)) \<noteq> [] \<and>
        cfg_log_level (cx_config ctx) \<in> {0..5}
     then (TT_SUCCESS, s\<lparr>globals := (globals s)\<lparr>g_log_level := cfg_log_level (cx_config ctx)\<rparr>\<rparr>)
     else (TT_ERROR_CONFIG, s))"
  by (auto simp: validate_config_def Let_def tt_set_log_level_def)

text \<open>
  C24. A command line is accepted exactly when every option is known and the configuration that the
  options give passes the checks of the code: priority -1 to 99, port 1 to 65535, CPU -1 to 1024,
  a node id that is not empty and fits its field, log level 0 to 5. (The documented ranges are
  narrower: priority 0 and CPU 1024 are accepted against the message and the design document.)
  Then the log level is installed; otherwise the code is TT_ERROR_CONFIG and the log level
  is left as it was. No system call is made, and the lists of tasks are empty.
\<close>

theorem parse_config_ranges:
  "case run_state (parse_config args ctx) s of ((e, ctx'), s') \<Rightarrow>
     (let (c, known) = apply_options (fst (getopt optstring args)) (cx_config (the (config_set_defaults (Some ctx)))) in
        cx_config ctx' = c\<lparr>cfg_addr := cfg_addr (cx_config ctx')\<rparr> \<and>
        (if known \<and> config_ok c
         then e = TT_SUCCESS \<and> s' = s\<lparr>globals := (globals s)\<lparr>g_log_level := cfg_log_level c\<rparr>\<rparr>
         else e = TT_ERROR_CONFIG \<and> s' = s)) \<and>
     cx_tt_list ctx' = [] \<and> cx_apex_list ctx' = [] \<and> cx_shutdown_requested ctx' = 0"
proof -
  let ?ctx = "the (config_set_defaults (Some ctx))"
  have lists: "cx_tt_list ?ctx = [] \<and> cx_apex_list ?ctx = [] \<and> cx_shutdown_requested ?ctx = 0"
    by (simp add: config_set_defaults_def)
  obtain opts operands where g: "getopt optstring args = (opts, operands)" by fastforce
  obtain c known where c: "apply_options opts (cx_config ?ctx) = (c, known)" by fastforce
  have fit: "fits TINFO_NODEID_MAX (cfg_node_id c)"
    using apply_options_node_id [of "cx_config ?ctx" opts] c by (simp add: config_set_defaults_def field_sizes)
  then have "cstr (cfg_node_id c) = cfg_node_id c" by (simp add: fits_def cstr_id)
  with fit lists c show ?thesis
    by (cases known; cases operands) (simp_all add: parse_config_def g Let_def validate_config_cases config_ok_def)
qed


lemma getopt_option_word:
  assumes "kind_of_opt spec c = Opt_arg" and "c \<noteq> CHR ''-''"
  shows "getopt spec ((CHR ''-'' # [c]) # a # as) = (let (os, ops) = getopt spec as in ((c, Some a) # os, ops))"
  using assms by (simp add: case_prod_beta)

lemma getopt_flag_word:
  assumes "kind_of_opt spec c = Opt_flag" and "c \<noteq> CHR ''-''"
  shows "getopt spec ((CHR ''-'' # [c]) # as) = (let (os, ops) = getopt spec as in ((c, None) # os, ops))"
  using assms by (simp add: case_prod_beta)

lemma atoi_decimal_small: "n < 100000 \<Longrightarrow> atoi (decimal n) = int n"
  by (rule atoi_decimal) simp

text \<open>
  The command line round trip: any valid configuration written as options, the numbers in decimal
  and the server as the operand, is accepted and read back field by field, whatever the
  context held before; the fields that no option names keep their defaults.
\<close>

theorem parse_config_reads_back:
  assumes "cpu \<le> 1024" and "prio \<le> 99" and "1 \<le> port" and "port \<le> 65535" and "level \<le> 5"
    and "fits TINFO_NODEID_MAX node" and "node \<noteq> []" and "host \<noteq> []" and "hd host \<noteq> CHR ''-''"
  shows "\<exists>ctx'. result (parse_config [''-c'', decimal cpu, ''-P'', decimal prio, ''-p'', decimal port,
        ''-n'', node, ''-s'', ''-l'', decimal level, host] ctx) s = (TT_SUCCESS, ctx') \<and>
    cx_config ctx' = \<lparr>cfg_cpu = int cpu, cfg_prio = int prio, cfg_port = int port, cfg_addr = host,
      cfg_node_id = node, cfg_enable_sync = True, cfg_enable_plot = False, cfg_enable_apex = False,
      cfg_clockid = CLOCK_REALTIME, cfg_log_level = int level\<rparr>"
proof -
  have kinds: "kind_of_opt optstring (CHR ''c'') = Opt_arg" "kind_of_opt optstring (CHR ''P'') = Opt_arg"
      "kind_of_opt optstring (CHR ''p'') = Opt_arg" "kind_of_opt optstring (CHR ''n'') = Opt_arg"
      "kind_of_opt optstring (CHR ''l'') = Opt_arg" "kind_of_opt optstring (CHR ''s'') = Opt_flag"
    by (simp_all add: optstring_def)
  have host: "getopt optstring [host] = ([], [host])"
    using assms(8,9) by (cases host) auto
  have g: "getopt optstring [''-c'', decimal cpu, ''-P'', decimal prio, ''-p'', decimal port, ''-n'', node,
      ''-s'', ''-l'', decimal level, host] =
    ([(CHR ''c'', Some (decimal cpu)), (CHR ''P'', Some (decimal prio)), (CHR ''p'', Some (decimal port)),
      (CHR ''n'', Some node), (CHR ''s'', None), (CHR ''l'', Some (decimal level))], [host])"
    by (simp add: getopt_option_word getopt_flag_word kinds host del: getopt.simps)
  have node: "strncpy_field TINFO_NODEID_MAX node = node" "cstr node = node"
    using assms(6) by (simp_all add: strncpy_field_fits) (simp add: fits_def cstr_id)
  show ?thesis
    using assms
    by (simp add: parse_config_def g config_set_defaults_def apply_option_def atoi_decimal_small node
        validate_config_cases Let_def del: getopt.simps)
qed

lemma parse_config_reads_back_witness:
  "\<exists>ctx'. result (parse_config [''-c'', decimal 3, ''-P'', decimal 80, ''-p'', decimal 7777,
        ''-n'', ''node01'', ''-s'', ''-l'', decimal 4, ''10.0.0.1''] zero_context) (os_of (\<lambda>c. answer0)) =
       (TT_SUCCESS, ctx') \<and> cfg_addr (cx_config ctx') = ''10.0.0.1'' \<and> cfg_cpu (cx_config ctx') = 3"
proof -
  have fit: "fits TINFO_NODEID_MAX ''node01''" by (simp add: fits_def field_sizes)
  show ?thesis
    using parse_config_reads_back [OF _ _ _ _ _ fit, of 3 80 7777 4 "''10.0.0.1''" zero_context
        "os_of (\<lambda>c. answer0)"]
    by auto
qed

end
