(* ===== verification/Node_Main.thy ===== *)
theory Node_Main
  imports Core Config
begin

text \<open>
  The program of the node from start to exit (\<^verbatim>\<open>timpani-n/src/main.c\<close>, \<^verbatim>\<open>cleanup.c\<close>): configuration,
  initialisation in its order, the run, and the release of everything at the end. The
  lemmas account for the blocks of the task list over a whole run, whichever step fails, and
  say what the final release does.
\<close>

section \<open>Release of the resources\<close>

text \<open>The loop that takes the list of time triggers apart from its head.\<close>

primrec cleanup_task_nodes :: "bool \<Rightarrow> time_trigger list \<Rightarrow> unit io" where
  "cleanup_task_nodes ev [] = return_io ()"
| "cleanup_task_nodes ev (tt_p # rest) = do {
     _ \<leftarrow> bpf_del_pid ev (sint (ti_pid (tt_task tt_p)));
     (if ti_pidfd (tt_task tt_p) \<ge> 0
      then do { _ \<leftarrow> kern (Close (ti_pidfd (tt_task tt_p))); return_io () } else return_io ());
     _ \<leftarrow> kern (Timer_delete (tt_timer tt_p));
     _ \<leftarrow> kern (Free ''time_trigger'');
     cleanup_task_nodes ev rest
   }"

definition cleanup_tasks :: "bool \<Rightarrow> tt_context \<Rightarrow> tt_context io" where
  "cleanup_tasks ev ctx = do {
     cleanup_task_nodes ev (cx_tt_list ctx);
     destroy_task_info_list (si_tasks (cx_sched_info ctx));
     return_io (ctx\<lparr>cx_tt_list := [], cx_sched_info := (cx_sched_info ctx)\<lparr>si_tasks := []\<rparr>\<rparr>)
   }"

definition cleanup_communication :: "tt_context \<Rightarrow> tt_context io" where
  "cleanup_communication ctx = do {
     ctx1 \<leftarrow> (if cx_dbus ctx then do { _ \<leftarrow> bus Bus_unref; return_io (ctx\<lparr>cx_dbus := False\<rparr>) }
              else return_io ctx);
     (if cx_event ctx1 then do { _ \<leftarrow> bus Event_unref; return_io (ctx1\<lparr>cx_event := False\<rparr>) }
      else return_io ctx1)
   }"

definition cleanup_hyperperiod :: "tt_context \<Rightarrow> unit io" where
  "cleanup_hyperperiod ctx =
     (if hp_hyperperiod_us (cx_hp_manager ctx) > 0
      then do { _ \<leftarrow> kern (Timer_delete (hp_hyperperiod_timer (cx_hp_manager ctx))); return_io () }
      else return_io ())"

definition cleanup_bpf_trace :: "bool \<Rightarrow> unit io" where
  "cleanup_bpf_trace ev = bpf_off ev"

definition cleanup_context :: "bool \<Rightarrow> tt_context option \<Rightarrow> tt_context option io" where
  "cleanup_context ev ctx =
     (case ctx of
        None \<Rightarrow> return_io None
      | Some ctx \<Rightarrow> do {
          ctx1 \<leftarrow> cleanup_tasks ev ctx;
          ctx2 \<leftarrow> cleanup_communication ctx1;
          cleanup_hyperperiod ctx2;
          cleanup_bpf_trace ev;
          return_io (Some ctx2)
        })"

section \<open>Initialisation\<close>

text \<open>CPU and scheduling class of the node itself; failures only warn.\<close>

definition set_own_scheduling :: "int \<Rightarrow> tt_context \<Rightarrow> unit io" where
  "set_own_scheduling pid ctx = do {
     (if cfg_cpu (cx_config ctx) \<noteq> -1
      then do { _ \<leftarrow> set_affinity pid (cfg_cpu (cx_config ctx)); return_io () } else return_io ());
     (if cfg_prio (cx_config ctx) > 0 \<and> cfg_prio (cx_config ctx) \<le> 99
      then do { _ \<leftarrow> set_schedattr pid (word_of_int (cfg_prio (cx_config ctx))) SCHED_FIFO; return_io () }
      else return_io ())
   }"

text \<open>
  The task lists: an Apex.OS workload gets the list of supervised processes, every other one the
  kernel programs and the time triggers. Nothing is set up when the node only serves Apex.OS
  (\<^verbatim>\<open>enable_apex\<close>).
\<close>

definition init_lists :: "bool \<Rightarrow> tt_context \<Rightarrow> (tt_error \<times> tt_context) io" where
  "init_lists ev ctx =
     (if \<not> cfg_enable_apex (cx_config ctx) then
        (if cstr (hp_workload_id (cx_hp_manager ctx)) = ''Apex.OS'' then do {
           (e, ctx1) \<leftarrow> init_apex_list ctx;
           return_io (if e \<noteq> TT_SUCCESS then TT_ERROR_CONFIG else TT_SUCCESS, ctx1)
         }
         else do {
           _ \<leftarrow> bpf_on ev;
           (e, ctx1) \<leftarrow> init_task_list ev ctx;
           return_io (if e \<noteq> TT_SUCCESS then TT_ERROR_CONFIG else TT_SUCCESS, ctx1)
         })
      else return_io (TT_SUCCESS, ctx))"

text \<open>
  The outcome \<open>None\<close> is that of the decoding of the schedule: an array was overrun. The first argument is
  the byte order of the machine, the second says whether scheduling events are traced.
\<close>

definition initialize :: "bool \<Rightarrow> bool \<Rightarrow> tt_context \<Rightarrow> (tt_error \<times> tt_context) option io" where
  "initialize le ev ctx = do {
     p \<leftarrow> kern Getpid;
     e \<leftarrow> setup_signal_handlers ctx;
     if e \<noteq> TT_SUCCESS then return_io (Some (TT_ERROR_SIGNAL, ctx))
     else do {
       set_own_scheduling (ret p) ctx;
       e \<leftarrow> calibrate_bpf_time_offset;
       if e \<noteq> TT_SUCCESS then return_io (Some (TT_ERROR_BPF, ctx))
       else do {
         r \<leftarrow> init_trpc le ctx;
         (case r of
            None \<Rightarrow> return_io None
          | Some (e, ctx1) \<Rightarrow>
              if e \<noteq> TT_SUCCESS then return_io (Some (TT_ERROR_NETWORK, ctx1))
              else do {
                (e, ctx2) \<leftarrow> init_lists ev ctx1;
                if e \<noteq> TT_SUCCESS then return_io (Some (e, ctx2))
                else do {
                  (e, ctx3) \<leftarrow> apex_monitor_init ctx2;
                  return_io (Some (if e \<noteq> TT_SUCCESS then TT_ERROR_NETWORK else TT_SUCCESS, ctx3))
                }
              })
       }
     }
   }"

section \<open>Run and main\<close>

text \<open>
  \<open>fuel\<close> bounds the requests of the wait for the start and the rounds of the main loop; \<open>None\<close> means
  that a bound was reached. \<open>n\<close> is the position from which on the handlers are installed.
\<close>

definition run :: "nat \<Rightarrow> nat \<Rightarrow> tt_context \<Rightarrow> (tt_error \<times> tt_context) option io" where
  "run fuel n ctx = do {
     r \<leftarrow> sync_timer_with_server fuel ctx;
     (case r of
        None \<Rightarrow> return_io None
      | Some (e, ctx1) \<Rightarrow>
          if e \<noteq> TT_SUCCESS then return_io (Some (TT_ERROR_NETWORK, ctx1))
          else do {
            (e, ctx2) \<leftarrow> start_timers ctx1;
            if e \<noteq> TT_SUCCESS then return_io (Some (TT_ERROR_TIMER, ctx2))
            else do {
              (e, ctx3) \<leftarrow> start_hyperperiod_timer ctx2;
              if e \<noteq> TT_SUCCESS then return_io (Some (TT_ERROR_TIMER, ctx3))
              else epoll_loop fuel n ctx3
            }
          })
   }"

text \<open>The release at the label \<^verbatim>\<open>cleanup\<close>, and the exit code.\<close>

definition finish :: "bool \<Rightarrow> tt_error \<times> tt_context \<Rightarrow> int option io" where
  "finish ev r = do {
     _ \<leftarrow> cleanup_context ev (Some (snd r));
     return_io (Some (if fst r = TT_SUCCESS then EXIT_SUCCESS else EXIT_FAILURE))
   }"

text \<open>
  The three calls that install the handlers come first in \<^verbatim>\<open>initialize\<close>; a signal that arrives before
  ends the process by its default action and is not considered.
\<close>

definition main :: "bool \<Rightarrow> bool \<Rightarrow> nat \<Rightarrow> string list \<Rightarrow> int option io" where
  "main le ev fuel args = do {
     (e, ctx) \<leftarrow> parse_config args zero_context;
     if e \<noteq> TT_SUCCESS then return_io (Some EXIT_FAILURE)
     else do {
       n \<leftarrow> position;
       r \<leftarrow> initialize le ev ctx;
       (case r of
          None \<Rightarrow> return_io None
        | Some (e, ctx1) \<Rightarrow>
            if e \<noteq> TT_SUCCESS then finish ev (e, ctx1)
            else do {
              r \<leftarrow> run fuel (n + 3) ctx1;
              (case r of
                 None \<Rightarrow> return_io None
               | Some x \<Rightarrow> finish ev x)
            })
     }
   }"

section \<open>Accounting for the time triggers\<close>

fun tt_alloc :: "call \<Rightarrow> answer \<Rightarrow> bool" where
  "tt_alloc (Kern (Calloc w)) a \<longleftrightarrow> w = ''time_trigger'' \<and> ret a \<noteq> 0"
| "tt_alloc _ a \<longleftrightarrow> False"

fun tt_free :: "call \<Rightarrow> answer \<Rightarrow> bool" where
  "tt_free (Kern (Free w)) a \<longleftrightarrow> w = ''time_trigger''"
| "tt_free _ a \<longleftrightarrow> False"

definition no_tt :: "call \<Rightarrow> bool" where
  "no_tt c \<longleftrightarrow> c \<noteq> Kern (Calloc ''time_trigger'') \<and> c \<noteq> Kern (Free ''time_trigger'')"

lemma no_tt_counts: "no_tt c \<Longrightarrow> \<not> tt_alloc c a" "no_tt c \<Longrightarrow> \<not> tt_free c a"
  by (cases c rule: tt_alloc.cases [of "(c, a)" for c]; simp add: no_tt_def)
    (cases c rule: tt_free.cases [of "(c, a)" for c]; simp add: no_tt_def)

text \<open>The time triggers that an operation has allocated less those it has freed.\<close>

abbreviation settles :: "'a io \<Rightarrow> ('a \<Rightarrow> int \<Rightarrow> bool) \<Rightarrow> bool" where
  "settles \<equiv> balances tt_alloc tt_free"

lemmas settles_def = balances_def [of tt_alloc tt_free]
lemmas settles_return = balances_return [of _ _ tt_alloc tt_free]
lemmas settles_bind = balances_bind [of tt_alloc tt_free]
lemmas settles_sys = balances_sys [of _ tt_alloc _ tt_free]
lemmas settles_if = balances_if [of _ tt_alloc tt_free]
lemmas settles_mono = balances_mono [of tt_alloc tt_free]

lemma settles_quiet: "only_g no_tt m \<Longrightarrow> (\<And>s. R (result m s) 0) \<Longrightarrow> settles m R"
  by (rule balances_quiet [where P = no_tt]) (simp_all add: no_tt_counts)

text \<open>What every step keeps of the context: the list grows by what was allocated; a stop is not requested.\<close>

definition kept :: "tt_context \<Rightarrow> tt_context \<Rightarrow> int \<Rightarrow> bool" where
  "kept ctx ctx' k \<longleftrightarrow> int (length (cx_tt_list ctx')) = int (length (cx_tt_list ctx)) + k \<and>
     cx_shutdown_requested ctx' = cx_shutdown_requested ctx"

lemma kept_refl [simp]: "kept ctx ctx k \<longleftrightarrow> k = 0"
  by (auto simp: kept_def)

lemma kept_trans: "kept ctx ctx1 k \<Longrightarrow> kept ctx1 ctx2 k' \<Longrightarrow> kept ctx ctx2 (k + k')"
  by (auto simp: kept_def)

abbreviation keeps :: "tt_context \<Rightarrow> (tt_error \<times> tt_context) io \<Rightarrow> bool" where
  "keeps ctx m \<equiv> settles m (\<lambda>r. kept ctx (snd r))"

abbreviation keeps_opt :: "tt_context \<Rightarrow> ('e \<times> tt_context) option io \<Rightarrow> bool" where
  "keeps_opt ctx m \<equiv> settles m (\<lambda>r k. \<forall>e ctx'. r = Some (e, ctx') \<longrightarrow> kept ctx ctx' k)"

text \<open>The operations that neither allocate nor free a time trigger.\<close>

lemma no_tt_simps [simp]:
  "no_tt (Bus b)" "no_tt (Bpf p)" "no_tt (Kern (Free w)) \<longleftrightarrow> w \<noteq> ''time_trigger''"
  "no_tt (Kern (Calloc w)) \<longleftrightarrow> w \<noteq> ''time_trigger''"
  by (simp_all add: no_tt_def)

lemma no_tt_is: "is_bus c \<Longrightarrow> no_tt c" "is_bpf c \<Longrightarrow> no_tt c" "is_proc_read c \<Longrightarrow> no_tt c" "is_affinity c \<Longrightarrow> no_tt c"
  "is_sched_call c \<Longrightarrow> no_tt c" "is_loop_call c \<Longrightarrow> no_tt c"
  by (cases c; auto simp: no_tt_def)+

lemma quiet_of_only: "only P m \<Longrightarrow> (\<And>c. P c \<Longrightarrow> no_tt c) \<Longrightarrow> only_g no_tt m"
  by (rule only_imp_only_g, rule only_mono)

lemmas quiet_rules = quiet_of_only [OF only_get_pid_by_name no_tt_is(3)] quiet_of_only [OF only_set_affinity no_tt_is(4)]
  quiet_of_only [OF only_set_schedattr no_tt_is(5)] quiet_of_only [OF only_create_pidfd no_tt_is(5)]
  quiet_of_only [OF only_add_pid no_tt_is(2)] quiet_of_only [OF only_del_pid no_tt_is(2)]
  only_g_mono [OF only_bpf_on no_tt_is(2)] only_g_mono [OF only_bpf_off no_tt_is(2)]

lemma quiet_setup: "only_g no_tt (task_setup_process ev n)"
  unfolding task_setup_process_def Let_def by (intro only_g_rules quiet_rules)

lemma keeps_init_tasks: "settles (init_tasks ev tis ctx k) (\<lambda>r. kept ctx (fst r))"
proof (induction tis arbitrary: ctx k)
  case (Cons ti tis)
  have free: "settles (do { _ \<leftarrow> kern (Free ''time_trigger''); init_tasks ev tis ctx k }) (\<lambda>r n. kept ctx (fst r) (n + 1))"
    by (rule settles_bind [where R' = "\<lambda>_ n. n = -1"], rule settles_sys)
      (simp_all add: Cons.IH)
  have go: "settles (do {
             (e, tt_node') \<leftarrow> task_setup_process ev tt_node;
             if e \<noteq> TT_SUCCESS
             then do { _ \<leftarrow> kern (Free ''time_trigger''); init_tasks ev tis ctx k }
             else init_tasks ev tis
               (ctx\<lparr>cx_tt_list := tt_node' # cx_tt_list ctx,
                    cx_hp_manager := (cx_hp_manager ctx)\<lparr>hp_tasks_in_hyperperiod :=
                      hp_tasks_in_hyperperiod (cx_hp_manager ctx) + 1\<rparr>\<rparr>)
               (k + 1) }) (\<lambda>r n. kept ctx (fst r) (n + 1))" for tt_node
    by (rule settles_bind [where R' = "\<lambda>_ n. n = 0"], rule settles_quiet [OF quiet_setup], simp)
      (auto simp: case_prod_beta intro!: settles_mono [OF free] settles_mono [OF Cons.IH] simp: kept_def)
  have "settles (task_create_node ti) (\<lambda>r n. n = of_bool (r \<noteq> None))"
    unfolding task_create_node_def
    by (rule settles_bind [where R' = "\<lambda>a n. n = of_bool (ret a \<noteq> 0)"], rule settles_sys)
      (auto intro!: settles_return)
  then have "settles (State_Monad.bind (task_create_node ti) (\<lambda>created. case created of
           None \<Rightarrow> init_tasks ev tis ctx k
         | Some tt_node \<Rightarrow> do {
             (e, tt_node') \<leftarrow> task_setup_process ev tt_node;
             if e \<noteq> TT_SUCCESS
             then do { _ \<leftarrow> kern (Free ''time_trigger''); init_tasks ev tis ctx k }
             else init_tasks ev tis
               (ctx\<lparr>cx_tt_list := tt_node' # cx_tt_list ctx,
                    cx_hp_manager := (cx_hp_manager ctx)\<lparr>hp_tasks_in_hyperperiod :=
                      hp_tasks_in_hyperperiod (cx_hp_manager ctx) + 1\<rparr>\<rparr>)
               (k + 1) })) (\<lambda>r. kept ctx (fst r))"
    by (rule settles_bind) (auto split: option.split intro!: settles_mono [OF Cons.IH] settles_mono [OF go] simp: add.commute)
  then show ?case using Cons.IH by (simp add: settles_if)
qed (simp add: settles_return)

lemma keeps_init_task_list: "keeps ctx (init_task_list ev ctx)"
  unfolding init_task_list_def
  by (rule settles_bind [OF keeps_init_tasks]) (auto simp: case_prod_beta intro!: settles_return)

text \<open>The operations that leave the list and the flag alone.\<close>

lemma quiet_destroy: "only_g no_tt (destroy_task_info_list ts)"
  by (rule quiet_of_only [OF only_destroy]) simp

lemma quiet_deserialize_tasks: "only_g no_tt (deserialize_tasks le n b ts)"
  by (induction n arbitrary: b ts) (auto intro!: only_g_rules quiet_destroy split: ser.split)

lemma quiet_get_sched_info: "only_g no_tt (get_sched_info le ctx)"
  unfolding get_sched_info_def deserialize_sched_info_def
  by (auto intro!: only_g_rules quiet_deserialize_tasks quiet_destroy quiet_of_only [OF only_client_schedinfo no_tt_is(1)]
      simp: Let_def split: ser.split prod.split tt_error.split option.split)

lemma deserialize_sched_info_lists:
  "result (deserialize_sched_info le ctx b si) s = Some (e, ctx', si') \<Longrightarrow> kept ctx ctx' 0"
  by (auto simp: deserialize_sched_info_def Let_def case_prod_beta kept_def
      split: ser.splits option.splits if_splits prod.splits tt_error.splits)

lemma keeps_get_sched_info: "keeps_opt ctx (get_sched_info le ctx)"
proof (rule settles_quiet [OF quiet_get_sched_info], intro allI impI)
  fix s e ctx' assume "result (get_sched_info le ctx) s = Some (e, ctx')"
  then have "ctx' = ctx \<or> (\<exists>b s' e si ctx1 si'. result (deserialize_sched_info le ctx b si) s' = Some (e, ctx1, si') \<and>
      ctx' = ctx1\<lparr>cx_sched_info := si'\<rparr>)"
    by (auto simp: get_sched_info_def case_prod_beta split: option.splits if_splits prod.splits) (metis fst_conv)+
  then show "kept ctx ctx' 0" by (auto dest!: deserialize_sched_info_lists simp: kept_def)
qed

lemma keeps_connection: "settles (init_trpc_connection a p ctx) (\<lambda>r. kept ctx (snd r))"
proof (rule settles_quiet)
  show "only_g no_tt (init_trpc_connection a p ctx)"
    unfolding init_trpc_connection_def Let_def
    by (intro only_g_rules quiet_of_only [OF only_client_create no_tt_is(1)]) simp_all
qed (simp add: init_trpc_connection_def Let_def case_prod_beta kept_def)

lemma keeps_cleanup_connection: "settles (cleanup_trpc_connection ctx) (\<lambda>r. kept ctx r)"
proof (rule settles_quiet)
  show "only_g no_tt (cleanup_trpc_connection ctx)"
    unfolding cleanup_trpc_connection_def by (intro only_g_rules) simp_all
qed (simp add: cleanup_trpc_connection_def kept_def)

lemma keeps_init_trpc_loop: "keeps_opt ctx (init_trpc_loop le n ctx)"
proof (induction n arbitrary: ctx)
  case (Suc n)
  have sleep: "settles (do { _ \<leftarrow> kern (Usleep t); init_trpc_loop le n ctx1 }) (\<lambda>r k. \<forall>e ctx'. r = Some (e, ctx') \<longrightarrow> kept ctx1 ctx' k)" for t ctx1
    by (rule settles_bind [where R' = "\<lambda>_ k. k = 0"], rule settles_sys) (simp_all add: Suc.IH)
  have retry: "settles (do { ctx3 \<leftarrow> cleanup_trpc_connection ctx2; _ \<leftarrow> kern (Usleep t); init_trpc_loop le n ctx3 })
      (\<lambda>r k. \<forall>e ctx'. r = Some (e, ctx') \<longrightarrow> kept ctx2 ctx' k)" for t ctx2
    by (rule settles_bind [OF keeps_cleanup_connection], rule settles_mono [OF sleep]) (blast intro: kept_trans)
  have fetch: "settles (do { g \<leftarrow> get_sched_info le ctx1;
          (case g of
             None \<Rightarrow> return_io None
           | Some (q, ctx2) \<Rightarrow>
               if q = 0 then return_io (Some (TT_SUCCESS, ctx2))
               else do { ctx3 \<leftarrow> cleanup_trpc_connection ctx2; _ \<leftarrow> kern (Usleep TT_RETRY_INTERVAL_US); init_trpc_loop le n ctx3 }) })
      (\<lambda>r k. \<forall>e ctx'. r = Some (e, ctx') \<longrightarrow> kept ctx1 ctx' k)" for ctx1
    by (rule settles_bind [OF keeps_get_sched_info])
      (auto split: option.split intro!: settles_return settles_mono [OF retry] intro: kept_trans)
  show ?case
    unfolding init_trpc_loop.simps
    by (rule settles_bind [OF keeps_connection])
      (auto simp: case_prod_beta intro!: settles_return settles_mono [OF fetch] settles_mono [OF sleep] intro: kept_trans)
qed (simp add: settles_return)

lemma keeps_apex_list: "keeps ctx (init_apex_list ctx)"
proof -
  have q: "only_g no_tt (init_apexes tis ctx k)" for tis k ctx
    by (induction tis arbitrary: ctx k) (auto intro!: only_g_rules)
  have r: "kept ctx (fst (result (init_apexes tis ctx k) s)) 0" for tis k ctx s
    by (induction tis arbitrary: ctx k s) (auto simp: kept_def)
  show ?thesis
    unfolding init_apex_list_def
    by (rule settles_bind [where R' = "\<lambda>r. kept ctx (fst r)"], rule settles_quiet [OF q], rule r)
      (auto simp: case_prod_beta intro!: settles_return)
qed

lemma keeps_init_lists: "keeps ctx (init_lists ev ctx)"
  unfolding init_lists_def
  by (intro settles_if settles_return settles_bind [OF keeps_apex_list]
      settles_bind [OF settles_quiet [OF quiet_rules(7), where R = "\<lambda>_ k. k = 0"]])
    (auto simp: case_prod_beta intro!: settles_return settles_bind [OF keeps_init_task_list])

lemma keeps_monitor_init: "keeps ctx (apex_monitor_init ctx)"
proof (rule settles_quiet)
  show "only_g no_tt (apex_monitor_init ctx)"
    unfolding apex_monitor_init_def by (intro only_g_rules) (simp_all add: no_tt_def)
qed (simp add: apex_monitor_init_def kept_def)

lemma quiet_signals: "only_g no_tt (setup_signal_handlers ctx)"
  unfolding setup_signal_handlers_def by (intro only_g_rules) (simp_all add: no_tt_def)

lemma quiet_own: "only_g no_tt (set_own_scheduling p ctx)"
  unfolding set_own_scheduling_def by (intro only_g_rules quiet_rules)

lemma quiet_calibrate: "only_g no_tt calibrate_bpf_time_offset"
proof -
  have "only_g no_tt (calibrate_loop n b)" for n b
    by (induction n arbitrary: b) (auto intro!: only_g_rules simp: no_tt_def Let_def)
  then show ?thesis by (simp add: calibrate_bpf_time_offset_def calibrate_bpf_ktime_offset_internal_def)
qed

lemma settles_after_quiet:
  "only_g no_tt m \<Longrightarrow> (\<And>x. settles (f x) R) \<Longrightarrow> settles (State_Monad.bind m f) R"
  by (rule settles_bind [OF settles_quiet [where R = "\<lambda>_ k. k = 0"]]) simp_all

lemma keeps_initialize: "keeps_opt ctx (initialize le ev ctx)"
proof -
  have last: "keeps_opt ctx (do { (e, ctx3) \<leftarrow> apex_monitor_init ctx;
       return_io (Some (if e \<noteq> TT_SUCCESS then TT_ERROR_NETWORK else TT_SUCCESS, ctx3)) })" for ctx
    by (rule settles_bind [OF keeps_monitor_init]) (auto simp: case_prod_beta intro!: settles_return)
  have lists: "keeps_opt ctx (do { (e, ctx2) \<leftarrow> init_lists ev ctx;
       if e \<noteq> TT_SUCCESS then return_io (Some (e, ctx2))
       else do { (e, ctx3) \<leftarrow> apex_monitor_init ctx2;
         return_io (Some (if e \<noteq> TT_SUCCESS then TT_ERROR_NETWORK else TT_SUCCESS, ctx3)) } })" for ctx
    by (rule settles_bind [OF keeps_init_lists])
      (auto intro!: settles_return settles_mono [OF last] simp: kept_def)
  have "keeps_opt ctx (do { r \<leftarrow> init_trpc le ctx;
         (case r of
            None \<Rightarrow> return_io None
          | Some (e, ctx1) \<Rightarrow>
              if e \<noteq> TT_SUCCESS then return_io (Some (TT_ERROR_NETWORK, ctx1))
              else do { (e, ctx2) \<leftarrow> init_lists ev ctx1;
                if e \<noteq> TT_SUCCESS then return_io (Some (e, ctx2))
                else do { (e, ctx3) \<leftarrow> apex_monitor_init ctx2;
                  return_io (Some (if e \<noteq> TT_SUCCESS then TT_ERROR_NETWORK else TT_SUCCESS, ctx3)) } }) })"
    unfolding init_trpc_def
    by (rule settles_bind [OF keeps_init_trpc_loop])
      (auto split: option.split intro!: settles_return settles_mono [OF lists] intro: kept_trans)
  then show ?thesis
    unfolding initialize_def
    by (intro settles_after_quiet [OF only_sys [THEN only_imp_only_g]] settles_after_quiet [OF quiet_signals]
        settles_after_quiet [OF quiet_own] settles_after_quiet [OF quiet_calibrate] settles_if settles_return)
      (auto simp: no_tt_def)
qed

lemma keeps_sync: "keeps_opt ctx (sync_timer_with_server fuel ctx)"
proof (rule settles_quiet)
  have "only_g no_tt (sync_timer_internal fuel nid ts)" for nid ts
    by (induction fuel arbitrary: ts)
      (auto intro!: only_g_rules quiet_of_only [OF only_client_sync no_tt_is(1)] simp: no_tt_def)
  then show "only_g no_tt (sync_timer_with_server fuel ctx)"
    unfolding sync_timer_with_server_def by (auto intro!: only_g_rules split: option.split)
qed (auto simp: sync_timer_with_server_def case_prod_beta kept_def split: option.splits if_splits prod.splits)

lemma arm_timers_length:
  "length (snd (result (arm_timers clk st i tts) s)) = length tts"
  by (induction tts arbitrary: i s) (auto simp: case_prod_beta Let_def split: if_splits)

lemma keeps_start_timers: "keeps ctx (start_timers ctx)"
proof (rule settles_quiet)
  have "no_tt c" if "armed_at st c" for st c using that by (elim armed_at.elims) (simp_all add: no_tt_def)
  then show "only_g no_tt (start_timers ctx)"
    unfolding start_timers_def by (intro only_g_rules quiet_of_only [OF only_arm_timers]) (auto simp: no_tt_def)
qed (simp add: start_timers_def case_prod_beta kept_def arm_timers_length)

lemma keeps_hyperperiod: "keeps ctx (start_hyperperiod_timer ctx)"
proof (rule settles_quiet)
  show "only_g no_tt (start_hyperperiod_timer ctx)"
    unfolding start_hyperperiod_timer_def Let_def by (intro only_g_rules) (simp_all add: no_tt_def)
qed (simp add: start_hyperperiod_timer_def Let_def kept_def)

text \<open>The main loop keeps the list and may request a stop.\<close>

abbreviation keeps_len :: "tt_context \<Rightarrow> ('e \<times> tt_context) option io \<Rightarrow> bool" where
  "keeps_len ctx m \<equiv> settles m (\<lambda>r k. \<forall>e ctx'. r = Some (e, ctx') \<longrightarrow>
     int (length (cx_tt_list ctx')) = int (length (cx_tt_list ctx)) + k)"

lemma quiet_event: "only_g no_tt (epoll_event efd fd ctx)"
  by (rule only_g_mono [OF only_epoll_event no_tt_is(6)])

lemma epoll_event_list: "cx_tt_list (result (epoll_event efd fd ctx) s) = cx_tt_list ctx"
  using events_evolve [of ctx s]
  by (auto simp: epoll_event_def case_prod_beta context_evolves_def split: option.split)

lemma quiet_position: "only_g no_tt position" "only_g no_tt (handle_signals n ctx)"
  unfolding position_def handle_signals_def by (simp_all add: state_io_rel_def tch.effect_refl)

lemma keeps_rounds: "keeps_len ctx (epoll_rounds fuel efd n ctx)"
proof (induction fuel arbitrary: n ctx)
  case (Suc fuel)
  have sig: "settles (handle_signals n ctx) (\<lambda>c k. k = 0 \<and> cx_tt_list c = cx_tt_list ctx)"
    by (rule settles_quiet [OF quiet_position(2)]) (simp add: run_handle_signals)
  have ev: "settles (epoll_event efd fd ctx) (\<lambda>c k. k = 0 \<and> cx_tt_list c = cx_tt_list ctx)" for fd ctx
    by (rule settles_quiet [OF quiet_event]) (simp add: epoll_event_list)
  have next_round: "keeps_len ctx (do { ctx2 \<leftarrow> epoll_event efd fd ctx; epoll_rounds fuel efd n1 ctx2 })" for fd n1 ctx
    by (rule settles_bind [OF ev]) (rule settles_mono [OF Suc.IH], simp)
  have go: "keeps_len ctx (do {
       n1 \<leftarrow> position;
       if cx_shutdown_requested ctx \<noteq> 0 then return_io (Some (TT_SUCCESS, ctx))
       else do {
         w \<leftarrow> kern (Epoll_wait efd);
         if ret w < 0 then
           (if errno w = EINTR then epoll_rounds fuel efd n1 ctx else return_io (Some (TT_ERROR_TIMER, ctx)))
         else do { ctx2 \<leftarrow> epoll_event efd (out_fd w) ctx; epoll_rounds fuel efd n1 ctx2 } } })" for ctx
    by (intro settles_after_quiet [OF quiet_position(1)] settles_if settles_return
        settles_after_quiet [OF only_sys [THEN only_imp_only_g]] next_round Suc.IH) (simp_all add: no_tt_def)
  show ?case
    unfolding epoll_rounds.simps by (rule settles_bind [OF sig]) (rule settles_mono [OF go], simp)
qed (simp add: settles_return)

lemma keeps_loop: "keeps_len ctx (epoll_loop fuel n ctx)"
proof -
  have add: "only_g no_tt (epoll_add efd tts)" for efd tts
    by (rule quiet_of_only [OF only_epoll_add]) (auto simp: no_tt_def)
  have close: "keeps_len ctx (do { _ \<leftarrow> kern (Close fd); return_io (Some (e, ctx)) })" for fd ctx and e :: tt_error
    by (intro settles_after_quiet [OF only_sys [THEN only_imp_only_g]] settles_return) (simp_all add: no_tt_def)
  have rounds: "keeps_len ctx (do {
           r \<leftarrow> epoll_rounds fuel efd n ctx;
           (case r of None \<Rightarrow> return_io None | Some x \<Rightarrow> do { _ \<leftarrow> kern (Close efd); return_io (Some x) }) })" for efd
    by (rule settles_bind [OF keeps_rounds])
      (auto split: option.split intro!: settles_return settles_mono [OF close])
  show ?thesis
    unfolding epoll_loop_def
    by (intro settles_after_quiet [OF only_sys [THEN only_imp_only_g]] settles_after_quiet [OF add] settles_if settles_return
        close rounds) (simp_all add: no_tt_def)
qed

lemma keeps_run: "keeps_len ctx (run fuel n ctx)"
proof -
  have hyper: "keeps_len ctx (do { (e, ctx3) \<leftarrow> start_hyperperiod_timer ctx;
       if e \<noteq> TT_SUCCESS then return_io (Some (TT_ERROR_TIMER, ctx3)) else epoll_loop fuel n ctx3 })" for ctx
    by (rule settles_bind [OF keeps_hyperperiod])
      (auto intro!: settles_return settles_mono [OF keeps_loop] simp: kept_def)
  have timers: "keeps_len ctx (do { (e, ctx2) \<leftarrow> start_timers ctx;
       if e \<noteq> TT_SUCCESS then return_io (Some (TT_ERROR_TIMER, ctx2))
       else do { (e, ctx3) \<leftarrow> start_hyperperiod_timer ctx2;
         if e \<noteq> TT_SUCCESS then return_io (Some (TT_ERROR_TIMER, ctx3)) else epoll_loop fuel n ctx3 } })" for ctx
    by (rule settles_bind [OF keeps_start_timers])
      (auto intro!: settles_return settles_mono [OF hyper] simp: kept_def)
  show ?thesis
    unfolding run_def
    by (rule settles_bind [OF keeps_sync])
      (auto split: option.split intro!: settles_return settles_mono [OF timers] simp: kept_def)
qed

text \<open>The release frees every time trigger of the list.\<close>

lemma cleanup_nodes_free: "settles (cleanup_task_nodes ev tts) (\<lambda>_ k. k = - int (length tts))"
proof (induction tts)
  case (Cons tt_p rest)
  have quiet_close: "only_g no_tt (if fd \<ge> 0 then do { _ \<leftarrow> kern (Close fd); return_io () } else return_io ())" for fd
    by (intro only_g_rules) (simp add: no_tt_def)
  have "settles (do { _ \<leftarrow> kern (Free ''time_trigger''); cleanup_task_nodes ev rest }) (\<lambda>_ k. k = - int (length (tt_p # rest)))"
    by (rule settles_bind [where R' = "\<lambda>_ k. k = -1"], rule settles_sys) (auto intro!: settles_mono [OF Cons.IH])
  then show ?case
    unfolding cleanup_task_nodes.simps
    by (intro settles_after_quiet [OF quiet_rules(6)] settles_after_quiet [OF quiet_close]
        settles_after_quiet [OF only_sys [THEN only_imp_only_g], where f = "\<lambda>_. State_Monad.bind _ _"]) (simp_all add: no_tt_def)
qed (simp add: settles_return)

lemma finish_frees:
  "settles (finish ev (e, ctx)) (\<lambda>r k. k = - int (length (cx_tt_list ctx)) \<and>
     r = Some (if e = TT_SUCCESS then EXIT_SUCCESS else EXIT_FAILURE))"
proof -
  have comm: "only_g no_tt (cleanup_communication ctx)" for ctx
    unfolding cleanup_communication_def by (intro only_g_rules) simp_all
  have hyper: "only_g no_tt (cleanup_hyperperiod ctx)" for ctx
    unfolding cleanup_hyperperiod_def by (intro only_g_rules) (simp_all add: no_tt_def)
  have tasks: "settles (cleanup_tasks ev ctx) (\<lambda>_ k. k = - int (length (cx_tt_list ctx)))"
    unfolding cleanup_tasks_def
    by (rule settles_bind [OF cleanup_nodes_free]) (auto intro!: settles_after_quiet [OF quiet_destroy] settles_return)
  have "settles (cleanup_context ev (Some ctx)) (\<lambda>_ k. k = - int (length (cx_tt_list ctx)))"
    unfolding cleanup_context_def cleanup_bpf_trace_def option.case
    by (rule settles_bind [OF tasks])
      (auto intro!: settles_after_quiet [OF comm] settles_after_quiet [OF hyper] settles_after_quiet [OF quiet_rules(8)] settles_return)
  then show ?thesis
    unfolding finish_def fst_conv snd_conv by (rule settles_bind) (simp add: settles_return)
qed

lemma conf_settles:
  "settles (parse_config args zero_context) (\<lambda>r k. k = 0 \<and> cx_tt_list (snd r) = [] \<and> cx_shutdown_requested (snd r) = 0)"
proof (rule settles_quiet)
  show "only_g no_tt (parse_config args zero_context)"
    by (auto simp: parse_config_def validate_config_def tt_set_log_level_def Let_def split: prod.split bool.split
      intro!: only_g_rules)
qed (auto simp: parse_config_def config_set_defaults_def zero_context_def case_prod_beta Let_def split: prod.split bool.split)

lemma main_settles:
  "settles (main le ev fuel args) (\<lambda>r k. \<forall>code. r = Some code \<longrightarrow> k = 0 \<and> code \<in> {EXIT_SUCCESS, EXIT_FAILURE})"
proof -
  have run: "settles (do { r \<leftarrow> run fuel n ctx; (case r of None \<Rightarrow> return_io None | Some x \<Rightarrow> finish ev x) })
      (\<lambda>r k. \<forall>code. r = Some code \<longrightarrow> k = - int (length (cx_tt_list ctx)) \<and> code \<in> {EXIT_SUCCESS, EXIT_FAILURE})" for n ctx
    by (rule settles_bind [OF keeps_run])
      (auto split: option.split intro!: settles_return settles_mono [OF finish_frees])
  have init: "settles (do {
       r \<leftarrow> initialize le ev ctx;
       (case r of
          None \<Rightarrow> return_io None
        | Some (e, ctx1) \<Rightarrow>
            if e \<noteq> TT_SUCCESS then finish ev (e, ctx1)
            else do { r \<leftarrow> run fuel n ctx1; (case r of None \<Rightarrow> return_io None | Some x \<Rightarrow> finish ev x) }) })
      (\<lambda>r k. \<forall>code. cx_tt_list ctx = [] \<longrightarrow> r = Some code \<longrightarrow> k = 0 \<and> code \<in> {EXIT_SUCCESS, EXIT_FAILURE})" for n ctx
    by (rule settles_bind [OF keeps_initialize])
      (auto split: option.split intro!: settles_return settles_mono [OF finish_frees] settles_mono [OF run] simp: kept_def)
  show ?thesis
    unfolding main_def
    by (rule settles_bind [OF conf_settles])
      (auto intro!: settles_return settles_after_quiet [OF quiet_position(1)] settles_mono [OF init])
qed

section \<open>The exit code\<close>

text \<open>
  \<open>signalled S m n\<close>: if the result of \<open>m\<close> satisfies \<open>S\<close>, then a stop signal has been delivered between
  position \<open>n\<close> and the end of \<open>m\<close>.
\<close>

definition signalled :: "('a \<Rightarrow> bool) \<Rightarrow> 'a io \<Rightarrow> nat \<Rightarrow> bool" where
  "signalled S m n \<longleftrightarrow> only_g (\<lambda>c. True) m \<and>
     (\<forall>s. S (result m s) \<longrightarrow> n \<le> length (trace s) \<longrightarrow> stop_signal n (after m s))"

lemma stop_signal_mono:
  assumes "stop_signal n s" and "answers s' = answers s" and "trace s' = trace s @ cs" and "n' \<le> n"
  shows "stop_signal n' s'"
proof -
  have "set (delivered n s) \<subseteq> set (delivered n' s')"
    unfolding delivered_def assms(2,3) using assms(4) by (force simp: nth_append)
  then show ?thesis using assms(1) by (auto simp: stop_signal_def)
qed

lemma stop_signal_after: "only_g P m \<Longrightarrow> stop_signal n s \<Longrightarrow> n' \<le> n \<Longrightarrow> stop_signal n' (after m s)"
  by (rule stop_signal_mono) (simp_all add: only_g_env only_g_trace)

lemma settles_any: "settles m R \<Longrightarrow> only_g (\<lambda>c. True) m" "settles m R \<Longrightarrow> \<exists>k. R (result m s) k"
  by (auto simp: settles_def)

lemma signalled_return: "\<not> S x \<Longrightarrow> signalled S (return_io x) n"
  by (simp add: signalled_def tch.effect_return)

lemma signalled_after:
  assumes "settles m R" and "\<And>x k. R x k \<Longrightarrow> signalled S (f x) n" and "\<And>x. only_g (\<lambda>c. True) (f x)"
  shows "signalled S (State_Monad.bind m f) n"
  unfolding signalled_def
proof (intro conjI allI impI)
  fix s assume "S (result (State_Monad.bind m f) s)" and n: "n \<le> length (trace s)"
  then have "S (result (f (result m s)) (after m s))" by (simp add: case_prod_beta)
  moreover obtain k where "R (result m s) k" using settles_any(2) [OF assms(1)] by blast
  moreover have "n \<le> length (trace (after m s))" using n by (simp add: only_g_trace [OF settles_any(1) [OF assms(1)]])
  ultimately show "stop_signal n (after (State_Monad.bind m f) s)"
    using assms(2) by (fastforce simp: signalled_def case_prod_beta)
qed (intro tch.effect_bind settles_any(1) [OF assms(1)] assms(3))

lemma signalled_before:
  assumes "signalled S' m n" and "\<And>x. only_g (\<lambda>c. True) (f x)" and "\<And>x s. S (result (f x) s) \<Longrightarrow> S' x"
  shows "signalled S (State_Monad.bind m f) n"
  unfolding signalled_def
proof (intro conjI allI impI)
  fix s assume "S (result (State_Monad.bind m f) s)" and "n \<le> length (trace s)"
  then have "stop_signal n (after m s)" using assms(1,3) by (auto simp: signalled_def case_prod_beta)
  then have "stop_signal n (after (f (result m s)) (after m s))" by (rule stop_signal_after [OF assms(2)]) simp
  then show "stop_signal n (after (State_Monad.bind m f) s)" by (simp add: case_prod_beta)
qed (use assms(1,2) in \<open>auto simp: signalled_def intro: tch.effect_bind\<close>)

lemma rounds_signalled:
  assumes "result (epoll_rounds fuel efd n ctx) s = Some (TT_SUCCESS, ctx')" and "cx_shutdown_requested ctx = 0"
    and "k \<le> length (trace s)" and "k \<le> n"
  shows "stop_signal k (after (epoll_rounds fuel efd n ctx) s)"
  using assms
proof (induction fuel arbitrary: n ctx s)
  case (Suc fuel)
  let ?c = "Kern (Epoll_wait efd)" and ?w = "answers s (length (trace s)) (Kern (Epoll_wait efd))"
  let ?s1 = "s\<lparr>trace := trace s @ [?c]\<rparr>" and ?n1 = "length (trace s)"
  let ?ev = "epoll_event efd (out_fd ?w) ctx"
  show ?case
  proof (cases "stop_signal n s \<and> g_ctx (globals s)")
    case True
    then have "stop_signal k s" using Suc.prems(4) by (auto intro: stop_signal_mono [where cs = "[]" and s = s and n = n])
    with True show ?thesis by (simp add: run_handle_signals)
  next
    case False
    then have "run_state (handle_signals n ctx) s = (ctx, s)" by (auto simp: run_handle_signals)
    then have go: "run_state (epoll_rounds (Suc fuel) efd n ctx) s =
        (if ret ?w < 0 then if errno ?w = EINTR then run_state (epoll_rounds fuel efd ?n1 ctx) ?s1 else (Some (TT_ERROR_TIMER, ctx), ?s1)
         else run_state (epoll_rounds fuel efd ?n1 (result ?ev ?s1)) (after ?ev ?s1))"
      using Suc.prems(2) by (simp add: case_prod_beta)
    show ?thesis
    proof (cases "ret ?w < 0")
      case True
      with go Suc.prems(1) have eq: "run_state (epoll_rounds (Suc fuel) efd n ctx) s = run_state (epoll_rounds fuel efd ?n1 ctx) ?s1"
        by (simp split: if_splits)
      show ?thesis using Suc.IH [of ?n1 ctx ?s1] Suc.prems(1-3) unfolding eq by simp
    next
      case ev: False
      with go have eq: "run_state (epoll_rounds (Suc fuel) efd n ctx) s = run_state (epoll_rounds fuel efd ?n1 (result ?ev ?s1)) (after ?ev ?s1)"
        by simp
      have "k \<le> length (trace (after ?ev ?s1))" using Suc.prems(3) by (simp add: only_g_trace [OF quiet_event])
      then show ?thesis
        using Suc.IH [of ?n1 "result ?ev ?s1" "after ?ev ?s1"] Suc.prems(1-3) unfolding eq by simp
    qed
  qed
qed simp

abbreviation "stops r \<equiv> \<exists>ctx'. r = Some (TT_SUCCESS, ctx')"

lemma loop_signalled:
  assumes "cx_shutdown_requested ctx = 0" and "k \<le> n"
  shows "signalled stops (epoll_loop fuel n ctx) k"
proof -
  have r: "signalled stops (epoll_rounds fuel efd n ctx) k" for efd
    using rounds_signalled [OF _ assms(1) _ assms(2)] settles_any(1) [OF keeps_rounds] by (auto simp: signalled_def)
  have any: "settles m (\<lambda>_ _. True)" if "only_g no_tt m" for m :: "'x io" using that by (simp add: settles_quiet)
  have sys: "only_g P (sys c)" if "P c" for P c using that by (rule only_imp_only_g [OF only_sys])
  have close: "signalled stops (do { _ \<leftarrow> kern (Close fd); return_io (Some (TT_ERROR_TIMER, ctx)) }) k" for fd
    by (rule signalled_after [OF any [OF sys]]) (auto intro: signalled_return tch.effect_return simp: no_tt_def)
  have add: "only_g no_tt (epoll_add efd tts)" for efd tts
    by (rule quiet_of_only [OF only_epoll_add]) (auto simp: no_tt_def)
  have rounds: "signalled stops (do {
           r \<leftarrow> epoll_rounds fuel efd n ctx;
           (case r of None \<Rightarrow> return_io None | Some x \<Rightarrow> do { _ \<leftarrow> kern (Close efd); return_io (Some x) }) }) k" for efd
    by (rule signalled_before [OF r]) (auto intro!: only_g_rules split: option.splits)
  show ?thesis
    unfolding epoll_loop_def
    by (auto intro!: signalled_after [OF any [OF sys]] signalled_after [OF any [OF add]] signalled_return close rounds
        tch.effect_if tch.effect_bind tch.effect_return sys settles_any(1) [OF keeps_rounds] only_g_mono [OF add] simp: no_tt_def split: option.split)
qed

lemma run_signalled:
  assumes "cx_shutdown_requested ctx = 0" and "k \<le> n"
  shows "signalled stops (run fuel n ctx) k"
proof -
  note any = settles_any(1) [OF keeps_hyperperiod] settles_any(1) [OF keeps_loop] settles_any(1) [OF keeps_start_timers]
    tch.effect_if tch.effect_bind tch.effect_return tch.effect_prod
  have hyper: "signalled stops (do { (e, ctx3) \<leftarrow> start_hyperperiod_timer ctx;
       if e \<noteq> TT_SUCCESS then return_io (Some (TT_ERROR_TIMER, ctx3)) else epoll_loop fuel n ctx3 }) k"
    if "cx_shutdown_requested ctx = 0" for ctx
    by (rule signalled_after [OF keeps_hyperperiod])
      (use that assms(2) in \<open>auto intro!: signalled_return loop_signalled any simp: kept_def\<close>)
  have timers: "signalled stops (do { (e, ctx2) \<leftarrow> start_timers ctx;
       if e \<noteq> TT_SUCCESS then return_io (Some (TT_ERROR_TIMER, ctx2))
       else do { (e, ctx3) \<leftarrow> start_hyperperiod_timer ctx2;
         if e \<noteq> TT_SUCCESS then return_io (Some (TT_ERROR_TIMER, ctx3)) else epoll_loop fuel n ctx3 } }) k"
    if "cx_shutdown_requested ctx = 0" for ctx
    by (rule signalled_after [OF keeps_start_timers])
      (use that in \<open>auto intro!: signalled_return hyper any simp: kept_def\<close>)
  show ?thesis
    unfolding run_def
    by (rule signalled_after [OF keeps_sync])
      (use assms(1) in \<open>auto split: option.split intro!: signalled_return timers any simp: kept_def\<close>)
qed

lemma signalled_position:
  assumes "\<And>n. k \<le> n \<Longrightarrow> signalled S (f n) k" and "\<And>n. only_g (\<lambda>c. True) (f n)"
  shows "signalled S (State_Monad.bind position f) k"
  using assms by (auto simp: signalled_def intro!: tch.effect_bind only_g_mono [OF quiet_position(1)])

lemma finish_any: "only_g (\<lambda>c. True) (finish ev x)"
  using settles_any(1) [OF finish_frees [of ev "fst x" "snd x"]] by simp

lemma finish_success: "result (finish ev (e, ctx)) s = Some EXIT_SUCCESS \<Longrightarrow> e = TT_SUCCESS"
  using settles_any(2) [OF finish_frees [of ev e ctx], of s] by (auto simp: EXIT_SUCCESS_def EXIT_FAILURE_def split: if_splits)

lemma exit_codes [simp]: "EXIT_FAILURE \<noteq> EXIT_SUCCESS"
  by (simp add: EXIT_SUCCESS_def EXIT_FAILURE_def)

lemma main_signalled: "signalled (\<lambda>r. r = Some EXIT_SUCCESS) (main le ev fuel args) k"
proof -
  note any = finish_any settles_any(1) [OF keeps_run] settles_any(1) [OF keeps_initialize]
    tch.effect_if tch.effect_bind tch.effect_return tch.effect_prod only_g_mono [OF quiet_position(1)]
  have fail: "signalled (\<lambda>r. r = Some EXIT_SUCCESS) (finish ev (e, ctx)) k" if "e \<noteq> TT_SUCCESS" for e ctx
    using that finish_success [of ev e ctx] by (auto simp: signalled_def finish_any)
  have run: "signalled (\<lambda>r. r = Some EXIT_SUCCESS) (do { r \<leftarrow> run fuel n ctx;
        (case r of None \<Rightarrow> return_io None | Some x \<Rightarrow> finish ev x) }) k"
    if "cx_shutdown_requested ctx = 0" "k \<le> n" for n ctx
    by (rule signalled_before [OF run_signalled [OF that]])
      (auto intro!: any split: option.splits dest!: finish_success)
  have init: "signalled (\<lambda>r. r = Some EXIT_SUCCESS) (do {
       r \<leftarrow> initialize le ev ctx;
       (case r of
          None \<Rightarrow> return_io None
        | Some (e, ctx1) \<Rightarrow>
            if e \<noteq> TT_SUCCESS then finish ev (e, ctx1)
            else do { r \<leftarrow> run fuel n ctx1; (case r of None \<Rightarrow> return_io None | Some x \<Rightarrow> finish ev x) }) }) k"
    if "cx_shutdown_requested ctx = 0" "k \<le> n" for n ctx
    by (rule signalled_after [OF keeps_initialize])
      (use that in \<open>auto intro!: signalled_return run fail any split: option.splits simp: kept_def\<close>)
  show ?thesis
    unfolding main_def
    by (rule signalled_after [OF conf_settles])
      (auto intro!: signalled_return signalled_position init any split: option.splits)
qed

section \<open>The final release, call by call\<close>

text \<open>
  The calls that take one time trigger apart, the first of them at position \<open>n\<close>: the pid leaves the filter
  of the first kernel program, if that is loaded, and, if this works and the second program is in use,
  also the filter of the second.
\<close>

definition filter_release :: "bool \<Rightarrow> os \<Rightarrow> nat \<Rightarrow> int \<Rightarrow> call list" where
  "filter_release ev s n pid =
     (if \<not> loaded Sigwait_prog (globals s) then []
      else Bpf (Map_delete_elem Sigwait_prog pid) #
        (if ret (answers s n (Bpf (Map_delete_elem Sigwait_prog pid))) = 0 \<and> ev \<and> loaded Schedstat_prog (globals s)
         then [Bpf (Map_delete_elem Schedstat_prog pid)] else []))"

definition node_release :: "bool \<Rightarrow> os \<Rightarrow> nat \<Rightarrow> time_trigger \<Rightarrow> call list" where
  "node_release ev s n tt_p = filter_release ev s n (sint (ti_pid (tt_task tt_p))) @
     (if ti_pidfd (tt_task tt_p) \<ge> 0 then [Kern (Close (ti_pidfd (tt_task tt_p)))] else []) @
     [Kern (Timer_delete (tt_timer tt_p)), Kern (Free ''time_trigger'')]"

primrec nodes_release :: "bool \<Rightarrow> os \<Rightarrow> nat \<Rightarrow> time_trigger list \<Rightarrow> call list" where
  "nodes_release ev s n [] = []"
| "nodes_release ev s n (tt_p # rest) =
     node_release ev s n tt_p @ nodes_release ev s (n + length (node_release ev s n tt_p)) rest"

text \<open>The end of a kernel program: its thread is joined, its ring buffer and the program are given back.\<close>

definition prog_release :: "globals \<Rightarrow> prog \<Rightarrow> call list" where
  "prog_release g p = (if \<not> loaded p g then []
     else Kern (Pthread_join p) # (if has_rb p g then [Bpf (Ring_buffer_free p)] else []) @ [Bpf (Prog_destroy p)])"

definition release_calls :: "bool \<Rightarrow> os \<Rightarrow> tt_context \<Rightarrow> call list" where
  "release_calls ev s ctx = nodes_release ev s (length (trace s)) (cx_tt_list ctx) @
     replicate (length (si_tasks (cx_sched_info ctx))) (Kern (Free ''task_info'')) @
     (if cx_dbus ctx then [Bus Bus_unref] else []) @ (if cx_event ctx then [Bus Event_unref] else []) @
     (if hp_hyperperiod_us (cx_hp_manager ctx) > 0 then [Kern (Timer_delete (hp_hyperperiod_timer (cx_hp_manager ctx)))] else []) @
     prog_release (globals s) Sigwait_prog @ (if ev then prog_release (globals s) Schedstat_prog else [])"

lemma release_trace [simp]:
  "filter_release ev (s\<lparr>trace := t\<rparr>) = filter_release ev s" "node_release ev (s\<lparr>trace := t\<rparr>) = node_release ev s"
  "nodes_release ev (s\<lparr>trace := t\<rparr>) n tts = nodes_release ev s n tts"
proof -
  show f: "filter_release ev (s\<lparr>trace := t\<rparr>) = filter_release ev s" for t
    by (simp add: fun_eq_iff filter_release_def)
  show "node_release ev (s\<lparr>trace := t\<rparr>) = node_release ev s" for t
    by (simp add: fun_eq_iff node_release_def f)
  then show "nodes_release ev (s\<lparr>trace := t\<rparr>) n tts = nodes_release ev s n tts"
    by (induction tts arbitrary: n) simp_all
qed

lemma run_del_pid:
  "run_state (bpf_del_pid ev pid) s = (0, s\<lparr>trace := trace s @ filter_release ev s (length (trace s)) pid\<rparr>)"
  by (simp add: bpf_del_pid_def filter_release_def)

lemma run_cleanup_nodes:
  "run_state (cleanup_task_nodes ev tts) s = ((), s\<lparr>trace := trace s @ nodes_release ev s (length (trace s)) tts\<rparr>)"
proof (induction tts arbitrary: s)
  case (Cons tt_p rest)
  let ?s = "s\<lparr>trace := trace s @ node_release ev s (length (trace s)) tt_p\<rparr>"
  have "run_state (cleanup_task_nodes ev (tt_p # rest)) s = run_state (cleanup_task_nodes ev rest) ?s"
    by (simp add: run_del_pid node_release_def)
  then show ?case unfolding Cons.IH by simp
qed simp

lemma run_destroy:
  "run_state (destroy_task_info_list ts) s = ((), s\<lparr>trace := trace s @ replicate (length ts) (Kern (Free ''task_info''))\<rparr>)"
  by (induction ts arbitrary: s) simp_all

lemma run_stop_prog:
  "run_state (stop_prog p) s = ((), s\<lparr>trace := trace s @ prog_release (globals s) p,
     globals := (if loaded p (globals s) then set_loaded p False (if has_rb p (globals s)
       then set_rb p False (set_need_exit p (globals s)) else set_need_exit p (globals s)) else globals s)\<rparr>)"
  by (cases p) (simp_all add: stop_prog_def prog_release_def loaded_def has_rb_def set_loaded_def set_rb_def set_need_exit_def)

lemma calls_bpf_off:
  "calls (bpf_off ev) s = prog_release (globals s) Sigwait_prog @ (if ev then prog_release (globals s) Schedstat_prog else [])"
  by (simp add: bpf_off_def calls_def run_stop_prog)
    (simp add: prog_release_def loaded_def has_rb_def set_loaded_def set_rb_def set_need_exit_def)

section \<open>Properties\<close>

text \<open>
  C16. The final release makes exactly these calls: each time trigger, from the head of the
  list, has its pid removed from the filters of the kernel programs that are loaded (from the second only
  if the removal from the first succeeds), its pidfd closed if it is valid, its timer deleted and its memory
  freed, in this order; then the descriptions are freed, the connection and the event loop are dropped if
  they exist, and the hyperperiod timer is deleted if there is a hyperperiod; last, for each kernel program
  that is loaded, its reader thread is joined, its ring buffer freed and the program destroyed. The context is
  left without tasks and without connection.
\<close>

theorem cleanup_releases:
  "result (cleanup_context ev (Some ctx)) s =
     Some (ctx\<lparr>cx_tt_list := [], cx_sched_info := (cx_sched_info ctx)\<lparr>si_tasks := []\<rparr>, cx_dbus := False, cx_event := False\<rparr>) \<and>
   calls (cleanup_context ev (Some ctx)) s = release_calls ev s ctx"
proof
  show "result (cleanup_context ev (Some ctx)) s =
     Some (ctx\<lparr>cx_tt_list := [], cx_sched_info := (cx_sched_info ctx)\<lparr>si_tasks := []\<rparr>, cx_dbus := False, cx_event := False\<rparr>)"
    by (cases ctx) (simp add: cleanup_context_def cleanup_tasks_def cleanup_communication_def case_prod_beta)
  define t where "t = trace s @ nodes_release ev s (length (trace s)) (cx_tt_list ctx) @
     replicate (length (si_tasks (cx_sched_info ctx))) (Kern (Free ''task_info'')) @
     (if cx_dbus ctx then [Bus Bus_unref] else []) @ (if cx_event ctx then [Bus Event_unref] else []) @
     (if hp_hyperperiod_us (cx_hp_manager ctx) > 0 then [Kern (Timer_delete (hp_hyperperiod_timer (cx_hp_manager ctx)))] else [])"
  have "after (cleanup_context ev (Some ctx)) s = after (bpf_off ev) (s\<lparr>trace := t\<rparr>)"
    by (simp add: cleanup_context_def cleanup_tasks_def cleanup_communication_def cleanup_hyperperiod_def cleanup_bpf_trace_def
        run_cleanup_nodes run_destroy case_prod_beta t_def)
  also have "trace \<dots> = t @ calls (bpf_off ev) (s\<lparr>trace := t\<rparr>)"
    using only_g_trace [OF only_bpf_off, of ev "s\<lparr>trace := t\<rparr>"] by simp
  finally show "calls (cleanup_context ev (Some ctx)) s = release_calls ev s ctx"
    unfolding calls_def [of "cleanup_context ev (Some ctx)"] by (simp add: calls_bpf_off release_calls_def t_def)
qed

end
