(* ===== verification/Timpani_System.thy ===== *)
theory Timpani_System
  imports Orchestrator_Main Node_Main
begin

text \<open>
  Both programs together. The table of call-backs that the orchestrator gives to \<^verbatim>\<open>libtrpc\<close> is filled with the
  operations of its server (\<^verbatim>\<open>DBusServer::Start\<close> in \<^verbatim>\<open>dbus_server.cpp\<close>), so that the method handlers of \<^verbatim>\<open>peer_dbus.c\<close>
  can be run on the requests of the node agent. The lemmas follow a missed deadline from the timer of the
  task to the fault service, and the start of the timers of a node from the barrier in the
  orchestrator to the kernel.
\<close>

section \<open>The call-backs of the orchestrator\<close>

text \<open>
  The server has no state but the object \<open>sr\<close> while a call-back runs; the new state is that of
  \<open>SyncCallback_server\<close> or \<open>SchedInfoCallback\<close>. \<open>junk\<close> is what the time of the reply to a refused request holds.
\<close>

definition DMissCallback_io :: "server \<Rightarrow> fault_client \<Rightarrow> string \<Rightarrow> string \<Rightarrow> unit io" where
  "DMissCallback_io sr c name task = do {
     _ \<leftarrow> notify_fault_io (fst (DMissCallback name task sr)) c;
     return_io ()
   }"

definition SyncCallback_io :: "timespec \<Rightarrow> server \<Rightarrow> string \<Rightarrow> (int \<times> timespec) io" where
  "SyncCallback_io junk sr name =
     (if snd (fst (SyncCallback_server name junk sr)) = None then return_io (0, junk)
      else do {
        now \<leftarrow> kern (Clock_gettime CLOCK_REALTIME);
        return_io (case fst (SyncCallback_server name (out_ts now) sr) of (ack, None) \<Rightarrow> (ack, junk) | (ack, Some ts) \<Rightarrow> (ack, ts))
      })"

definition RegisterCallback :: "string \<Rightarrow> unit io" where
  "RegisterCallback name = return_io ()"

definition SchedInfoCallback_io :: "allocator \<Rightarrow> bool \<Rightarrow> server \<Rightarrow> string \<Rightarrow> byte list io" where
  "SchedInfoCallback_io alloc le sr name =
     return_io (case SchedInfoCallback alloc le sr of Some (Some bytes, _) \<Rightarrow> bytes | _ \<Rightarrow> [])"

definition trpc_ops :: "allocator \<Rightarrow> bool \<Rightarrow> timespec \<Rightarrow> server \<Rightarrow> fault_client \<Rightarrow> trpc_server_ops" where
  "trpc_ops alloc le junk sr c = \<lparr>register_cb = Some RegisterCallback, schedinfo_cb = Some (SchedInfoCallback_io alloc le sr),
     dmiss_cb = Some (DMissCallback_io sr c), sync_cb = Some (SyncCallback_io junk sr)\<rparr>"

section \<open>Replies\<close>

lemma callbacks_quiet:
  "only_g (\<lambda>c. \<not> is_reply c) (RegisterCallback name)" "only_g (\<lambda>c. \<not> is_reply c) (SchedInfoCallback_io alloc le sr name)"
  "only_g (\<lambda>c. \<not> is_reply c) (DMissCallback_io sr c name task)" "only_g (\<lambda>c. \<not> is_reply c) (SyncCallback_io junk sr name)"
  unfolding RegisterCallback_def SchedInfoCallback_io_def DMissCallback_io_def SyncCallback_io_def notify_fault_io_def
  by (intro only_g_rules only_sys [THEN only_imp_only_g]; simp)+

interpretation orchestrator: server_callbacks "Some (trpc_ops alloc le junk sr c)" for alloc le junk sr c
  by unfold_locales (simp add: ops_quiet_def trpc_ops_def callbacks_quiet)

text \<open>
  C40. Whatever the bus answers, and in whatever state the server is, the handlers of \<^verbatim>\<open>libtrpc\<close> with the
  call-backs of the orchestrator make exactly one reply call for every request of a node: a method
  return, the message with the schedule, or an error, never two and never none. (Whether the bus
  can send that reply is its own answer to the call.)
\<close>

theorem orchestrator_replies_once:
  "pred_option one_reply (trpc_vtable unset (Some (trpc_ops alloc le junk sr c)) method)"
  by (rule orchestrator.replies_once)

section \<open>From a miss to the fault service\<close>

fun is_fault :: "call \<Rightarrow> bool" where
  "is_fault (Grpc (Notify_fault w n t k)) = True"
| "is_fault _ = False"

text \<open>The bus hands the strings of a request to the handler.\<close>

definition delivers :: "os \<Rightarrow> string list \<Rightarrow> bool" where
  "delivers s args \<longleftrightarrow> 0 \<le> ret (answers s (length (trace s)) (Bus (Message_read ''ss''))) \<and>
     out_strings (answers s (length (trace s)) (Bus (Message_read ''ss''))) = args"

text \<open>
  The notifications that the requests among the calls of a node lead to: each is handled by the server in
  the world \<open>world args\<close>, which depends on the strings that it carries.
\<close>

primrec notified_call :: "trpc_server_ops \<Rightarrow> (string list \<Rightarrow> os) \<Rightarrow> call \<Rightarrow> call list" where
  "notified_call ops world (Kern k) = []"
| "notified_call ops world (Bpf p) = []"
| "notified_call ops world (Grpc g) = []"
| "notified_call ops world (Bus b) =
     (case b of
        Bus_call_method meth args \<Rightarrow>
          (case trpc_vtable (0, zero_ts) (Some ops) meth of
             None \<Rightarrow> []
           | Some handler \<Rightarrow> filter is_fault (calls handler (world args)))
      | _ \<Rightarrow> [])"

definition notified :: "trpc_server_ops \<Rightarrow> (string list \<Rightarrow> os) \<Rightarrow> call list \<Rightarrow> call list" where
  "notified ops world cs = concat (map (notified_call ops world) cs)"

lemma notified_requests: "notified ops world (filter is_request cs) = notified ops world cs"
proof -
  have "notified_call ops world c = []" if "\<not> is_request c" for c
    using that by (cases c) (auto split: bcall.split)
  then show ?thesis by (induction cs) (auto simp: notified_def)
qed

lemma visible_requests: "filter is_request cs = filter is_request (filter is_visible cs)"
proof -
  have "is_request c \<Longrightarrow> is_visible c" for c by (cases c rule: is_visible.cases) simp_all
  then show ?thesis by (induction cs) auto
qed

lemma dmiss_notified:
  assumes "delivers s [node, task]"
  shows "filter is_fault (calls (trpc_method_dmiss (Some (trpc_ops alloc le junk sr c))) s) =
    (let f = fst (DMissCallback node task sr) in
     if fc_initialized c then [Grpc (Notify_fault (fi_workload_id f) (fi_node_id f) (fi_task_name f) (fi_type f))] else [])"
  using assms
  by (auto simp: delivers_def trpc_method_dmiss_def trpc_ops_def DMissCallback_io_def notify_fault_io_def calls_def Let_def)

text \<open>The workload that a server names in a notification.\<close>

definition blamed :: "server \<Rightarrow> string \<Rightarrow> string \<Rightarrow> string" where
  "blamed sr node task = fi_workload_id (fst (DMissCallback node task sr))"

lemma expiry_notified:
  fixes s ctx tt_node
  defines "before \<equiv> out_ts (answers s (length (trace s)) (Kern (Clock_gettime (cfg_clockid (cx_config ctx)))))"
    and "node \<equiv> cfg_node_id (cx_config ctx)" and "task \<equiv> ti_name (tt_task tt_node)"
  assumes "tt_ctx tt_node" and "\<forall>args. delivers (world args) args"
  shows "notified (trpc_ops alloc le junk sr c) world (calls (timer_expired_handler (Some tt_node) ctx) s) =
    (if misses before tt_node \<and> fc_initialized c then [Grpc (Notify_fault (blamed sr node task) node task DMISS)] else [])"
proof -
  let ?cs = "calls (timer_expired_handler (Some tt_node) ctx) s"
  have "filter is_request ?cs = (if misses before tt_node then [Bus (Bus_call_method ''DMiss'' [node, task])] else [])"
    unfolding visible_requests [of ?cs] before_def node_def task_def
    by (simp add: timer_handler_run [OF assms(4), THEN conjunct2])
  then have "notified (trpc_ops alloc le junk sr c) world ?cs =
      (if misses before tt_node then filter is_fault (calls (trpc_method_dmiss (Some (trpc_ops alloc le junk sr c))) (world [node, task])) else [])"
    unfolding notified_requests [of _ _ ?cs, symmetric] by (simp add: notified_def trpc_vtable_def trpc_methods)
  moreover have "delivers (world [node, task]) [node, task]" using assms(5) by blast
  ultimately show ?thesis by (simp add: dmiss_notified blamed_def DMissCallback_def Let_def)
qed

lemma blamed_single:
  "length (schedules sr) \<le> 1 \<Longrightarrow> blamed sr node task = (if sr_attached sr \<and> schedules sr \<noteq> [] then fst (hd (schedules sr)) else [])"
  by (cases "schedules sr") (auto simp: blamed_def DMissCallback_def miss_workload_def GetSchedInfoMap_def Let_def)

text \<open>A time trigger that misses, and a bus that delivers.\<close>

definition sample_trigger :: time_trigger where
  "sample_trigger = zero_time_trigger\<lparr>tt_ctx := True, tt_sigwait_ts := 9, tt_task := zero_task_info\<lparr>ti_name := ''t'', ti_pidfd := 5\<rparr>\<rparr>"

definition sample_world :: "string list \<Rightarrow> os" where
  "sample_world args = os_of (\<lambda>c. answer0\<lparr>out_strings := args\<rparr>)"

lemma sample_delivers: "\<forall>args. delivers (sample_world args) args"
  by (simp add: delivers_def sample_world_def answer0_def)

lemma sample_trigger_misses: "tt_ctx sample_trigger" "misses ts sample_trigger" "ti_name (tt_task sample_trigger) = ''t''"
  by (simp_all add: sample_trigger_def misses_def zero_time_trigger_def)

text \<open>What the server holds after a request, whatever it held before.\<close>

lemma AddSchedInfo_holds:
  assumes "AddSchedInfo rnd srt mok request sv = Some (status, sv')" and "length (sv_sched_info_map sv) \<le> 1"
  shows "if status = 0 then map fst (sv_sched_info_map sv') = [rq_workload_id request] else sv_sched_info_map sv' = []"
proof -
  have "sv_sched_info_map (drop_workload sv) = []" by (auto simp: drop_workload_def split: list.split)
  then show ?thesis
    using assms(1) by (auto simp: AddSchedInfo_def Let_def case_prod_beta split: if_splits option.splits)
qed

definition sample_workload :: sched_request where
  "sample_workload = \<lparr>rq_workload_id = ''w'', rq_tasks =
     [\<lparr>gt_name = ''t'', gt_priority = 50, gt_policy = 1, gt_cpu_affinity = 0, gt_period = 3, gt_release_time = 0,
       gt_runtime = 2, gt_deadline = 3, gt_node_id = ''n2'', gt_max_dmiss = 3\<rparr>]\<rparr>"

lemma sample_workload_facts:
  "ConvertTaskInfoToTasks sample_workload = [convert_task ''w'' (hd (rq_tasks sample_workload))]"
  "workload_periods ''w'' (ConvertTaskInfoToTasks sample_workload) = {3}"
  "\<exists>t\<in>set (spec_tasks rnd (configured sample_manager) (ConvertTaskInfoToTasks sample_workload)). ot_assigned_node t \<noteq> []"
proof -
  show tasks: "ConvertTaskInfoToTasks sample_workload = [convert_task ''w'' (hd (rq_tasks sample_workload))]"
    by (simp add: ConvertTaskInfoToTasks_def sample_workload_def)
  then show "workload_periods ''w'' (ConvertTaskInfoToTasks sample_workload) = {3}"
    by (simp add: convert_task_def sample_workload_def)
  have "eligible (configured sample_manager) (convert_task ''w'' (hd (rq_tasks sample_workload)))"
    by (simp add: eligible_def convert_task_def sample_workload_def configured_def sample_manager_def sample_nodes_def omap_at_def)
  then show "\<exists>t\<in>set (spec_tasks rnd (configured sample_manager) (ConvertTaskInfoToTasks sample_workload)). ot_assigned_node t \<noteq> []"
    unfolding tasks by (auto simp: spec_tasks_def spec_place_def eligible_def split: option.split)
qed

text \<open>
  C35. A workload that replaces another takes the blame for it: after the server has answered a request, a miss of a task
  that a node still runs from an earlier schedule is notified under the name of the new workload,
  and with an empty name when the request was refused, whatever workload the task belongs to. (A unit test
  expects a second workload to be refused while one is kept; the code accepts it and drops the first.)
\<close>

theorem replaced_workload_blames_new:
  fixes s ctx tt_node
  defines "before \<equiv> out_ts (answers s (length (trace s)) (Kern (Clock_gettime (cfg_clockid (cx_config ctx)))))"
  assumes "reachable e m sr" and "sr_attached sr"
    and "AddSchedInfo (env_rnd e) (env_sort e) (env_malloc_ok e) request (sr_service sr) = Some (status, sv)"
    and "tt_ctx tt_node" and "misses before tt_node" and "\<forall>args. delivers (world args) args" and "fc_initialized c"
  shows "notified (trpc_ops alloc le junk (sr\<lparr>sr_service := sv\<rparr>) c) world (calls (timer_expired_handler (Some tt_node) ctx) s) =
    [Grpc (Notify_fault (if status = 0 then rq_workload_id request else [])
       (cfg_node_id (cx_config ctx)) (ti_name (tt_task tt_node)) DMISS)]"
proof -
  have len: "length (schedules sr) \<le> 1" using reachable_coherent [OF assms(2)] by (simp add: coherent_def)
  note holds = AddSchedInfo_holds [OF assms(4) len]
  then have "length (sv_sched_info_map sv) \<le> 1" by (auto dest: arg_cong [where f = length] split: if_splits)
  then have "blamed (sr\<lparr>sr_service := sv\<rparr>) node task = (if status = 0 then rq_workload_id request else [])" for node task
    using holds assms(3) blamed_single [of "sr\<lparr>sr_service := sv\<rparr>"] by (auto split: if_splits)
  then show ?thesis
    using assms(6,8) unfolding before_def by (simp add: expiry_notified [OF assms(5,7)])
qed

text \<open>The workload \<open>Apex.OS\<close> is kept when a second one arrives: one that is accepted takes the blame, after one that is refused nobody does.\<close>

lemma replaced_workload_blames_new_witness:
  "\<exists>sr sv sv'. reachable sample_environment (Some sample_manager) sr \<and> map fst (schedules sr) = [''Apex.OS''] \<and>
    AddSchedInfo (env_rnd sample_environment) (env_sort sample_environment) (env_malloc_ok sample_environment) sample_workload (sr_service sr) = Some (0, sv) \<and>
    notified (trpc_ops zero_alloc True zero_ts (sr\<lparr>sr_service := sv\<rparr>) \<lparr>fc_initialized = True\<rparr>) sample_world
      (calls (timer_expired_handler (Some sample_trigger) zero_context) (os_of (\<lambda>c. answer0))) =
      [Grpc (Notify_fault ''w'' (cfg_node_id (cx_config zero_context)) ''t'' DMISS)] \<and>
    AddSchedInfo (env_rnd sample_environment) (env_sort sample_environment) (env_malloc_ok sample_environment) \<lparr>rq_workload_id = ''v'', rq_tasks = []\<rparr> (sr_service sr) = Some (-1, sv') \<and>
    notified (trpc_ops zero_alloc True zero_ts (sr\<lparr>sr_service := sv'\<rparr>) \<lparr>fc_initialized = True\<rparr>) sample_world
      (calls (timer_expired_handler (Some sample_trigger) zero_context) (os_of (\<lambda>c. answer0))) =
      [Grpc (Notify_fault [] (cfg_node_id (cx_config zero_context)) ''t'' DMISS)]"
proof -
  let ?e = sample_environment
  let ?sr0 = "SetSchedInfoServer True (new_server (Some sample_manager))"
  have env: "env_rnd ?e = (\<lambda>x. x)" "env_sort ?e = (\<lambda>ts. ts)" "env_malloc_ok ?e = (\<lambda>n. True)" by (simp_all add: sample_environment_def)
  obtain sv1 where sv1: "AddSchedInfo (env_rnd ?e) (env_sort ?e) (env_malloc_ok ?e) (sample_request ''n'') (sr_service ?sr0) = Some (0, sv1)"
      "map fst (sv_sched_info_map sv1) = [''Apex.OS'']"
    by (simp add: env AddSchedInfo_def drop_workload_def sample_request_def SchedInfoServiceImpl_def
        apex_schedule_def new_server_def SetSchedInfoServer_def)
  define sr where "sr = ?sr0\<lparr>sr_service := sv1\<rparr>"
  have "server_step ?e (new_server (Some sample_manager)) ?sr0" "server_step ?e ?sr0 sr"
    unfolding sr_def using server_step.start server_step.add [OF sv1(1)] by blast+
  then have sr: "reachable ?e (Some sample_manager) sr" "sr_attached sr" "map fst (schedules sr) = [''Apex.OS'']"
    using sv1(2) unfolding reachable_def by (auto simp: sr_def SetSchedInfoServer_def)
  have m: "IsLoaded sample_manager" "omap_ok (ncm_nodes sample_manager)" "cpus_nonneg (configured sample_manager)"
    using sample_ready by (simp_all add: ready_def)
  have w: "rq_workload_id sample_workload = ''w''" by (simp add: sample_workload_def)
  have rq: "''w'' \<noteq> ''Apex.OS''" "workload_periods ''w'' (ConvertTaskInfoToTasks sample_workload) \<noteq> {}"
    "Lcm (workload_periods ''w'' (ConvertTaskInfoToTasks sample_workload)) < 2 ^ 64"
    unfolding sample_workload_facts(2) by simp_all
  obtain sv where sv: "AddSchedInfo (env_rnd ?e) (env_sort ?e) (env_malloc_ok ?e) sample_workload (sr_service sr) = Some (0, sv)"
    using AddSchedInfo_accepts [OF reachable_service_ok [OF sr(1)] m, of "env_malloc_ok ?e" sample_workload "env_rnd ?e",
        unfolded w, OF _ rq sample_workload_facts(3)] by (auto simp: env(3))
  obtain sv' where sv': "AddSchedInfo (env_rnd ?e) (env_sort ?e) (env_malloc_ok ?e) \<lparr>rq_workload_id = ''v'', rq_tasks = []\<rparr> (sr_service sr) = Some (-1, sv')"
    by (simp add: AddSchedInfo_def ConvertTaskInfoToTasks_def CalculateHyperperiod_def Let_def)
  note blame = replaced_workload_blames_new [OF sr(1,2) _ sample_trigger_misses(1,2) sample_delivers,
      of _ _ _ "\<lparr>fc_initialized = True\<rparr>" zero_alloc True zero_ts, unfolded sample_trigger_misses(3)]
  show ?thesis
    using sr(1,3) sv sv' blame [OF sv] blame [OF sv'] by (intro exI [of _ sr] exI [of _ sv] exI [of _ sv']) (simp add: w)
qed

section \<open>From the barrier to the timers\<close>

text \<open>The arguments of the reply to a request at the barrier, and a client that reads them.\<close>

definition reply_args :: "timespec \<Rightarrow> int \<times> timespec option \<Rightarrow> bus_arg list" where
  "reply_args junk r =
     (let ts = (case snd r of None \<Rightarrow> junk | Some ts \<Rightarrow> ts)
      in [Arg_bool (fst r), Arg_u64 (tv_sec ts), Arg_u64 (tv_nsec ts)])"

definition reads_reply :: "bus_arg list \<Rightarrow> answer \<Rightarrow> bool" where
  "reads_reply args a \<longleftrightarrow> args = [Arg_bool (out_ack a), Arg_u64 (tv_sec (out_ts a)), Arg_u64 (tv_nsec (out_ts a))]"

lemma reads_reply_args:
  "reads_reply (reply_args junk r) a \<Longrightarrow> out_ack a = fst r \<and> (\<forall>ts. snd r = Some ts \<longrightarrow> out_ts a = ts)"
  by (cases "out_ts a") (auto simp: reads_reply_def reply_args_def Let_def timespec.expand split: option.splits)

text \<open>The reply of the method handler is that of the operation on the server.\<close>

lemma SyncCallback_server_cases:
  "fst (SyncCallback_server name now sr) = (0, None) \<and> fst (SyncCallback_server name now' sr) = (0, None) \<or>
   fst (SyncCallback_server name now sr) = (1, Some (Timespec (tv_sec now + 1) (tv_nsec now))) \<and>
   fst (SyncCallback_server name now' sr) = (1, Some (Timespec (tv_sec now' + 1) (tv_nsec now')))"
  by (simp add: SyncCallback_server_def SyncCallback_def Let_def)

lemma sync_handler_reply:
  fixes s
  defines "m \<equiv> answers s (length (trace s)) (Bus (Message_read ''s''))"
    and "now \<equiv> out_ts (answers s (Suc (length (trace s))) (Kern (Clock_gettime CLOCK_REALTIME)))"
  assumes "0 \<le> ret m" and "out_strings m = [name]"
  shows "filter is_reply (calls (trpc_method_sync u (Some (trpc_ops alloc le junk sr c))) s) =
    [Bus (Reply_method_return (reply_args junk (fst (SyncCallback_server name now sr))))]"
  using assms(3,4) SyncCallback_server_cases [of name now sr junk]
  by (auto simp: m_def now_def trpc_method_sync_def trpc_ops_def SyncCallback_io_def calls_def reply_args_def Let_def)

text \<open>The settings of the timers among the calls.\<close>

fun setting :: "call \<Rightarrow> itimerspec option" where
  "setting (Kern (Timer_settime t absolute its)) = (if absolute then Some its else None)"
| "setting _ = None"

definition timers_work :: "os \<Rightarrow> bool" where
  "timers_work s \<longleftrightarrow> (\<forall>n clk e. ret (answers s n (Kern (Timer_create clk e))) = 0) \<and>
     (\<forall>n t a its. ret (answers s n (Kern (Timer_settime t a its))) = 0)"

lemma timers_work_answers: "answers s' = answers s \<Longrightarrow> timers_work s' = timers_work s"
  by (simp add: timers_work_def)

lemma arm_timers_settings:
  assumes "timers_work s"
  shows "List.map_filter setting (calls (arm_timers clk start i tts) s) = map (\<lambda>n. task_its start (ti_period (tt_task n))) tts"
  using assms
proof (induction tts arbitrary: i s)
  case (Cons n tts)
  let ?c = "Kern (Timer_create clk (Notify_timer_expired i))"
  let ?d = "Kern (Timer_settime (out_timer (answers s (length (trace s)) ?c)) True (task_its start (ti_period (tt_task n))))"
  let ?s = "s\<lparr>trace := trace s @ [?c, ?d]\<rparr>"
  have run: "after (arm_timers clk start i (n # tts)) s = after (arm_timers clk start (i + 1) tts) ?s"
    using Cons.prems by (simp add: timers_work_def case_prod_beta Let_def)
  have "calls (arm_timers clk start i (n # tts)) s = [?c, ?d] @ calls (arm_timers clk start (i + 1) tts) ?s"
    using only_g_trace [OF only_imp_only_g [OF only_arm_timers], of clk start "i + 1" tts ?s]
    unfolding calls_def [of "arm_timers clk start i (n # tts)"] run by simp
  moreover have "timers_work ?s" using Cons.prems by (simp add: timers_work_def)
  ultimately show ?case using Cons.IH [of ?s "i + 1"] by (simp add: List.map_filter_def)
qed (simp add: List.map_filter_def)

lemma start_timers_settings:
  assumes "timers_work s" and "cfg_enable_sync (cx_config ctx)"
  shows "List.map_filter setting (calls (start_timers ctx) s) =
    map (\<lambda>n. task_its (cx_starttimer_ts ctx) (ti_period (tt_task n))) (cx_tt_list ctx)"
proof -
  have "calls (start_timers ctx) s = calls (arm_timers (cfg_clockid (cx_config ctx)) (cx_starttimer_ts ctx) 0 (cx_tt_list ctx)) s"
    using assms(2) by (simp add: calls_def start_timers_run first_start_def clock_calls_def Let_def)
  then show ?thesis by (simp add: arm_timers_settings [OF assms(1)])
qed

text \<open>
  The requests of a node at the barrier: request number \<open>j\<close> of the node is at position \<open>p j\<close> of the requests that
  the server handles, succeeds, and the node reads the reply to it.
\<close>

definition polls ::
  "string list \<Rightarrow> (string \<times> timespec) list \<Rightarrow> (nat \<Rightarrow> nat) \<Rightarrow> nat \<Rightarrow> string \<Rightarrow> os \<Rightarrow> bool" where
  "polls nodes rs p k node s \<longleftrightarrow> (\<forall>j\<le>k. p j < length rs \<and> fst (rs ! p j) = node \<and>
     sync_ok s node (length (trace s) + 5 * j) \<and>
     (\<exists>junk. reads_reply (reply_args junk (fst (sync_requests nodes rs []) ! p j)) (sync_reply s (length (trace s) + 5 * j))))"

text \<open>Every node has asked by request \<open>i\<close>.\<close>

definition all_asked :: "string list \<Rightarrow> (string \<times> timespec) list \<Rightarrow> nat \<Rightarrow> bool" where
  "all_asked nodes rs i \<longleftrightarrow> set nodes \<subseteq> fst ` set (take (Suc i) rs)"

definition one_second_after :: "timespec \<Rightarrow> timespec" where
  "one_second_after ts = Timespec (tv_sec ts + 1) (tv_nsec ts)"

lemma polls_reply:
  assumes "polls nodes rs p k node s" and "nodes \<noteq> []" and "node \<in> set nodes" and "j \<le> k"
  defines "a \<equiv> sync_reply s (length (trace s) + 5 * j)"
  shows "if all_asked nodes rs (p j) then out_ack a = 1 \<and> out_ts a = one_second_after (snd (rs ! p j)) else out_ack a = 0"
proof -
  from assms(1,4) obtain junk where i: "p j < length rs" "fst (rs ! p j) = node"
    and r: "reads_reply (reply_args junk (fst (sync_requests nodes rs []) ! p j)) a"
    unfolding polls_def a_def by blast
  from reads_reply_args [OF r] sync_requests_nth [OF assms(2) i(1), of "[]" "{}"] i(2) assms(3)
  show ?thesis by (simp add: all_asked_def one_second_after_def)
qed

lemma polls_sync:
  assumes "polls nodes rs p k (cfg_node_id (cx_config ctx)) s" and "nodes \<noteq> []" and "cfg_node_id (cx_config ctx) \<in> set nodes"
    and "\<forall>j\<le>k. all_asked nodes rs (p j) \<longleftrightarrow> j = k" and "k < fuel" and "cfg_enable_sync (cx_config ctx)"
  shows "result (sync_timer_with_server fuel ctx) s =
    Some (TT_SUCCESS, ctx\<lparr>cx_starttimer_ts := one_second_after (snd (rs ! p k))\<rparr>)"
proof -
  note reply = polls_reply [OF assms(1-3)]
  have ok: "\<forall>j\<le>k. sync_ok s (cfg_node_id (cx_config ctx)) (length (trace s) + 5 * j)" using assms(1) by (auto simp: polls_def)
  have wait: "\<forall>j<k. out_ack (sync_reply s (length (trace s) + 5 * j)) = 0"
    using reply assms(4) by (metis less_imp_le_nat less_irrefl_nat)
  have go: "out_ack (sync_reply s (length (trace s) + 5 * k)) = 1 \<and>
      out_ts (sync_reply s (length (trace s) + 5 * k)) = one_second_after (snd (rs ! p k))"
    using reply [of k] assms(4) by simp
  with sync_loop [OF ok wait _ assms(5)] assms(6) show ?thesis
    by (simp add: sync_timer_with_server_def case_prod_beta)
qed

lemma run_start:
  assumes "result (sync_timer_with_server fuel ctx) s = Some (TT_SUCCESS, ctx1)"
  shows "\<exists>rest. calls (run fuel n ctx) s =
    calls (sync_timer_with_server fuel ctx) s @ calls (start_timers ctx1) (after (sync_timer_with_server fuel ctx) s) @ rest"
proof -
  note any = settles_any(1) [OF keeps_sync] settles_any(1) [OF keeps_start_timers] settles_any(1) [OF keeps_hyperperiod]
    settles_any(1) [OF keeps_loop]
  define loop where "loop = (\<lambda>(e, ctx2). if e \<noteq> TT_SUCCESS then return_io (Some (TT_ERROR_TIMER, ctx2))
     else do { (e, ctx3) \<leftarrow> start_hyperperiod_timer ctx2;
       if e \<noteq> TT_SUCCESS then return_io (Some (TT_ERROR_TIMER, ctx3)) else epoll_loop fuel n ctx3 })"
  define go where "go = (\<lambda>r. case r of None \<Rightarrow> return_io None
     | Some (e, c) \<Rightarrow> if e \<noteq> TT_SUCCESS then return_io (Some (TT_ERROR_NETWORK, c)) else State_Monad.bind (start_timers c) loop)"
  have loop: "only_g (\<lambda>c. True) (loop x)" for x
    unfolding loop_def by (intro only_g_rules any)
  then have go: "only_g (\<lambda>c. True) (go r)" for r
    unfolding go_def by (intro only_g_rules any)
  have run: "run fuel n ctx = State_Monad.bind (sync_timer_with_server fuel ctx) go"
    unfolding run_def go_def loop_def ..
  have "go (Some (TT_SUCCESS, ctx1)) = State_Monad.bind (start_timers ctx1) loop" by (simp add: go_def)
  then show ?thesis
    unfolding run calls_bind [OF any(1) go] assms by (simp add: calls_bind [OF any(2) loop])
qed

text \<open>
  C7. The start of a node, from the barrier to its timers: with synchronisation enabled, a node of the schedule polls
  until every node has asked; it then arms one absolute timer for each of its tasks, with the
  task's period, and the first expiration of all of them is one second after the time of the
  node's own acknowledged request.
\<close>

theorem barrier_start:
  assumes "cfg_enable_sync (cx_config ctx)" and "nodes \<noteq> []" and "cfg_node_id (cx_config ctx) \<in> set nodes"
    and "polls nodes rs p k (cfg_node_id (cx_config ctx)) s" and "\<forall>j\<le>k. all_asked nodes rs (p j) \<longleftrightarrow> j = k"
    and "k < fuel" and "timers_work s"
  shows "\<exists>armed rest. calls (run fuel n ctx) s = calls (sync_timer_with_server fuel ctx) s @ armed @ rest \<and>
    List.map_filter setting armed =
      map (\<lambda>t. task_its (one_second_after (snd (rs ! p k))) (ti_period (tt_task t))) (cx_tt_list ctx)"
proof -
  let ?ctx = "ctx\<lparr>cx_starttimer_ts := one_second_after (snd (rs ! p k))\<rparr>"
  note sync = polls_sync [OF assms(4,2,3,5,6,1)]
  let ?s = "after (sync_timer_with_server fuel ctx) s"
  have "answers ?s = answers s" using only_g_env [OF settles_any(1) [OF keeps_sync]] by blast
  then have "timers_work ?s" using assms(7) timers_work_answers by blast
  from start_timers_settings [OF this, of ?ctx] assms(1) run_start [OF sync] show ?thesis by fastforce
qed

text \<open>Two nodes, the first of which asks twice, and the replies that the node with the given name reads.\<close>

definition two_nodes :: "(string \<times> timespec) list" where
  "two_nodes = [(''a'', Timespec 1 0), (''b'', Timespec 3 0), (''a'', Timespec 4 0)]"

definition node_ctx :: "string \<Rightarrow> tt_context" where
  "node_ctx name = zero_context\<lparr>cx_config := (cx_config zero_context)\<lparr>cfg_enable_sync := True, cfg_node_id := name\<rparr>,
     cx_tt_list := [zero_time_trigger]\<rparr>"

definition node_world :: "nat \<Rightarrow> timespec \<Rightarrow> os" where
  "node_world k ts = \<lparr>answers = \<lambda>n c. answer0\<lparr>out_ack := (if n < 5 * k then 0 else 1), out_ts := ts\<rparr>,
     heap = zero_alloc, trace = [], globals = globals0\<rparr>"

lemma node_world_replies:
  "sync_ok (node_world k ts) node n" "out_ack (answers (node_world k ts) n c) = (if n < 5 * k then 0 else 1)"
  "out_ts (answers (node_world k ts) n c) = ts" "trace (node_world k ts) = []" "timers_work (node_world k ts)"
  by (simp_all add: node_world_def sync_ok_def timers_work_def answer0_def)

lemma two_nodes_replies:
  "fst (sync_requests [''a'', ''b''] two_nodes []) = [(0, None), (1, Some (Timespec 4 0)), (1, Some (Timespec 5 0))]"
  by (simp add: two_nodes_def SyncCallback_def)

lemma two_nodes_poll:
  "polls [''a'', ''b''] two_nodes (\<lambda>j. 2 * j) 1 ''a'' (node_world 1 (Timespec 5 0))"
  "polls [''a'', ''b''] two_nodes (\<lambda>j. 1) 0 ''b'' (node_world 0 (Timespec 4 0))"
  unfolding polls_def two_nodes_replies
  by (auto simp: le_Suc_eq node_world_replies two_nodes_def reads_reply_def reply_args_def numeral_2_eq_2
      intro: exI [of _ "Timespec 5 0"])

lemma barrier_start_witness:
  "(\<exists>armed rest. calls (run 9 0 (node_ctx ''a'')) (node_world 1 (Timespec 5 0)) =
      calls (sync_timer_with_server 9 (node_ctx ''a'')) (node_world 1 (Timespec 5 0)) @ armed @ rest \<and>
      List.map_filter setting armed = [task_its (Timespec 5 0) 0]) \<and>
   (\<exists>armed rest. calls (run 9 0 (node_ctx ''b'')) (node_world 0 (Timespec 4 0)) =
      calls (sync_timer_with_server 9 (node_ctx ''b'')) (node_world 0 (Timespec 4 0)) @ armed @ rest \<and>
      List.map_filter setting armed = [task_its (Timespec 4 0) 0])"
proof -
  have ctx: "cfg_enable_sync (cx_config (node_ctx x))" "cfg_node_id (cx_config (node_ctx x)) = x"
      "cx_tt_list (node_ctx x) = [zero_time_trigger]" for x
    by (simp_all add: node_ctx_def)
  have period: "ti_period (tt_task zero_time_trigger) = 0" by (simp add: zero_time_trigger_def zero_task_info_def)
  have start: "one_second_after (snd (two_nodes ! 2)) = Timespec 5 0" "one_second_after (snd (two_nodes ! 1)) = Timespec 4 0"
    by (simp_all add: two_nodes_def one_second_after_def)
  have done_a: "\<forall>j\<le>1. all_asked [''a'', ''b''] two_nodes (2 * j) \<longleftrightarrow> j = 1" and done_b: "all_asked [''a'', ''b''] two_nodes 1"
    by (auto simp: all_asked_def two_nodes_def le_Suc_eq numeral_2_eq_2)
  show ?thesis
    using barrier_start [of "node_ctx ''a''" "[''a'', ''b'']" two_nodes "\<lambda>j. 2 * j" 1 "node_world 1 (Timespec 5 0)" 9 0]
      barrier_start [of "node_ctx ''b''" "[''a'', ''b'']" two_nodes "\<lambda>j. 1" 0 "node_world 0 (Timespec 4 0)" 9 0]
      two_nodes_poll done_a done_b
    by (simp add: ctx node_world_replies start start [unfolded One_nat_def] period)
qed

end
