(* ===== verification/System_Runs.thy ===== *)
theory System_Runs
  imports Timpani_System
begin

text \<open>
  Runs of the whole system: the server of the orchestrator and any number of node agents, with the steps of both
  in any order. An agent fetches the schedule, builds its task list, records the events of the kernel and
  handles the expiry of its timers; meanwhile workloads arrive, nodes ask at the barrier and the server is
  attached or detached. The invariant relates what an agent holds to what the server holds as long as no
  request has come in between; with it, a notification of the fault service is true: it names the workload, the
  node and the task that missed.
\<close>

section \<open>The system\<close>

text \<open>
  An agent is the context of its process, with the number of requests that the server had answered when it fetched its
  schedule; the system counts them.
\<close>

record agent =
  ag_ctx :: tt_context
  ag_round :: nat

record system =
  sys_server :: server
  sys_agents :: "string \<Rightarrow> agent option"
  sys_round :: nat

abbreviation put_agent :: "string \<Rightarrow> agent \<Rightarrow> system \<Rightarrow> system" where
  "put_agent node ag sy \<equiv> sy\<lparr>sys_agents := (sys_agents sy)(node \<mapsto> ag)\<rparr>"

inductive system_step :: "environment \<Rightarrow> system \<Rightarrow> system \<Rightarrow> bool" for e where
  request: "AddSchedInfo (env_rnd e) (env_sort e) (env_malloc_ok e) rq (sr_service (sys_server sy)) = Some (status, sv) \<Longrightarrow>
    system_step e sy (sy\<lparr>sys_server := (sys_server sy)\<lparr>sr_service := sv\<rparr>, sys_round := sys_round sy + 1\<rparr>)"
| barrier: "SyncCallback_server name now (sys_server sy) = (r, sr) \<Longrightarrow> system_step e sy (sy\<lparr>sys_server := sr\<rparr>)"
| attach: "system_step e sy (sy\<lparr>sys_server := SetSchedInfoServer True (sys_server sy)\<rparr>)"
| detach: "system_step e sy (sy\<lparr>sys_server := SetSchedInfoServer False (FreeSchedInfoBuf (sys_server sy))\<rparr>)"
| fetch: "SchedInfoCallback (env_alloc e) (env_le e) (sys_server sy) = Some (Some bytes, sr) \<Longrightarrow>
    length bytes < 2 ^ 32 \<Longrightarrow> plenty (heap s) \<Longrightarrow> calloc_ok s \<Longrightarrow> bus_delivers s (cfg_node_id (cx_config ctx)) bytes \<Longrightarrow>
    cx_tt_list ctx = [] \<Longrightarrow> result (get_sched_info le ctx) s = Some (0, ctx') \<Longrightarrow>
    system_step e sy (put_agent (cfg_node_id (cx_config ctx)) \<lparr>ag_ctx = ctx', ag_round = sys_round sy\<rparr> (sy\<lparr>sys_server := sr\<rparr>))"
| build: "sys_agents sy node = Some ag \<Longrightarrow> result (init_task_list ev (ag_ctx ag)) s = (r, ctx') \<Longrightarrow>
    system_step e sy (put_agent node (ag\<lparr>ag_ctx := ctx'\<rparr>) sy)"
| event: "sys_agents sy node = Some ag \<Longrightarrow> result (handle_sigwait_bpf_event (Some (ag_ctx ag)) data len) s = (r, Some ctx') \<Longrightarrow>
    system_step e sy (put_agent node (ag\<lparr>ag_ctx := ctx'\<rparr>) sy)"
| expiry: "sys_agents sy node = Some ag \<Longrightarrow> i < length (cx_tt_list (ag_ctx ag)) \<Longrightarrow>
    result (timer_expired_handler (Some (cx_tt_list (ag_ctx ag) ! i)) (ag_ctx ag)) s = (Some tt, ctx') \<Longrightarrow>
    system_step e sy (put_agent node (ag\<lparr>ag_ctx := ctx'\<lparr>cx_tt_list := (cx_tt_list ctx')[i := tt]\<rparr>\<rparr>) sy)"
| quit: "system_step e sy (sy\<lparr>sys_agents := (sys_agents sy)(node := None)\<rparr>)"

definition system_start :: "node_config_manager option \<Rightarrow> system" where
  "system_start m = \<lparr>sys_server = new_server m, sys_agents = (\<lambda>_. None), sys_round = 0\<rparr>"

definition system_reachable :: "environment \<Rightarrow> node_config_manager option \<Rightarrow> system \<Rightarrow> bool" where
  "system_reachable e m sy \<longleftrightarrow> (system_step e)\<^sup>*\<^sup>* (system_start m) sy"

lemma system_reachable_start: "system_reachable e m (system_start m)"
  by (simp add: system_reachable_def)

lemma system_reachable_step: "system_reachable e m sy \<Longrightarrow> system_step e sy sy' \<Longrightarrow> system_reachable e m sy'"
  unfolding system_reachable_def by (rule rtranclp.rtrancl_into_rtrancl)

section \<open>What an agent holds\<close>

text \<open>The time triggers belong to tasks of the schedule for this node.\<close>

definition runs_tasks :: "string \<Rightarrow> task_info list \<Rightarrow> time_trigger list \<Rightarrow> bool" where
  "runs_tasks node ts tts \<longleftrightarrow> (\<forall>tt\<in>set tts. tt_ctx tt \<and>
     (\<exists>t\<in>set ts. ti_name t = ti_name (tt_task tt) \<and> cstr (ti_node_id t) = cstr node))"

definition holds_current :: "server \<Rightarrow> sched_info \<Rightarrow> bool" where
  "holds_current sr si \<longleftrightarrow> (\<exists>w nodes. schedules sr = [(w, nodes)] \<and> si_workload_id si = take 63 (cstr w) \<and>
     si_tasks si = map node_task (concat (map snd nodes)))"

definition agent_ok :: "server \<Rightarrow> nat \<Rightarrow> string \<Rightarrow> agent \<Rightarrow> bool" where
  "agent_ok sr n node ag \<longleftrightarrow> cfg_node_id (cx_config (ag_ctx ag)) = node \<and> ag_round ag \<le> n \<and>
     runs_tasks node (si_tasks (cx_sched_info (ag_ctx ag))) (cx_tt_list (ag_ctx ag)) \<and>
     (ag_round ag = n \<longrightarrow> holds_current sr (cx_sched_info (ag_ctx ag)))"

definition system_ok :: "environment \<Rightarrow> system \<Rightarrow> bool" where
  "system_ok e sy \<longleftrightarrow> coherent e (sys_server sy) \<and>
     (\<forall>node ag. sys_agents sy node = Some ag \<longrightarrow> agent_ok (sys_server sy) (sys_round sy) node ag)"

text \<open>The steps of an agent keep its node, its schedule and what its triggers belong to.\<close>

definition agent_evolves :: "tt_context \<Rightarrow> tt_context \<Rightarrow> bool" where
  "agent_evolves ctx ctx' \<longleftrightarrow> cx_config ctx' = cx_config ctx \<and> cx_sched_info ctx' = cx_sched_info ctx \<and>
     (runs_tasks (cfg_node_id (cx_config ctx)) (si_tasks (cx_sched_info ctx)) (cx_tt_list ctx) \<longrightarrow>
      runs_tasks (cfg_node_id (cx_config ctx)) (si_tasks (cx_sched_info ctx)) (cx_tt_list ctx'))"

lemma setup_evolves:
  assumes "result (init_task_list ev ctx) s = (r, ctx')"
  shows "agent_evolves ctx ctx'"
proof -
  let ?node = "cfg_node_id (cx_config ctx)" and ?ts = "si_tasks (cx_sched_info ctx)"
  obtain ts pfs where post: "subseq ts (filter (\<lambda>t. cstr ?node = cstr (ti_node_id t)) ?ts)"
      "result (init_tasks ev ?ts ctx 0) s = (add_nodes (map2 node_for ts pfs) ctx, length pfs)"
    using init_tasks_post [of ctx ?ts 0 ev s] unfolding tasks_post_def by auto
  let ?ns = "map2 node_for ts pfs"
  have ctx': "ctx' = add_nodes ?ns ctx"
    using assms post(2) by (auto simp: init_task_list_def case_prod_beta split: if_splits)
  have "tt_ctx n \<and> (\<exists>t\<in>set ?ts. ti_name t = ti_name (tt_task n) \<and> cstr (ti_node_id t) = cstr ?node)" if "n \<in> set ?ns" for n
  proof -
    from that obtain t pf where t: "t \<in> set ts" "n = node_for t pf" by (auto dest: set_zip_leftD)
    then have "tt_ctx n" "ti_name (tt_task n) = ti_name t" by (simp_all add: node_for_def)
    moreover have "t \<in> set (filter (\<lambda>t. cstr ?node = cstr (ti_node_id t)) ?ts)"
      by (rule list_emb_set [OF post(1) t(1)]) simp
    ultimately show ?thesis by auto
  qed
  then show ?thesis by (auto simp: agent_evolves_def ctx' add_nodes_def runs_tasks_def)
qed

lemma record_sigwait_mem:
  "tt' \<in> set (record_sigwait ts e ns) \<Longrightarrow> \<exists>tt\<in>set ns. tt_task tt' = tt_task tt \<and> tt_ctx tt' = tt_ctx tt"
  by (induction ns) (auto split: if_splits)

lemma event_evolves:
  assumes "result (handle_sigwait_bpf_event (Some ctx) data len) s = (r, Some ctx')"
  shows "agent_evolves ctx ctx'"
  using assms record_sigwait_mem
  by (fastforce simp: handle_sigwait_bpf_event_def agent_evolves_def runs_tasks_def split: option.splits if_splits)

lemma expiry_evolves:
  assumes "i < length (cx_tt_list ctx)"
    and "result (timer_expired_handler (Some (cx_tt_list ctx ! i)) ctx) s = (Some tt, ctx')"
  shows "agent_evolves ctx (ctx'\<lparr>cx_tt_list := (cx_tt_list ctx')[i := tt]\<rparr>)"
proof (cases "tt_ctx (cx_tt_list ctx ! i)")
  case True
  have tt: "tt_task tt = tt_task (cx_tt_list ctx ! i)" "tt_ctx tt"
    and ctx': "ctx' = ctx \<or> ctx' = count_deadline_miss ctx"
    using timer_handler_run [OF True, of ctx s, THEN conjunct1] assms(2) True by (auto split: if_splits)
  then have c: "cx_config ctx' = cx_config ctx" "cx_sched_info ctx' = cx_sched_info ctx" "cx_tt_list ctx' = cx_tt_list ctx"
    by (auto simp: count_deadline_miss_def)
  have "cx_tt_list ctx ! i \<in> set (cx_tt_list ctx)" using assms(1) by simp
  with tt c show ?thesis
    by (auto simp: agent_evolves_def runs_tasks_def dest!: set_update_subset_insert [THEN subsetD])
next
  case False
  then have "tt = cx_tt_list ctx ! i" "ctx' = ctx" using assms(2) by (auto simp: timer_expired_handler_def)
  then show ?thesis by (simp add: agent_evolves_def)
qed

section \<open>The invariant\<close>

lemma length_enc_schedule: "length ts \<le> length (enc_schedule h w ts)"
proof -
  have "length ts \<le> length (concat (map enc_task ts))"
    by (induction ts) (auto simp: enc_task_def)
  then show ?thesis by (simp add: enc_schedule_def)
qed

lemma fetch_keeps_schedules:
  "SchedInfoCallback alloc le sr = Some (r, sr') \<Longrightarrow> schedules sr' = schedules sr"
  "SchedInfoCallback alloc le sr = Some (Some bytes, sr') \<Longrightarrow> sr_attached sr \<and> sr_attached sr'"
  by (auto simp: SchedInfoCallback_def GetSchedInfoMap_def FreeSchedInfoBuf_def SerializeSchedInfo_def Let_def
      split: if_splits option.splits)

text \<open>A fetch that succeeds leaves the agent with what the server holds.\<close>

lemma fetch_holds:
  assumes c: "coherent e sr" and "plenty (env_alloc e)"
    and f: "SchedInfoCallback (env_alloc e) (env_le e) sr = Some (Some bytes, sr')" and "length bytes < 2 ^ 32"
    and s: "plenty (heap s)" "calloc_ok s" and d: "bus_delivers s (cfg_node_id (cx_config ctx)) bytes"
    and g: "result (get_sched_info le ctx) s = Some (0, ctx')"
  shows "holds_current sr' (cx_sched_info ctx') \<and> cx_config ctx' = cx_config ctx \<and> cx_tt_list ctx' = cx_tt_list ctx"
proof -
  note att = fetch_keeps_schedules(2) [OF f, THEN conjunct1] and keep = fetch_keeps_schedules(1) [OF f]
  have "length (schedules sr) \<le> 1" using c by (simp add: coherent_def)
  with fetch_current [OF c assms(2) att] f obtain w nodes h where
    w: "schedules sr = [(w, nodes)]" "bytes = enc_schedule h (take 63 (cstr w)) (map node_task (concat (map snd nodes)))"
    by (cases "schedules sr") (auto split: list.splits)
  have "length (map node_task (concat (map snd nodes))) < 2 ^ 32"
    using length_enc_schedule [of "map node_task (concat (map snd nodes))" h "take 63 (cstr w)"] assms(4)
    unfolding w(2) by (rule le_less_trans)
  from get_sched_info_decodes [OF s wire_node_tasks this d [unfolded w(2)]] g w(1) keep
  show ?thesis by (auto simp: holds_current_def)
qed

lemma agent_ok_next: "agent_ok sr n node ag \<Longrightarrow> agent_ok sr' (Suc n) node ag"
  by (auto simp: agent_ok_def)

lemma agent_ok_evolves:
  "agent_ok sr n node ag \<Longrightarrow> agent_evolves (ag_ctx ag) ctx' \<Longrightarrow> agent_ok sr n node (ag\<lparr>ag_ctx := ctx'\<rparr>)"
  by (auto simp: agent_ok_def agent_evolves_def)

lemma system_ok_agent:
  assumes "system_ok e sy" and "sys_agents sy node = Some ag" and "agent_evolves (ag_ctx ag) ctx'"
  shows "system_ok e (put_agent node (ag\<lparr>ag_ctx := ctx'\<rparr>) sy)"
  using assms agent_ok_evolves by (auto simp: system_ok_def)

text \<open>A step of the server that keeps the schedules.\<close>

lemma system_ok_server:
  assumes "system_ok e sy" and "server_step e (sys_server sy) sr" and "schedules sr = schedules (sys_server sy)"
  shows "system_ok e (sy\<lparr>sys_server := sr\<rparr>)"
  using assms step_coherent by (auto simp: system_ok_def agent_ok_def holds_current_def)

lemma system_step_ok:
  assumes "system_step e sy sy'" and "system_ok e sy" and "plenty (env_alloc e)"
  shows "system_ok e sy'"
  using assms(1,2)
proof (cases rule: system_step.cases)
  case (request rq status sv)
  then have "server_step e (sys_server sy) ((sys_server sy)\<lparr>sr_service := sv\<rparr>)" by (blast intro: server_step.add)
  then have "coherent e ((sys_server sy)\<lparr>sr_service := sv\<rparr>)" using assms(2) step_coherent by (auto simp: system_ok_def)
  with request assms(2) show ?thesis by (auto simp: system_ok_def intro: agent_ok_next)
next
  case (barrier name now r sr)
  then show ?thesis
    using system_ok_server [OF assms(2) server_step.sync [OF barrier(2)]] by (auto simp: SyncCallback_server_def split: prod.splits)
next
  case attach
  then show ?thesis using system_ok_server [OF assms(2) server_step.start] by (simp add: SetSchedInfoServer_def)
next
  case detach
  then show ?thesis
    using system_ok_server [OF assms(2) server_step.stop] by (simp add: SetSchedInfoServer_def FreeSchedInfoBuf_def)
next
  case (fetch bytes sr s ctx le ctx')
  have c: "coherent e (sys_server sy)" using assms(2) by (simp add: system_ok_def)
  note new = fetch_holds [OF c assms(3) fetch(2-6) fetch(8)]
  have "system_ok e (sy\<lparr>sys_server := sr\<rparr>)"
    by (rule system_ok_server [OF assms(2) server_step.fetch [OF fetch(2)] fetch_keeps_schedules(1) [OF fetch(2)]])
  with new fetch(1,7) show ?thesis by (auto simp: system_ok_def agent_ok_def runs_tasks_def)
next
  case (build node ag ev s r ctx')
  then show ?thesis using system_ok_agent [OF assms(2)] setup_evolves by blast
next
  case (event node ag data len s r ctx')
  then show ?thesis using system_ok_agent [OF assms(2)] event_evolves by blast
next
  case (expiry node ag i s tt ctx')
  then show ?thesis using system_ok_agent [OF assms(2)] expiry_evolves by blast
next
  case (quit node)
  with assms(2) show ?thesis by (auto simp: system_ok_def)
qed

lemma system_reachable_ok: "system_reachable e m sy \<Longrightarrow> plenty (env_alloc e) \<Longrightarrow> system_ok e sy"
  unfolding system_reachable_def
proof (induction rule: rtranclp_induct)
  case base
  then show ?case by (simp add: system_ok_def system_start_def coherent_def new_server_def SchedInfoServiceImpl_def)
next
  case (step y z)
  then show ?case using system_step_ok by blast
qed

section \<open>Notifications are true\<close>

text \<open>
  C2. In every run of the system, with any number of nodes and any order of their steps, a node whose workload has not been
  replaced since its fetch reports truly: when a timer of one of its time triggers expires, the server
  notifies the fault service exactly if the expiry finds a miss, once, and the notification names a workload
  that the node got under this name, whose schedule has the named task for the named node.
\<close>

theorem notifications_true:
  fixes s tt world ag
  defines "ctx \<equiv> ag_ctx ag"
  defines "before \<equiv> out_ts (answers s (length (trace s)) (Kern (Clock_gettime (cfg_clockid (cx_config ctx)))))"
    and "task \<equiv> ti_name (tt_task tt)"
  assumes "system_reachable e m sy" and "plenty (env_alloc e)" and "sr_attached (sys_server sy)"
    and "sys_agents sy node = Some ag" and "ag_round ag = sys_round sy" and "tt \<in> set (cx_tt_list ctx)"
    and "\<forall>args. delivers (world args) args" and "fc_initialized c"
  shows "\<exists>w nodes t. schedules (sys_server sy) = [(w, nodes)] \<and> si_workload_id (cx_sched_info ctx) = take 63 (cstr w) \<and>
    t \<in> set (concat (map snd nodes)) \<and> ti_name (node_task t) = task \<and> cstr (ti_node_id (node_task t)) = cstr node \<and>
    notified (trpc_ops alloc le junk (sys_server sy) c) world (calls (timer_expired_handler (Some tt) ctx) s) =
      (if misses before tt then [Grpc (Notify_fault w node task DMISS)] else [])"
proof -
  have ok: "agent_ok (sys_server sy) (sys_round sy) node ag"
    using system_reachable_ok [OF assms(4,5)] assms(7) by (simp add: system_ok_def)
  then obtain w nodes where w: "schedules (sys_server sy) = [(w, nodes)]" "si_workload_id (cx_sched_info ctx) = take 63 (cstr w)"
      "si_tasks (cx_sched_info ctx) = map node_task (concat (map snd nodes))" and id: "cfg_node_id (cx_config ctx) = node"
    using assms(8) by (auto simp: agent_ok_def holds_current_def ctx_def)
  have tt: "tt_ctx tt" "\<exists>t\<in>set (si_tasks (cx_sched_info ctx)). ti_name t = task \<and> cstr (ti_node_id t) = cstr node"
    using ok assms(9) by (auto simp: agent_ok_def runs_tasks_def ctx_def task_def)
  from tt(2) obtain t where t: "t \<in> set (concat (map snd nodes))" "ti_name (node_task t) = task" "cstr (ti_node_id (node_task t)) = cstr node"
    unfolding w(3) by auto
  have "blamed (sys_server sy) node task = w" using blamed_single [of "sys_server sy" node task] w(1) assms(6) by simp
  then show ?thesis
    using w(1,2) t assms(11) expiry_notified [OF tt(1) assms(10), of alloc le junk "sys_server sy" c ctx s]
    by (auto simp: id before_def task_def)
qed

text \<open>A run with one node: a workload arrives, the node fetches it, finds the process of its task and is told that it runs.\<close>

definition sample_info :: task_info where
  "sample_info = node_task (apex_sched_task (hd (rq_tasks (sample_request ''n''))))"

definition sample_os :: "byte list \<Rightarrow> os" where
  "sample_os bytes = os_of (\<lambda>c. case c of
      Kern (Opendir p) \<Rightarrow> answer0\<lparr>ret := 1, out_dir := [(''7'', True)]\<rparr>
    | Kern (Fopen p m) \<Rightarrow> answer0\<lparr>ret := 1, out_text := ''t'' @ [CHR 0x0A]\<rparr>
    | Kern (Calloc w) \<Rightarrow> answer0\<lparr>ret := 1\<rparr>
    | _ \<Rightarrow> answer0\<lparr>out_bytes := bytes\<rparr>)"

definition sample_node :: tt_context where
  "sample_node = zero_context\<lparr>cx_config := (cx_config zero_context)\<lparr>cfg_node_id := ''n''\<rparr>\<rparr>"

lemma sample_info_fields: "ti_name sample_info = ''t''" "ti_node_id sample_info = ''n''"
  by (simp_all add: sample_info_def node_task_def apex_sched_task_def sample_request_def strncpy_field_def cstr_def)

lemma sample_fetched:
  obtains bytes sr h where "SchedInfoCallback zero_alloc True (sample_server False ''n'') = Some (Some bytes, sr)"
    and "bytes = enc_schedule h (take 63 (cstr ''Apex.OS'')) [sample_info]" and "length bytes < 2 ^ 32"
proof -
  let ?e = sample_environment and ?sr = "sample_server False ''n''"
  have c: "coherent ?e ?sr" by (simp add: coherent_def sample_server_def SetSchedInfoServer_def new_server_def)
  have a: "sr_attached ?sr" "schedules ?sr = [(''Apex.OS'', [(''n'', [apex_sched_task (hd (rq_tasks (sample_request ''n'')))])])]"
    by (simp_all add: sample_server_def SetSchedInfoServer_def)
  have "plenty (env_alloc ?e)" by (simp add: sample_environment_def)
  from fetch_current [OF c this a(1)] obtain sr h where
    f: "SchedInfoCallback zero_alloc True ?sr = Some (Some (enc_schedule h (take 63 (cstr ''Apex.OS'')) [sample_info]), sr)"
    unfolding a(2) by (auto simp: sample_environment_def sample_info_def)
  have "length (enc_schedule h (take 63 (cstr ''Apex.OS'')) [sample_info]) < 2 ^ 32"
    by (simp add: enc_schedule_def enc_task_def enc_str_def enc_blob_def sample_info_fields cstr_def)
  with f show ?thesis using that by blast
qed

lemma sample_os_ok:
  "plenty (heap (sample_os bytes))" "calloc_ok (sample_os bytes)" "bus_delivers (sample_os bytes) n bytes"
  by (simp_all add: sample_os_def calloc_ok_def bus_delivers_def answer0_def)

lemma sample_decoded:
  assumes "bytes = enc_schedule h (take 63 (cstr ''Apex.OS'')) [sample_info]"
  shows "\<exists>ctx. result (get_sched_info True sample_node) (sample_os bytes) = Some (0, ctx) \<and>
    si_tasks (cx_sched_info ctx) = [sample_info] \<and> cfg_node_id (cx_config ctx) = ''n'' \<and> cx_tt_list ctx = []"
proof -
  have "list_all wire_task [sample_info]" using wire_node_task by (simp add: sample_info_def)
  from get_sched_info_decodes [OF sample_os_ok(1,2) this, of bytes sample_node h "''Apex.OS''" True] show ?thesis
    using sample_os_ok(3) assms by (auto simp: sample_node_def zero_context_def)
qed

lemma sample_built:
  assumes "si_tasks (cx_sched_info ctx) = [sample_info]" and "cfg_node_id (cx_config ctx) = ''n''"
  shows "\<exists>tt. result (init_task_list True ctx) (sample_os bytes) = (TT_SUCCESS, add_nodes [tt] ctx) \<and>
    ti_pid (tt_task tt) = 7 \<and> ti_name (tt_task tt) = ''t'' \<and> tt_ctx tt"
proof -
  let ?s = "sample_os bytes"
  have "atoi ''7'' = 7"
    by (simp add: atoi_def strtol10_def cstr_def is_space_def is_digit_def to_int32_id)
  then have "found_pid ?s ''t'' = 7"
    by (simp add: sample_os_def found_pid_def dir_pids_def threads_named_def comm_of_def cstr_def)
  moreover have "ret (answers ?s 0 (Kern (Calloc w))) = 1" "ret (answers ?s 0 (Kern (Pidfd_open p f))) = 0" for w p f
    by (simp_all add: sample_os_def answer0_def)
  ultimately have "filter (startable ?s ctx) [sample_info] = [sample_info]" "ti_pid (tt_task (trigger_for ?s sample_info)) = 7"
    by (simp_all add: startable_def trigger_for_def sample_info_fields assms(2))
  moreover have "steady ?s" by (simp add: sample_os_def)
  ultimately show ?thesis
    using steady_init_tasks [of ?s True "[sample_info]" ctx 0 "trace ?s"] assms(1)
    by (intro exI [of _ "trigger_for ?s sample_info"])
      (simp add: init_task_list_def case_prod_beta trigger_for_def sample_info_fields)
qed

lemma sample_run:
  obtains sy ag tt where "system_reachable sample_environment None sy" and "sys_agents sy ''n'' = Some ag"
    and "ag_round ag = sys_round sy" and "sr_attached (sys_server sy)"
    and "cx_tt_list (ag_ctx ag) = [tt]" and "ti_name (tt_task tt) = ''t''" and "misses ts tt"
    and "map fst (schedules (sys_server sy)) = [''Apex.OS'']"
proof -
  let ?e = sample_environment and ?sr0 = "SetSchedInfoServer True (new_server None)" and ?sr1 = "sample_server False ''n''"
  let ?sy0 = "system_start None" and ?sy1 = "(system_start None)\<lparr>sys_server := ?sr0\<rparr>"
  let ?sy2 = "?sy1\<lparr>sys_server := ?sr1, sys_round := 1\<rparr>"
  have srv: "?sr0\<lparr>sr_service := sr_service ?sr1\<rparr> = ?sr1" by (simp add: sample_server_def SetSchedInfoServer_def)
  have 1: "system_step ?e ?sy0 ?sy1" using system_step.attach [of ?e ?sy0] by (simp add: system_start_def)
  have "AddSchedInfo (env_rnd ?e) (env_sort ?e) (env_malloc_ok ?e) (sample_request ''n'') (sr_service ?sr0) =
      Some (0, sr_service ?sr1)"
    using sample_add(1) by (simp add: sample_environment_def SetSchedInfoServer_def new_server_def)
  then have 2: "system_step ?e ?sy1 ?sy2"
    using system_step.request [of ?e "sample_request ''n''" ?sy1 0 "sr_service ?sr1"] srv by (simp add: system_start_def)
  obtain bytes sr h where f: "SchedInfoCallback (env_alloc ?e) (env_le ?e) (sys_server ?sy2) = Some (Some bytes, sr)"
      "bytes = enc_schedule h (take 63 (cstr ''Apex.OS'')) [sample_info]" "length bytes < 2 ^ 32"
    using sample_fetched by (auto simp: sample_environment_def)
  from sample_decoded [OF f(2)] obtain ctx where
    g: "result (get_sched_info True sample_node) (sample_os bytes) = Some (0, ctx)"
      "si_tasks (cx_sched_info ctx) = [sample_info]" "cfg_node_id (cx_config ctx) = ''n''" "cx_tt_list ctx = []" by blast
  let ?ag = "\<lparr>ag_ctx = ctx, ag_round = 1\<rparr>" and ?sy3 = "put_agent ''n'' \<lparr>ag_ctx = ctx, ag_round = 1\<rparr> (?sy2\<lparr>sys_server := sr\<rparr>)"
  have "cx_tt_list sample_node = []" "cfg_node_id (cx_config sample_node) = ''n''" by (simp_all add: sample_node_def zero_context_def)
  then have 3: "system_step ?e ?sy2 ?sy3"
    using system_step.fetch [OF f(1,3) sample_os_ok(1,2,3) _ g(1)] by simp
  obtain tt where tt: "result (init_task_list True ctx) (sample_os bytes) = (TT_SUCCESS, add_nodes [tt] ctx)"
      "ti_pid (tt_task tt) = 7" "ti_name (tt_task tt) = ''t''"
    using sample_built [OF g(2,3)] by blast
  let ?ctx4 = "add_nodes [tt] ctx" and ?tt = "tt\<lparr>tt_sigwait_ts := 9, tt_sigwait_enter := 0\<rparr>"
  let ?ctx5 = "?ctx4\<lparr>cx_tt_list := [?tt]\<rparr>" and ?ev = "\<lparr>sw_pid = 7, sw_tgid = 7, sw_timestamp = 9, sw_enter = 0\<rparr>"
  have 4: "system_step ?e ?sy3 (put_agent ''n'' (?ag\<lparr>ag_ctx := ?ctx4\<rparr>) ?sy3)"
    using system_step.build [of ?sy3 "''n''" ?ag True "sample_os bytes"] tt(1) by simp
  have "result (handle_sigwait_bpf_event (Some ?ctx4) (Some ?ev) 24) (sample_os bytes) = (TT_SUCCESS, Some ?ctx5)"
    using g(4) tt(2) by (simp add: handle_sigwait_bpf_event_def sizeof_sigwait_event_def add_nodes_def sample_os_def
        os_of_def globals0_def bpf_ktime_to_real_def)
  then have 5: "system_step ?e (put_agent ''n'' (?ag\<lparr>ag_ctx := ?ctx4\<rparr>) ?sy3) (put_agent ''n'' (?ag\<lparr>ag_ctx := ?ctx5\<rparr>) ?sy3)"
    using system_step.event [of "put_agent ''n'' (?ag\<lparr>ag_ctx := ?ctx4\<rparr>) ?sy3" "''n''" "?ag\<lparr>ag_ctx := ?ctx4\<rparr>"] by simp
  have "system_reachable ?e None (put_agent ''n'' (?ag\<lparr>ag_ctx := ?ctx5\<rparr>) ?sy3)"
    by (rule system_reachable_step [OF system_reachable_step [OF system_reachable_step [OF system_reachable_step
            [OF system_reachable_step [OF system_reachable_start 1] 2] 3] 4] 5])
  moreover have "schedules sr = schedules ?sr1" using fetch_keeps_schedules(1) [OF f(1)] by simp
  moreover have "sr_attached sr" using fetch_keeps_schedules(2) [OF f(1)] by simp
  ultimately show ?thesis
    using that tt(3) by (simp add: misses_def sample_server_def SetSchedInfoServer_def)
qed

lemma notifications_true_witness:
  "\<exists>sy ag tt. system_reachable sample_environment None sy \<and> sys_agents sy ''n'' = Some ag \<and> tt \<in> set (cx_tt_list (ag_ctx ag)) \<and>
    notified (trpc_ops zero_alloc True zero_ts (sys_server sy) \<lparr>fc_initialized = True\<rparr>) sample_world
      (calls (timer_expired_handler (Some tt) (ag_ctx ag)) (os_of (\<lambda>c. answer0))) =
    [Grpc (Notify_fault ''Apex.OS'' ''n'' ''t'' DMISS)]"
proof -
  obtain sy ag tt where r: "system_reachable sample_environment None sy" "sys_agents sy ''n'' = Some ag"
    "ag_round ag = sys_round sy" "sr_attached (sys_server sy)" "cx_tt_list (ag_ctx ag) = [tt]" "ti_name (tt_task tt) = ''t''"
    "misses (out_ts answer0) tt" "map fst (schedules (sys_server sy)) = [''Apex.OS'']"
    by (rule sample_run)
  have "plenty (env_alloc sample_environment)" "tt \<in> set (cx_tt_list (ag_ctx ag))" using r(5) by (simp_all add: sample_environment_def)
  with notifications_true [OF r(1) _ r(4,2,3) _ sample_delivers, of tt "\<lparr>fc_initialized = True\<rparr>" zero_alloc True zero_ts "os_of (\<lambda>c. answer0)"]
  show ?thesis using r by (intro exI [of _ sy] exI [of _ ag] exI [of _ tt]) auto
qed

end
