(* ===== verification/Node_Runs.thy ===== *)
theory Node_Runs
  imports Timpani_System
begin

text \<open>
  Whole runs of the node program: it comes to an end when it is told to stop, and what holds at the end. The
  lemmas bound the number of rounds of its two loops that have no bound of their own (the wait for the common
  start and the main loop), so that the fuel of the model is known to be enough.
\<close>

section \<open>What the operations leave as it is\<close>

text \<open>The environment and the pointer that the signal handler uses.\<close>

definition same_env :: "os \<Rightarrow> os \<Rightarrow> bool" where
  "same_env s s' \<longleftrightarrow> answers s' = answers s \<and> heap s' = heap s"

definition keeps_env :: "os \<Rightarrow> os \<Rightarrow> bool" where
  "keeps_env s s' \<longleftrightarrow> same_env s s' \<and> g_ctx (globals s') = g_ctx (globals s)"

lemmas env_defs = keeps_env_def same_env_def

interpretation ke: io_effect keeps_env
  by unfold_locales (auto simp: env_defs)

abbreviation steady_env :: "'a io \<Rightarrow> bool" where
  "steady_env \<equiv> state_io_rel keeps_env"

lemma ke_sys: "steady_env (sys c)"
  by (simp add: state_io_rel_def env_defs)

lemma ke_only: "only P m \<Longrightarrow> steady_env m"
  unfolding state_io_rel_def [of keeps_env] by (simp add: only_after env_defs)

lemma ke_get_globals: "steady_env get_globals"
  by (rule ke_only [OF only_get_globals])

lemma ke_update: "(\<And>g. g_ctx (f g) = g_ctx g) \<Longrightarrow> steady_env (update_globals f)"
  by (simp add: state_io_rel_def env_defs)

lemma ke_position: "steady_env position" "steady_env (handle_signals n ctx)"
  unfolding position_def handle_signals_def by (simp_all add: state_io_rel_def ke.effect_refl)

lemmas ke_rules = ke.effect_return ke.effect_bind ke.effect_if ke.effect_option ke.effect_prod ke_sys ke_get_globals

lemma ke_calibrate: "steady_env calibrate_bpf_time_offset"
proof -
  have store: "steady_env (do { g \<leftarrow> get_globals; set_globals (g\<lparr>g_bpf_ktime_off := o1\<rparr>); m })" if "steady_env m" for o1 and m :: "'a io"
  proof -
    have "steady_env (State_Monad.bind (update_globals (\<lambda>g. g\<lparr>g_bpf_ktime_off := o1\<rparr>)) (\<lambda>_. m))"
      by (intro ke_rules ke_update that) simp
    then show ?thesis by (simp add: update_globals_def)
  qed
  have "steady_env (calibrate_loop n b)" for n b
    by (induction n arbitrary: b) (auto simp: Let_def intro!: ke_rules store)
  then show ?thesis by (simp add: calibrate_bpf_time_offset_def calibrate_bpf_ktime_offset_internal_def)
qed

lemma ke_bpf_on: "steady_env (bpf_on ev)"
proof -
  have "steady_env (start_prog p)" for p
    unfolding start_prog_def start_fail_def
    by (intro ke_rules ke_update) (cases p; simp add: set_loaded_def set_rb_def)+
  then show ?thesis
    unfolding bpf_on_def start_sigwait_bpf_def start_schedstat_bpf_def by (intro ke_rules)
qed

lemma ke_own: "steady_env (set_own_scheduling p ctx)"
  unfolding set_own_scheduling_def by (intro ke_rules ke_only [OF only_set_affinity] ke_only [OF only_set_schedattr])

lemma only_init_apexes: "only (\<lambda>c. True) (init_apexes tis ctx k)"
  by (induction tis arbitrary: ctx k) (auto intro!: only_rules)

lemma ke_init_lists: "steady_env (init_lists ev ctx)"
  unfolding init_lists_def init_apex_list_def
  by (intro ke_rules ke_bpf_on ke_only [OF only_init_task_list] ke_only [OF only_init_apexes])

lemma ke_monitor: "steady_env (apex_monitor_init ctx)"
  unfolding apex_monitor_init_def by (intro ke_rules)

lemma ke_get_sched_info: "steady_env (get_sched_info le ctx)"
  unfolding get_sched_info_def
  by (intro ke_rules ke_only [OF only_client_schedinfo] ke_only [OF only_get_heap] ke_only [OF only_deserialize_sched_info])

lemma ke_connection: "steady_env (init_trpc_connection a p ctx)" "steady_env (cleanup_trpc_connection ctx)"
  unfolding init_trpc_connection_def cleanup_trpc_connection_def Let_def
  by (intro ke_rules ke_only [OF only_client_create])+

lemma ke_init_trpc: "steady_env (init_trpc_loop le k ctx)"
  by (induction k arbitrary: ctx) (auto intro!: ke_rules ke_connection ke_get_sched_info split: option.split)

lemma ke_sync: "steady_env (sync_timer_with_server fuel ctx)"
proof -
  have "steady_env (sync_timer_internal fuel nid ts)" for nid ts
    by (induction fuel arbitrary: ts) (auto intro!: ke_rules ke_only [OF only_client_sync] split: option.split)
  then show ?thesis unfolding sync_timer_with_server_def by (intro ke_rules)
qed

lemma ke_timers: "steady_env (start_timers ctx)" "steady_env (start_hyperperiod_timer ctx)"
  unfolding start_timers_def start_hyperperiod_timer_def Let_def by (intro ke_rules ke_only [OF only_arm_timers])+

section \<open>The node stops\<close>

text \<open>
  From position \<open>p\<close> on every wait of the main loop is interrupted by SIGINT or SIGTERM, and every request for the
  common start that the server answers is acknowledged.
\<close>

definition stops_from :: "nat \<Rightarrow> os \<Rightarrow> bool" where
  "stops_from p s \<longleftrightarrow> (\<forall>m\<ge>p. out_ack (answers s m (Bus (Message_read ''btt''))) \<noteq> 0 \<and>
     (\<forall>efd. SIGINT \<in> set (signals (answers s m (Kern (Epoll_wait efd)))) \<or>
            SIGTERM \<in> set (signals (answers s m (Kern (Epoll_wait efd))))))"

lemma stops_from_env: "same_env s s' \<Longrightarrow> stops_from p s' = stops_from p s"
  by (simp add: stops_from_def same_env_def)

lemma sync_returns:
  assumes "stops_from p s" and "Suc (p - length (trace s)) \<le> fuel"
  shows "result (sync_timer_internal fuel nid ts) s \<noteq> None"
  using assms
proof (induction fuel arbitrary: ts s)
  case (Suc fuel)
  let ?c = "Bus (Bus_call_method TRPC_METHOD_SYNC [nid])" and ?r = "Bus (Message_read ''btt'')"
  let ?a = "answers s (Suc (length (trace s))) ?r"
  let ?s' = "s\<lparr>trace := trace s @ [?c, ?r, Bus Bus_error_free, Bus Message_unref, Kern (Usleep TT_POLLING_INTERVAL_US)]\<rparr>"
  show ?case
  proof (cases "0 \<le> ret (answers s (length (trace s)) ?c) \<and> 0 \<le> ret ?a \<and> out_ack ?a = 0")
    case True
    then have run: "run_state (sync_timer_internal (Suc fuel) nid ts) s = run_state (sync_timer_internal fuel nid (out_ts ?a)) ?s'"
      by (simp add: trpc_client_sync_def request_cleanup_def)
    have "\<not> p \<le> Suc (length (trace s))" using True Suc.prems(1) unfolding stops_from_def by blast
    then have "Suc (p - length (trace ?s')) \<le> fuel" using Suc.prems(2) by simp
    moreover have "stops_from p ?s'" using Suc.prems(1) by (simp add: stops_from_def)
    ultimately show ?thesis unfolding run using Suc.IH [of ?s'] by blast
  next
    case False
    then show ?thesis by (auto simp: trpc_client_sync_def request_cleanup_def)
  qed
qed simp

lemma rounds_return:
  assumes "stops_from p s" and "g_ctx (globals s)" and "Suc (Suc (p - length (trace s))) \<le> fuel"
  shows "result (epoll_rounds fuel efd n ctx) s \<noteq> None"
  using assms
proof (induction fuel arbitrary: n ctx s)
  case (Suc fuel)
  define ctx1 where "ctx1 = (if stop_signal n s then ctx\<lparr>cx_shutdown_requested := 1\<rparr> else ctx)"
  let ?c = "Kern (Epoll_wait efd)" and ?n1 = "length (trace s)"
  let ?w = "answers s ?n1 ?c" and ?s1 = "s\<lparr>trace := trace s @ [?c]\<rparr>"
  let ?ev = "epoll_event efd (out_fd ?w) ctx1"
  have run: "result (epoll_rounds (Suc fuel) efd n ctx) s =
      (if cx_shutdown_requested ctx1 \<noteq> 0 then Some (TT_SUCCESS, ctx1)
       else if ret ?w < 0 then
         (if errno ?w = EINTR then result (epoll_rounds fuel efd ?n1 ctx1) ?s1 else Some (TT_ERROR_TIMER, ctx1))
       else result (epoll_rounds fuel efd ?n1 (result ?ev ?s1)) (after ?ev ?s1))"
    using Suc.prems(2) by (simp add: run_handle_signals ctx1_def [symmetric] case_prod_beta)
  have next_round: "result (epoll_rounds fuel efd ?n1 c) s' \<noteq> None"
    if s': "answers s' = answers s" "trace s' = trace s @ ?c # cs" "g_ctx (globals s')" for c s' cs
  proof (cases "p \<le> ?n1")
    case True
    obtain f where f: "fuel = Suc f" using Suc.prems(3) by (cases fuel) auto
    have "set (signals ?w) \<subseteq> set (delivered ?n1 s')"
      unfolding delivered_def s'(1,2) by (force simp: nth_append)
    moreover have "SIGINT \<in> set (signals ?w) \<or> SIGTERM \<in> set (signals ?w)" using Suc.prems(1) True by (simp add: stops_from_def)
    ultimately have "stop_signal ?n1 s'" by (auto simp: stop_signal_def)
    from rounds_stop [OF this s'(3)] show ?thesis unfolding f by blast
  next
    case False
    then have "Suc (Suc (p - length (trace s'))) \<le> fuel" using Suc.prems(3) by (simp add: s'(2))
    moreover have "stops_from p s'" using Suc.prems(1) by (simp add: stops_from_def s'(1))
    ultimately show ?thesis using Suc.IH s'(3) by blast
  qed
  have "keeps_ctx ?s1 (after ?ev ?s1)" using kc_epoll_event by (simp add: state_io_rel_def)
  then obtain cs where "trace (after ?ev ?s1) = trace s @ ?c # cs" "answers (after ?ev ?s1) = answers s"
    "g_ctx (globals (after ?ev ?s1))" using Suc.prems(2) by (auto simp: keeps_ctx_def)
  then have "result (epoll_rounds fuel efd ?n1 (result ?ev ?s1)) (after ?ev ?s1) \<noteq> None" by (intro next_round)
  moreover have "result (epoll_rounds fuel efd ?n1 ctx1) ?s1 \<noteq> None" using Suc.prems(2) by (intro next_round) simp_all
  ultimately show ?case unfolding run by simp
qed simp

lemma ke_epoll_add: "steady_env (epoll_add efd tts)"
  by (rule ke_only [OF only_epoll_add])

text \<open>
  \<open>returns E m\<close>: from every state with \<open>E\<close> the operation has a result. \<open>stable E\<close>: what leaves the environment as it is
  keeps \<open>E\<close>.
\<close>

definition returns :: "(os \<Rightarrow> bool) \<Rightarrow> 'a option io \<Rightarrow> bool" where
  "returns E m \<longleftrightarrow> (\<forall>s. E s \<longrightarrow> result m s \<noteq> None)"

definition stable :: "(os \<Rightarrow> bool) \<Rightarrow> bool" where
  "stable E \<longleftrightarrow> (\<forall>s s'. E s \<longrightarrow> keeps_env s s' \<longrightarrow> E s')"

lemma returns_value: "x \<noteq> None \<Longrightarrow> returns E (return_io x)"
  by (simp add: returns_def)

lemma returns_if: "returns E m \<Longrightarrow> returns E m' \<Longrightarrow> returns E (if b then m else m')"
  by simp

lemma returns_prod: "(\<And>x y. returns E (f x y)) \<Longrightarrow> returns E (case p of (x, y) \<Rightarrow> f x y)"
  by (cases p) simp

lemma returns_bind:
  assumes "stable E" and "steady_env m" and "\<And>x. returns E (f x)"
  shows "returns E (State_Monad.bind m f)"
  using assms unfolding returns_def stable_def state_io_rel_def by (simp add: case_prod_beta)

lemma returns_bind_option:
  assumes "stable E" and "steady_env m" and "returns E m" and "\<And>x. returns E (f x)"
  shows "returns E (State_Monad.bind m (\<lambda>r. case r of None \<Rightarrow> return_io None | Some x \<Rightarrow> f x))"
  unfolding returns_def
proof (intro allI impI)
  fix s assume s: "E s"
  then obtain x where "result m s = Some x" using assms(3) by (auto simp: returns_def)
  moreover have "E (after m s)" using s assms(1,2) by (auto simp: stable_def state_io_rel_def)
  ultimately show "result (State_Monad.bind m (\<lambda>r. case r of None \<Rightarrow> return_io None | Some x \<Rightarrow> f x)) s \<noteq> None"
    using assms(4) by (simp add: returns_def case_prod_beta)
qed

definition told_to_stop :: "nat \<Rightarrow> os \<Rightarrow> bool" where
  "told_to_stop p s \<longleftrightarrow> stops_from p s \<and> g_ctx (globals s)"

lemma stable_told: "stable (told_to_stop p)"
  using stops_from_env by (auto simp: stable_def keeps_env_def told_to_stop_def)

lemma loop_returns:
  assumes "p + 2 \<le> fuel"
  shows "returns (told_to_stop p) (epoll_loop fuel n ctx)"
proof -
  have rounds: "returns (told_to_stop p) (epoll_rounds fuel efd n ctx)" for efd
    using assms rounds_return [of p] by (auto simp: returns_def told_to_stop_def)
  have last: "returns (told_to_stop p) (do {
       r \<leftarrow> epoll_rounds fuel efd n ctx;
       (case r of None \<Rightarrow> return_io None | Some x \<Rightarrow> do { _ \<leftarrow> kern (Close efd); return_io (Some x) }) })" for efd
    unfolding returns_def
  proof (intro allI impI)
    fix s assume "told_to_stop p s"
    then obtain x where "result (epoll_rounds fuel efd n ctx) s = Some x" using rounds unfolding returns_def by blast
    then show "result (do {
       r \<leftarrow> epoll_rounds fuel efd n ctx;
       (case r of None \<Rightarrow> return_io None | Some x \<Rightarrow> do { _ \<leftarrow> kern (Close efd); return_io (Some x) }) }) s \<noteq> None"
      by (simp add: case_prod_beta)
  qed
  show ?thesis unfolding epoll_loop_def
    by (intro returns_bind [OF stable_told ke_sys] returns_bind [OF stable_told ke_epoll_add] returns_if returns_value last) simp_all
qed

lemma run_returns:
  assumes "p + 2 \<le> fuel"
  shows "returns (told_to_stop p) (run fuel n ctx)"
proof -
  have sync: "returns (told_to_stop p) (sync_timer_with_server fuel ctx)"
    unfolding returns_def
  proof (intro allI impI)
    fix s assume "told_to_stop p s"
    then have "result (sync_timer_internal fuel nid ts) s \<noteq> None" for nid ts
      using assms sync_returns [of p s fuel nid ts] by (simp add: told_to_stop_def)
    then obtain x where "result (sync_timer_internal fuel (cfg_node_id (cx_config ctx)) (cx_starttimer_ts ctx)) s = Some x" by blast
    then show "result (sync_timer_with_server fuel ctx) s \<noteq> None"
      by (simp add: sync_timer_with_server_def case_prod_beta)
  qed
  show ?thesis unfolding run_def
    by (intro returns_bind_option [OF stable_told ke_sync sync] returns_prod returns_if returns_value
        returns_bind [OF stable_told ke_timers(1)] returns_bind [OF stable_told ke_timers(2)] loop_returns assms) simp_all
qed

text \<open>No schedule that the bus delivers makes the decoder write past the end of an array.\<close>

definition decodes :: "bool \<Rightarrow> os \<Rightarrow> bool" where
  "decodes le s \<longleftrightarrow> (\<forall>m b ctx si s'. same_env s s' \<longrightarrow>
     make_serial_buf (heap s) (out_bytes (answers s m (Bus Message_read_array)))
       (length (out_bytes (answers s m (Bus Message_read_array)))) = Some b \<longrightarrow>
     result (deserialize_sched_info le ctx b si) s' \<noteq> None)"

lemma decodes_env: "same_env s s' \<Longrightarrow> decodes le s \<Longrightarrow> decodes le s'"
  by (simp add: decodes_def same_env_def)

lemma stable_decodes: "stable (decodes le)"
  using decodes_env by (auto simp: stable_def keeps_env_def)

lemma sched_info_returns: "returns (decodes le) (get_sched_info le ctx)"
  unfolding returns_def
proof (intro allI impI)
  fix s assume d: "decodes le s"
  let ?m = "trpc_client_schedinfo (cfg_node_id (cx_config ctx))"
  have after: "same_env s (after ?m s)"
    unfolding only_after [OF only_client_schedinfo] by (simp add: same_env_def)
  have bytes: "\<exists>n. b = out_bytes (answers s n (Bus Message_read_array))" if "snd (result ?m s) = Some b" for b
    using that by (auto simp: trpc_client_schedinfo_def request_cleanup_def split: if_splits option.splits)
  show "result (get_sched_info le ctx) s \<noteq> None"
  proof (cases "snd (result ?m s)")
    case (Some b)
    obtain n where n: "b = out_bytes (answers s n (Bus Message_read_array))" using bytes [OF Some] ..
    have heap: "heap (after ?m s) = heap s" using after by (simp add: same_env_def)
    show ?thesis
    proof (cases "make_serial_buf (heap s) b (length b)")
      case (Some sb)
      then have "result (deserialize_sched_info le ctx sb (cx_sched_info ctx)) (after ?m s) \<noteq> None"
        using d after unfolding decodes_def n by blast
      then obtain x where "result (deserialize_sched_info le ctx sb (cx_sched_info ctx)) (after ?m s) = Some x" by blast
      with Some \<open>snd (result ?m s) = Some b\<close> heap show ?thesis by (simp add: get_sched_info_def case_prod_beta)
    qed (use Some heap in \<open>simp add: get_sched_info_def case_prod_beta\<close>)
  qed (simp add: get_sched_info_def case_prod_beta)
qed

lemma trpc_returns: "returns (decodes le) (init_trpc le ctx)"
proof -
  have "returns (decodes le) (init_trpc_loop le k ctx)" for k ctx
    by (induction k arbitrary: ctx)
      (auto intro!: returns_value returns_bind [OF stable_decodes ke_connection(1)] returns_prod returns_if
        returns_bind_option [OF stable_decodes ke_get_sched_info sched_info_returns]
        returns_bind [OF stable_decodes ke_connection(2)] returns_bind [OF stable_decodes ke_sys])
  then show ?thesis by (simp add: init_trpc_def)
qed

lemma ke_trpc: "steady_env (init_trpc le ctx)"
  unfolding init_trpc_def by (rule ke_init_trpc)

lemma run_setup_signals:
  "\<exists>e s'. run_state (setup_signal_handlers ctx) s = (e, s') \<and> same_env s s' \<and> g_ctx (globals s')"
  by (simp add: setup_signal_handlers_def same_env_def)

text \<open>The initialisation has a result, and the handler's pointer is set after it.\<close>

lemma initialize_returns:
  assumes "decodes le s"
  shows "\<exists>r s'. run_state (initialize le ev ctx) s = (Some r, s') \<and> same_env s s' \<and> g_ctx (globals s')"
proof -
  define rest where "rest = (do {
       set_own_scheduling (ret (answers s (length (trace s)) (Kern Getpid))) ctx;
       e \<leftarrow> calibrate_bpf_time_offset;
       if e \<noteq> TT_SUCCESS then return_io (Some (TT_ERROR_BPF, ctx))
       else do {
         r \<leftarrow> init_trpc le ctx;
         (case r of
            None \<Rightarrow> return_io None
          | Some (e, ctx1) \<Rightarrow>
              if e \<noteq> TT_SUCCESS then return_io (Some (TT_ERROR_NETWORK, ctx1))
              else do {
                (e, ctx2) \<leftarrow> init_lists ev ctx1;
                if e \<noteq> TT_SUCCESS then return_io (Some (e, ctx2))
                else do {
                  (e, ctx3) \<leftarrow> apex_monitor_init ctx2;
                  return_io (Some (if e \<noteq> TT_SUCCESS then TT_ERROR_NETWORK else TT_SUCCESS, ctx3))
                }
              })
       } })"
  have ke: "steady_env rest"
    unfolding rest_def by (intro ke_rules ke_own ke_calibrate ke_trpc ke_init_lists ke_monitor)
  have ret: "returns (decodes le) rest"
    unfolding rest_def
    by (intro returns_bind [OF stable_decodes ke_own] returns_bind [OF stable_decodes ke_calibrate] returns_if
        returns_value returns_bind_option [OF stable_decodes ke_trpc trpc_returns] returns_prod
        returns_bind [OF stable_decodes ke_init_lists] returns_bind [OF stable_decodes ke_monitor]) simp_all
  let ?s1 = "s\<lparr>trace := trace s @ [Kern Getpid]\<rparr>"
  obtain e s2 where sig: "run_state (setup_signal_handlers ctx) ?s1 = (e, s2)" "same_env ?s1 s2" "g_ctx (globals s2)"
    using run_setup_signals by blast
  have run: "run_state (initialize le ev ctx) s =
      (if e \<noteq> TT_SUCCESS then (Some (TT_ERROR_SIGNAL, ctx), s2) else run_state rest s2)"
    by (simp add: initialize_def sig(1) rest_def)
  have env: "same_env s s2" using sig(2) by (simp add: same_env_def)
  obtain r where "result rest s2 = Some r" using ret decodes_env [OF env assms] unfolding returns_def by blast
  then obtain s3 where r: "run_state rest s2 = (Some r, s3)" by (metis prod.collapse)
  have "keeps_env s2 (after rest s2)" using ke by (simp add: state_io_rel_def)
  then have "same_env s s3" "g_ctx (globals s3)" using env sig(3) by (simp_all add: r env_defs)
  with r env sig(3) show ?thesis unfolding run by simp
qed

lemma main_returns:
  assumes "stops_from p s" and "decodes le s" and "p + 2 \<le> fuel"
  shows "result (main le ev fuel args) s \<noteq> None"
proof -
  obtain e ctx s0 where p: "run_state (parse_config args zero_context) s = ((e, ctx), s0)" by (metis prod.collapse)
  have env: "same_env s s0"
    using only_g_env [OF settles_any(1) [OF conf_settles [of args]], of s] by (simp add: p same_env_def)
  from initialize_returns [OF decodes_env [OF env assms(2)]] obtain e1 ctx1 s1 where
    i: "run_state (initialize le ev ctx) s0 = (Some (e1, ctx1), s1)" "same_env s0 s1" "g_ctx (globals s1)"
    by (metis prod.collapse)
  have fin: "result (finish ev x) t = Some (if fst x = TT_SUCCESS then EXIT_SUCCESS else EXIT_FAILURE)" for x t
    by (simp add: finish_def case_prod_beta)
  have "told_to_stop p s1" using assms(1) env i(2,3) by (simp add: told_to_stop_def stops_from_def same_env_def)
  then have "result (run fuel n ctx1) s1 \<noteq> None" for n using run_returns [OF assms(3)] by (simp add: returns_def)
  then obtain x where "result (run fuel (length (trace s0) + 3) ctx1) s1 = Some x" by blast
  then show ?thesis by (simp add: main_def p i(1) case_prod_beta fin)
qed

section \<open>Properties\<close>

text \<open>
  C15. Every run of the node that is told to stop comes to an end, whatever else the system answers and
  whichever step fails. If from some position on every wait of the main loop is interrupted by SIGINT or SIGTERM and
  every request for the common start that is answered is acknowledged, and no schedule that is delivered overruns an
  array, then the program exits (the fuel of its loops need only be two more than that position), with 0 or 1;
  as many time triggers have been freed as were allocated; and the exit code is 0 only if SIGINT or SIGTERM was
  delivered during the run.
\<close>

theorem main_exit:
  assumes "stops_from p s" and "decodes le s" and "p + 2 \<le> fuel"
  shows "\<exists>code s'. run_state (main le ev fuel args) s = (Some code, s') \<and> code \<in> {EXIT_SUCCESS, EXIT_FAILURE} \<and>
    made tt_alloc (main le ev fuel args) s = made tt_free (main le ev fuel args) s \<and>
    (code = EXIT_SUCCESS \<longrightarrow> (\<exists>g\<in>{SIGINT, SIGTERM}. g \<in> set (delivered (length (trace s)) s')))"
proof -
  obtain code where "result (main le ev fuel args) s = Some code" using main_returns [OF assms] by blast
  then obtain s' where r: "run_state (main le ev fuel args) s = (Some code, s')" by (metis prod.collapse)
  have "code \<in> {EXIT_SUCCESS, EXIT_FAILURE}" and
    "int (made tt_alloc (main le ev fuel args) s) - int (made tt_free (main le ev fuel args) s) = 0"
    using main_settles [of le ev fuel args] r unfolding settles_def by (metis fst_conv)+
  moreover have "stop_signal (length (trace s)) s'" if "code = EXIT_SUCCESS"
    using main_signalled [of le ev fuel args "length (trace s)"] r that unfolding signalled_def by (metis fst_conv order_refl snd_conv)
  ultimately show ?thesis using r by (auto simp: stop_signal_def)
qed

section \<open>A run with one task\<close>

text \<open>
  The bus delivers a schedule with one task for node 1, a thread of that name exists, every call succeeds and each wait
  is interrupted by SIGTERM.
\<close>

definition run_task :: task_info where
  "run_task = zero_task_info\<lparr>ti_name := ''t'', ti_node_id := ''1''\<rparr>"

definition run_answers :: "call \<Rightarrow> answer" where
  "run_answers c = (case c of
      Kern (Opendir p) \<Rightarrow> answer0\<lparr>ret := 1, out_dir := [(''7'', True)]\<rparr>
    | Kern (Fopen p m) \<Rightarrow> answer0\<lparr>ret := 1, out_text := ''t'' @ [CHR 0x0A]\<rparr>
    | Kern (Calloc w) \<Rightarrow> answer0\<lparr>ret := 1\<rparr>
    | Kern (Epoll_wait efd) \<Rightarrow> answer0\<lparr>signals := [SIGTERM]\<rparr>
    | Bus (Message_read f) \<Rightarrow> answer0\<lparr>out_ack := 1\<rparr>
    | _ \<Rightarrow> answer0\<lparr>out_bytes := enc_schedule 0 (take 63 (cstr ''w'')) [run_task]\<rparr>)"

definition run_os :: os where
  "run_os = os_of run_answers"

lemma run_answers_ret:
  "ret (run_answers (Bus b)) = 0" "ret (run_answers (Bpf q)) = 0" "ret (run_answers (Kern (Clock_gettime clk))) = 0"
  "ret (run_answers (Kern (Sigaction g))) = 0" "ret (run_answers (Kern (Socket f))) = 0" "ret (run_answers (Kern (Access f))) = 0"
  "ret (run_answers (Kern (Bind i f))) = 0" "ret (run_answers (Kern (Chmod f k))) = 0" "ret (run_answers (Kern (Timer_create clk e))) = 0"
  "ret (run_answers (Kern (Timer_settime x y z))) = 0" "ret (run_answers (Kern Epoll_create1)) = 0"
  "ret (run_answers (Kern (Epoll_ctl_add i j))) = 0" "ret (run_answers (Kern (Epoll_wait i))) = 0"
  "ret (run_answers (Kern (Pidfd_open i u))) = 0" "ret (run_answers (Kern (Calloc w))) = 1"
  by (simp_all add: run_answers_def answer0_def split: bcall.split)

text \<open>\<open>E\<close>: the states of the run.\<close>

definition in_run :: "os \<Rightarrow> bool" where
  "in_run s \<longleftrightarrow> same_env run_os s"

lemma in_run_env: "in_run s \<Longrightarrow> answers s = (\<lambda>n. run_answers)" "in_run s \<Longrightarrow> heap s = zero_alloc"
  by (simp_all add: in_run_def same_env_def run_os_def)

lemma in_run_after: "in_run s \<Longrightarrow> steady_env m \<Longrightarrow> in_run (after m s)"
  by (simp add: in_run_def state_io_rel_def env_defs)

lemma run_delivers: "in_run s \<Longrightarrow> bus_delivers s node (enc_schedule 0 (take 63 (cstr ''w'')) [run_task])"
  by (simp add: bus_delivers_def in_run_env) (simp add: run_answers_def answer0_def)

lemma run_memory: "in_run s \<Longrightarrow> plenty (heap s)" "in_run s \<Longrightarrow> calloc_ok s"
  by (simp_all add: in_run_env calloc_ok_def run_answers_ret)

lemma run_task_wire: "list_all wire_task [run_task]"
  by (simp add: run_task_def wire_task_def task_ok_def zero_task_info_def fits_def field_sizes)

definition ctx_connected :: "tt_context \<Rightarrow> tt_context" where
  "ctx_connected ctx = ctx\<lparr>cx_event := True, cx_dbus := True\<rparr>"

definition ctx_fetched :: "tt_context \<Rightarrow> tt_context" where
  "ctx_fetched ctx = (ctx_connected ctx)\<lparr>cx_hp_manager := fresh_hp ''w'' 0 (cx_hp_manager ctx),
     cx_sched_info := (cx_sched_info ctx)\<lparr>si_nr_tasks := 1, si_tasks := [run_task], si_workload_id := ''w''\<rparr>\<rparr>"

lemma run_connects:
  "in_run s \<Longrightarrow> result (init_trpc_connection a p ctx) s = (0, ctx_connected ctx)"
  by (simp add: init_trpc_connection_def trpc_client_create_def init_dbus_client_def in_run_env run_answers_ret ctx_connected_def Let_def)

lemma run_fetches:
  assumes "in_run s" and "\<not> cfg_enable_apex (cx_config ctx)"
  shows "result (init_trpc le ctx) s = Some (TT_SUCCESS, ctx_fetched ctx)"
proof -
  let ?c = "init_trpc_connection (cfg_addr (cx_config ctx)) (cfg_port (cx_config ctx)) ctx"
  let ?s = "after ?c s"
  have s: "in_run ?s" by (rule in_run_after [OF assms(1) ke_connection(1)])
  have "result (get_sched_info le (ctx_connected ctx)) ?s = Some (0, ctx_fetched ctx)"
    using get_sched_info_decodes [OF run_memory [OF s] run_task_wire _ run_delivers [OF s], of le "ctx_connected ctx"]
    by (simp add: ctx_fetched_def ctx_connected_def cstr_def)
  moreover have r: "TT_MAX_CONNECTION_RETRIES = Suc 299" by (simp add: TT_MAX_CONNECTION_RETRIES_def)
  moreover have "\<not> cfg_enable_apex (cx_config (ctx_connected ctx))" using assms(2) by (simp add: ctx_connected_def)
  ultimately show ?thesis
    unfolding init_trpc_def r init_trpc_loop.simps by (simp add: case_prod_beta run_connects [OF assms(1)])
qed

lemma run_builds:
  assumes "in_run s" and "cfg_node_id (cx_config ctx) = ''1''"
  shows "result (init_task_list ev (ctx_fetched ctx)) s =
    (TT_SUCCESS, add_nodes [trigger_for s run_task] (ctx_fetched ctx))"
proof -
  have st: "steady s" using in_run_env(1) [OF assms(1)] by (simp add: steady_def)
  have "atoi ''7'' = 7" by (simp add: atoi_def strtol10_def cstr_def is_space_def is_digit_def to_int32_id)
  then have "found_pid s ''t'' = 7"
    by (simp add: found_pid_def dir_pids_def threads_named_def comm_of_def in_run_env [OF assms(1)] run_answers_def answer0_def cstr_def)
  then have "filter (startable s (ctx_fetched ctx)) [run_task] = [run_task]"
    using assms(2) by (simp add: startable_def in_run_env [OF assms(1)] run_answers_ret run_task_def ctx_fetched_def ctx_connected_def)
  with steady_init_tasks [OF st, of ev "[run_task]" "ctx_fetched ctx" 0 "trace s"] show ?thesis
    by (simp add: init_task_list_def case_prod_beta ctx_fetched_def)
qed

definition ctx_ready :: "os \<Rightarrow> tt_context \<Rightarrow> tt_context" where
  "ctx_ready s ctx = (add_nodes [trigger_for s run_task] (ctx_fetched ctx))\<lparr>cx_apex_fd := 0\<rparr>"

lemma run_calibrates: "in_run s \<Longrightarrow> result calibrate_bpf_time_offset s = TT_SUCCESS"
proof -
  have "in_run s \<Longrightarrow> result (calibrate_loop n b) s = TT_SUCCESS" for n b s
  proof (induction n arbitrary: b s)
    case (Suc n)
    have "in_run (s\<lparr>trace := t, globals := g\<rparr>)" "in_run (s\<lparr>trace := t\<rparr>)" for t g
      using Suc.prems by (simp_all add: in_run_def same_env_def)
    with Suc.IH Suc.prems show ?case by (simp add: in_run_env run_answers_ret Let_def)
  qed simp
  then show "in_run s \<Longrightarrow> result calibrate_bpf_time_offset s = TT_SUCCESS"
    by (simp add: calibrate_bpf_time_offset_def calibrate_bpf_ktime_offset_internal_def)
qed

lemma run_initializes:
  assumes "in_run s" and "\<not> cfg_enable_apex (cx_config ctx)" and "cfg_node_id (cx_config ctx) = ''1''"
  shows "\<exists>s'. result (initialize le ev ctx) s = Some (TT_SUCCESS, ctx_ready s' ctx)"
proof -
  let ?own = "set_own_scheduling (ret (run_answers (Kern Getpid))) ctx"
  define s2 where "s2 = after (setup_signal_handlers ctx) (s\<lparr>trace := trace s @ [Kern Getpid]\<rparr>)"
  define s3 where "s3 = after ?own s2"
  define s4 where "s4 = after calibrate_bpf_time_offset s3"
  define s5 where "s5 = after (init_trpc le ctx) s4"
  define s6 where "s6 = after (bpf_on ev) s5"
  define s7 where "s7 = after (init_task_list ev (ctx_fetched ctx)) s6"
  have sig: "result (setup_signal_handlers ctx) (s\<lparr>trace := trace s @ [Kern Getpid]\<rparr>) = TT_SUCCESS"
    by (simp add: setup_signal_handlers_def in_run_env [OF assms(1)] run_answers_ret)
  have "same_env (s\<lparr>trace := trace s @ [Kern Getpid]\<rparr>) s2"
    using run_setup_signals [of ctx "s\<lparr>trace := trace s @ [Kern Getpid]\<rparr>"] by (auto simp: s2_def)
  then have s2: "in_run s2" using assms(1) by (simp add: in_run_def same_env_def)
  have s3: "in_run s3" unfolding s3_def by (rule in_run_after [OF s2 ke_own])
  have s4: "in_run s4" unfolding s4_def by (rule in_run_after [OF s3 ke_calibrate])
  have s5: "in_run s5" unfolding s5_def by (rule in_run_after [OF s4 ke_trpc])
  have s6: "in_run s6" unfolding s6_def by (rule in_run_after [OF s5 ke_bpf_on])
  have s7: "in_run s7" unfolding s7_def by (rule in_run_after [OF s6 ke_only [OF only_init_task_list]])
  have lists: "run_state (init_lists ev (ctx_fetched ctx)) s5 = ((TT_SUCCESS, add_nodes [trigger_for s6 run_task] (ctx_fetched ctx)), s7)"
    using run_builds [OF s6 assms(3), of ev] assms(2)
    by (simp add: init_lists_def s6_def [symmetric] s7_def case_prod_beta ctx_fetched_def ctx_connected_def fresh_hp_def cstr_def)
  have mon: "result (apex_monitor_init c) s7 = (TT_SUCCESS, c\<lparr>cx_apex_fd := 0\<rparr>)" for c
    by (simp add: apex_monitor_init_def in_run_env [OF s7] run_answers_ret)
  have "result (initialize le ev ctx) s = Some (TT_SUCCESS, ctx_ready s6 ctx)"
    by (simp add: initialize_def case_prod_beta sig s2_def [symmetric] in_run_env [OF assms(1)] s3_def [symmetric] s4_def [symmetric]
        run_calibrates [OF s3] run_fetches [OF s4 assms(2)] s5_def [symmetric] lists mon ctx_ready_def)
  then show ?thesis ..
qed

lemma run_loops:
  assumes "in_run s" and "g_ctx (globals s)"
  shows "\<exists>ctx'. result (epoll_loop 2 n ctx) s = Some (TT_SUCCESS, ctx')"
proof -
  define s1 where "s1 = s\<lparr>trace := trace s @ [Kern Epoll_create1]\<rparr>"
  define s2 where "s2 = after (epoll_add 0 (cx_tt_list ctx)) s1"
  define s3 where "s3 = s2\<lparr>trace := trace s2 @ [Kern (Epoll_ctl_add 0 (cx_apex_fd ctx))]\<rparr>"
  have s1: "in_run s1" "g_ctx (globals s1)" using assms by (simp_all add: s1_def in_run_def same_env_def)
  have "keeps_env s1 s2" unfolding s2_def using ke_epoll_add by (simp add: state_io_rel_def)
  then have s2: "in_run s2" "g_ctx (globals s2)" using s1 by (simp_all add: env_defs in_run_def)
  then have s3: "in_run s3" "g_ctx (globals s3)" by (simp_all add: s3_def in_run_def same_env_def)
  have "interrupts 0 0 s3"
    by (simp add: interrupts_def in_run_env [OF s3(1)] run_answers_ret) (simp add: run_answers_def)
  from epoll_rounds_end [OF this s3(2), of 2 n ctx] obtain ctx' where r: "result (epoll_rounds 2 0 n ctx) s3 = Some (TT_SUCCESS, ctx')"
    by auto
  have "result (epoll_add 0 (cx_tt_list ctx)) s1"
    by (rule epoll_add_ok) (simp add: in_run_env [OF s1(1)] run_answers_ret)
  then show ?thesis
    using r by (simp add: epoll_loop_def in_run_env [OF assms(1)] in_run_env [OF s2(1)] run_answers_ret s1_def [symmetric]
        s2_def [symmetric] s3_def [symmetric] case_prod_beta del: epoll_rounds.simps)
qed

lemma run_runs:
  assumes "in_run s" and "\<not> cfg_enable_sync (cx_config ctx)" and "hp_hyperperiod_us (cx_hp_manager ctx) = 0" and "g_ctx (globals s)"
  shows "\<exists>ctx'. result (run 2 n ctx) s = Some (TT_SUCCESS, ctx')"
proof -
  have arm: "fst (result (arm_timers clk st i tts) s') = TT_SUCCESS" if "in_run s'" for clk st i tts s'
    using that
  proof (induction tts arbitrary: i s')
    case (Cons tt_p tts)
    have "in_run (s'\<lparr>trace := t\<rparr>)" for t using Cons.prems by (simp add: in_run_def same_env_def)
    with Cons show ?case by (simp add: case_prod_beta in_run_env run_answers_ret Let_def)
  qed simp
  define s1 where "s1 = after (start_timers ctx) s"
  have "in_run (s\<lparr>trace := t\<rparr>)" for t using assms(1) by (simp add: in_run_def same_env_def)
  from arm [OF this] obtain tts ts where timers: "result (start_timers ctx) s = (TT_SUCCESS, ctx\<lparr>cx_starttimer_ts := ts, cx_tt_list := tts\<rparr>)"
    using assms(2) by (simp add: start_timers_def case_prod_beta)
  let ?ctx = "ctx\<lparr>cx_starttimer_ts := ts, cx_tt_list := tts\<rparr>"
  have ke: "keeps_env s s1" unfolding s1_def using ke_timers(1) by (simp add: state_io_rel_def)
  then have s1: "in_run s1" "g_ctx (globals s1)" using assms(1,4) by (simp_all add: env_defs in_run_def)
  have hyp: "run_state (start_hyperperiod_timer ?ctx) s1 = ((TT_SUCCESS, ?ctx), s1)"
    using assms(3) by (simp add: start_hyperperiod_timer_def)
  from run_loops [OF s1] have "\<exists>ctx'. result (epoll_loop 2 n ?ctx) s1 = Some (TT_SUCCESS, ctx')" .
  then show ?thesis
    using assms(2) by (simp add: run_def sync_timer_with_server_def timers s1_def [symmetric] hyp case_prod_beta)
qed

lemma run_decodes: "decodes le run_os"
proof -
  let ?bytes = "enc_schedule 0 (take 63 (cstr ''w'')) [run_task]"
  have bytes: "out_bytes (answers run_os m (Bus Message_read_array)) = ?bytes" for m
    by (simp add: run_os_def) (simp add: run_answers_def)
  have fit: "fits WORKLOAD_ID_MAX (take 63 (cstr ''w''))" using fits_take_cstr [of 63 "''w''"] by (simp add: field_sizes)
  have "result (deserialize_sched_info le ctx b si) s' \<noteq> None"
    if s': "same_env run_os s'" and b: "make_serial_buf (heap run_os) ?bytes (length ?bytes) = Some b" for ctx b si s'
  proof -
    have "b = \<lparr>sb_data = ?bytes, sb_pos = length ?bytes, sb_size = length ?bytes\<rparr>"
      using b by (auto simp: make_serial_buf_def split: option.splits)
    then have "buf_ok b" "content b = ?bytes" by (simp_all add: buf_ok_def content_def)
    moreover have "calloc_ok s'" using run_memory(2) s' by (simp add: in_run_def)
    ultimately show ?thesis
      using run_deserialize_sched_info [OF _ run_task_wire _ fit] by simp
  qed
  then show ?thesis unfolding decodes_def bytes by blast
qed

lemma made_bind_ge:
  assumes "only_g (\<lambda>c. True) m" and "\<And>x. only_g (\<lambda>c. True) (f x)"
  shows "made Q m s \<le> made Q (State_Monad.bind m f) s"
    and "made Q (f (result m s)) (after m s) \<le> made Q (State_Monad.bind m f) s"
  using made_bind [OF assms] by simp_all

lemma main_made_ge:
  assumes "run_state (parse_config args zero_context) s0 = ((TT_SUCCESS, ctx), s)"
  shows "made tt_alloc (initialize le ev ctx) s \<le> made tt_alloc (main le ev fuel args) s0"
proof -
  define rest where "rest = (\<lambda>n r. case r of
      None \<Rightarrow> return_io None
    | Some (e, ctx1) \<Rightarrow>
        if e \<noteq> TT_SUCCESS then finish ev (e, ctx1)
        else do { r \<leftarrow> run fuel (n + 3) ctx1; (case r of None \<Rightarrow> return_io None | Some x \<Rightarrow> finish ev x) })"
  define go where "go = (\<lambda>(e, ctx). if e \<noteq> TT_SUCCESS then return_io (Some EXIT_FAILURE)
      else State_Monad.bind position (\<lambda>n. State_Monad.bind (initialize le ev ctx) (rest n)))"
  note any = finish_any settles_any(1) [OF keeps_run] settles_any(1) [OF keeps_initialize]
    tch.effect_if tch.effect_bind tch.effect_return tch.effect_prod tch.effect_option only_g_mono [OF quiet_position(1)]
  have rest: "only_g (\<lambda>c. True) (rest n r)" for n r unfolding rest_def by (intro any)
  have go: "only_g (\<lambda>c. True) (go r)" for r unfolding go_def by (intro any rest) simp_all
  have "main le ev fuel args = State_Monad.bind (parse_config args zero_context) go"
    unfolding main_def go_def rest_def by (rule refl)
  then have "made tt_alloc (go (TT_SUCCESS, ctx)) s \<le> made tt_alloc (main le ev fuel args) s0"
    using made_bind_ge(2) [OF settles_any(1) [OF conf_settles [of args]] go, where Q = tt_alloc and s = s0] by (simp add: assms)
  moreover have "made tt_alloc (State_Monad.bind (initialize le ev ctx) (rest (length (trace s)))) s \<le> made tt_alloc (go (TT_SUCCESS, ctx)) s"
    using made_bind_ge(2) [of position "\<lambda>n. State_Monad.bind (initialize le ev ctx) (rest n)" tt_alloc s]
    by (simp add: go_def any rest)
  moreover have "made tt_alloc (initialize le ev ctx) s \<le> made tt_alloc (State_Monad.bind (initialize le ev ctx) (rest (length (trace s)))) s"
    by (rule made_bind_ge(1) [OF settles_any(1) [OF keeps_initialize] rest])
  ultimately show ?thesis by linarith
qed

lemma run_config:
  "\<exists>ctx s. run_state (parse_config [] zero_context) run_os = ((TT_SUCCESS, ctx), s) \<and> in_run s \<and> trace s = [] \<and>
     \<not> cfg_enable_apex (cx_config ctx) \<and> \<not> cfg_enable_sync (cx_config ctx) \<and> cfg_node_id (cx_config ctx) = ''1'' \<and>
     cx_tt_list ctx = []"
  by (simp add: parse_config_def config_set_defaults_def validate_config_cases strncpy_field_def field_sizes cstr_def
      in_run_def same_env_def Let_def) (simp add: run_os_def)

lemma run_exits: "result (main le ev 2 []) run_os = Some EXIT_SUCCESS \<and> 1 \<le> made tt_alloc (main le ev 2 []) run_os"
proof -
  obtain ctx s where conf: "run_state (parse_config [] zero_context) run_os = ((TT_SUCCESS, ctx), s)" "in_run s" "trace s = []"
      "\<not> cfg_enable_apex (cx_config ctx)" "\<not> cfg_enable_sync (cx_config ctx)" "cfg_node_id (cx_config ctx) = ''1''" "cx_tt_list ctx = []"
    using run_config by blast
  obtain s6 where init: "result (initialize le ev ctx) s = Some (TT_SUCCESS, ctx_ready s6 ctx)"
    using run_initializes [OF conf(2,4,6)] by blast
  have "decodes le s" using decodes_env [OF _ run_decodes] conf(2) by (simp add: in_run_def)
  then obtain s7 where s7: "run_state (initialize le ev ctx) s = (Some (TT_SUCCESS, ctx_ready s6 ctx), s7)" "in_run s7" "g_ctx (globals s7)"
    using initialize_returns [of le s ev ctx] init conf(2) by (auto simp: in_run_def same_env_def)
  let ?ctx = "ctx_ready s6 ctx"
  have "\<not> cfg_enable_sync (cx_config ?ctx)" "hp_hyperperiod_us (cx_hp_manager ?ctx) = 0"
    using conf(5) by (simp_all add: ctx_ready_def add_nodes_def ctx_fetched_def ctx_connected_def fresh_hp_def)
  from run_runs [OF s7(2) this s7(3)] obtain ctx' where r: "result (run 2 3 ?ctx) s7 = Some (TT_SUCCESS, ctx')" by blast
  have fin: "result (finish ev x) t = Some (if fst x = TT_SUCCESS then EXIT_SUCCESS else EXIT_FAILURE)" for x t
    by (simp add: finish_def case_prod_beta)
  have "result (main le ev 2 []) run_os = Some EXIT_SUCCESS"
    using r by (simp add: main_def conf(1,3) s7(1) case_prod_beta fin)
  moreover have "int (made tt_alloc (initialize le ev ctx) s) - int (made tt_free (initialize le ev ctx) s) = 1"
  proof -
    have "kept ctx ?ctx (int (made tt_alloc (initialize le ev ctx) s) - int (made tt_free (initialize le ev ctx) s))"
      using keeps_initialize [where ctx = ctx and le = le and ev = ev] init unfolding settles_def by blast
    then show ?thesis using conf(7) by (simp add: kept_def ctx_ready_def add_nodes_def ctx_fetched_def ctx_connected_def)
  qed
  moreover have "made tt_alloc (initialize le ev ctx) s \<le> made tt_alloc (main le ev 2 []) run_os"
    by (rule main_made_ge [OF conf(1)])
  ultimately show ?thesis by simp
qed

lemma main_exit_witness:
  "\<exists>s'. run_state (main True False 2 []) run_os = (Some EXIT_SUCCESS, s') \<and>
     1 \<le> made tt_alloc (main True False 2 []) run_os \<and>
     made tt_alloc (main True False 2 []) run_os = made tt_free (main True False 2 []) run_os \<and>
     (\<exists>g\<in>{SIGINT, SIGTERM}. g \<in> set (delivered 0 s'))"
proof -
  have "stops_from 0 run_os" by (simp add: stops_from_def run_os_def) (simp add: run_answers_def)
  from main_exit [OF this run_decodes, where fuel = 2 and ev = False and args = "[]" and le = True] show ?thesis
    using run_exits [of True False] by (auto simp: run_os_def)
qed

end
