(* ===== verification/Fetch_Race.thy ===== *)
theory Fetch_Race
  imports Orchestrator_Server
begin

text \<open>
  A closer look at the two threads of the orchestrator. The call-backs for the nodes copy the map of the
  schedules under the lock (\<^verbatim>\<open>GetSchedInfoMap\<close> in \<^verbatim>\<open>schedinfo_service.cpp\<close>) and work on the copy without it
  (\<^verbatim>\<open>dbus_server.cpp\<close>). The copy shares the arrays of the tasks with the original, and a workload that
  replaces another frees them (\<^verbatim>\<open>AddSchedInfo\<close>, \<^verbatim>\<open>GlobalScheduler::cleanup_schedules\<close>). Here a call-back is two steps
  with any number of requests in between. The lemmas show what holds in every such run, and that the
  call-backs can read arrays that have been freed.
\<close>

section \<open>Call-backs in progress\<close>

text \<open>A call-back that holds a copy of the map: a node fetches the schedule, or reports a miss.\<close>

datatype reader = Fetch sched_map | Miss string string sched_map

primrec copy_of :: "reader \<Rightarrow> sched_map" where
  "copy_of (Fetch m) = m"
| "copy_of (Miss name task m) = m"

text \<open>
  Whether the rest of the call-back reads an array of tasks: packing does, unless the buffer is there
  already; a report looks through the tasks of the node.
\<close>

primrec reads_tasks :: "reader \<Rightarrow> server \<Rightarrow> bool" where
  "reads_tasks (Fetch m) sr \<longleftrightarrow> m \<noteq> [] \<and> sr_buf sr = None \<and> list_ex (\<lambda>(n, ts). ts \<noteq> []) (snd (hd m))"
| "reads_tasks (Miss name task m) sr \<longleftrightarrow> list_ex (\<lambda>(w, nodes). list_ex (\<lambda>(n, ts). n = name \<and> ts \<noteq> []) nodes) m"

section \<open>Interleavings\<close>

text \<open>
  The server and the call-back in progress, with the mark that the arrays of its copy have been freed. The
  call-backs run one after the other in the thread of the event loop. A step that would read a freed array
  is left out: \<open>use_after_free\<close> is the state before it.
\<close>

type_synonym race_state = "server \<times> (reader \<times> bool) option"

definition use_after_free :: "race_state \<Rightarrow> bool" where
  "use_after_free st = (case st of (sr, Some (r, freed)) \<Rightarrow> freed \<and> reads_tasks r sr | _ \<Rightarrow> False)"

definition after_add :: "sched_map \<Rightarrow> (reader \<times> bool) option \<Rightarrow> (reader \<times> bool) option" where
  "after_add m f = map_option (\<lambda>(r, freed). (r, freed \<or> copy_of r \<noteq> [] \<and> m \<noteq> [])) f"

inductive race_step :: "environment \<Rightarrow> race_state \<Rightarrow> race_state \<Rightarrow> bool" for e where
  start: "race_step e (sr, None) (SetSchedInfoServer True sr, None)"
| add: "AddSchedInfo (env_rnd e) (env_sort e) (env_malloc_ok e) request (sr_service sr) = Some (status, sv) \<Longrightarrow>
    race_step e (sr, f) (sr\<lparr>sr_service := sv\<rparr>, after_add (schedules sr) f)"
| begin_fetch: "sr_attached sr \<Longrightarrow> fetch_begin sr = (m, sr') \<Longrightarrow> race_step e (sr, None) (sr', Some (Fetch m, False))"
| begin_miss: "sr_attached sr \<Longrightarrow> GetSchedInfoMap False (sr_service sr) = (m, changed, sv) \<Longrightarrow>
    race_step e (sr, None) (sr, Some (Miss name task m, False))"
| end_fetch: "\<not> (freed \<and> reads_tasks (Fetch m) sr) \<Longrightarrow> fetch_end (env_alloc e) (env_le e) m sr = Some (bytes, sr') \<Longrightarrow>
    race_step e (sr, Some (Fetch m, freed)) (sr', None)"
| end_miss: "\<not> (freed \<and> reads_tasks (Miss name task m) sr) \<Longrightarrow> race_step e (sr, Some (Miss name task m, freed)) (sr, None)"
| sync: "SyncCallback_server name now sr = (r, sr') \<Longrightarrow> race_step e (sr, None) (sr', None)"

definition race_reachable :: "environment \<Rightarrow> node_config_manager option \<Rightarrow> race_state \<Rightarrow> bool" where
  "race_reachable e m st \<longleftrightarrow> (race_step e)\<^sup>*\<^sup>* (new_server m, None) st"

section \<open>What holds in every interleaving\<close>

definition race_inv :: "environment \<Rightarrow> race_state \<Rightarrow> bool" where
  "race_inv e st =
     (case st of (sr, f) \<Rightarrow> coherent e sr \<and>
        (case f of
           None \<Rightarrow> True
         | Some (r, freed) \<Rightarrow> sr_attached sr \<and>
             (if freed then copy_of r \<noteq> [] \<and> sv_sched_info_changed (sr_service sr)
              else copy_of r = [] \<or> copy_of r = schedules sr) \<and>
             (case r of
                Fetch m \<Rightarrow> \<not> freed \<and> m \<noteq> [] \<longrightarrow> \<not> sv_sched_info_changed (sr_service sr)
              | Miss _ _ _ \<Rightarrow> True)))"

lemma add_inv:
  assumes "AddSchedInfo (env_rnd e) (env_sort e) (env_malloc_ok e) request (sr_service sr) = Some (status, sv)"
    and "race_inv e (sr, f)"
  shows "race_inv e (sr\<lparr>sr_service := sv\<rparr>, after_add (schedules sr) f)"
proof -
  have c: "coherent e sr" using assms(2) by (simp add: race_inv_def)
  have "coherent e (sr\<lparr>sr_service := sv\<rparr>)" by (rule step_coherent [OF server_step.add [OF assms(1)] c])
  moreover have "sv_sched_info_changed sv \<longleftrightarrow> sv_sched_info_changed (sr_service sr) \<or> schedules sr \<noteq> []"
    using AddSchedInfo_result [OF assms(1)] c by (simp add: coherent_def)
  ultimately show ?thesis using assms(2)
    by (auto simp: race_inv_def after_add_def split: option.splits prod.splits if_splits reader.splits)
qed

lemma begin_inv:
  assumes "sr_attached sr" and "fetch_begin sr = (m, sr')" and "race_inv e (sr, None)"
  shows "race_inv e (sr', Some (Fetch m, False))"
  using begin_coherent [OF _ assms(2)] assms(1,3) by (auto simp: race_inv_def)

lemma end_inv:
  assumes "\<not> (freed \<and> reads_tasks (Fetch m) sr)" and "fetch_end (env_alloc e) (env_le e) m sr = Some (bytes, sr')"
    and "race_inv e (sr, Some (Fetch m, freed))"
  shows "race_inv e (sr', None)"
proof (cases "m = [] \<or> sr_buf sr \<noteq> None")
  case True
  then have "sr' = sr" using assms(2) by (auto simp: fetch_end_def SerializeSchedInfo_def split: if_splits)
  then show ?thesis using assms(3) by (simp add: race_inv_def)
next
  case False
  have "sr' = sr \<or> (\<exists>b. sr' = sr\<lparr>sr_buf := Some b\<rparr> \<and> packed (env_alloc e) (env_le e) m sr = Some (Some b))"
    using False assms(2) by (auto simp: fetch_end_def SerializeSchedInfo_def split: option.splits)
  moreover have "packed (env_alloc e) (env_le e) k (sr\<lparr>sr_buf := b\<rparr>) = packed (env_alloc e) (env_le e) k sr" for k b
    by (rule packed_cong) simp_all
  ultimately show ?thesis using False assms(3)
    by (auto simp: race_inv_def coherent_def split: if_splits)
qed

lemma race_step_inv: "race_step e st st' \<Longrightarrow> race_inv e st \<Longrightarrow> race_inv e st'"
proof (induction rule: race_step.induct)
  case (start sr)
  then show ?case using step_coherent [OF server_step.start] by (simp add: race_inv_def)
next
  case (add request sr status sv f)
  then show ?case by (rule add_inv)
next
  case (begin_fetch sr m sr')
  then show ?case by (rule begin_inv)
next
  case (begin_miss sr m changed sv name task)
  then show ?case by (auto simp: race_inv_def GetSchedInfoMap_def)
next
  case (end_fetch freed m sr bytes sr')
  then show ?case by (rule end_inv)
next
  case (end_miss freed name task m sr)
  then show ?case by (simp add: race_inv_def)
next
  case (sync name now sr r sr')
  then show ?case using step_coherent [OF server_step.sync] by (auto simp: race_inv_def)
qed

lemma race_reachable_inv: "race_reachable e m st \<Longrightarrow> race_inv e st"
  unfolding race_reachable_def
proof (induction rule: rtranclp_induct)
  case base
  have "reachable e m (new_server m)" by (simp add: reachable_def)
  then show ?case by (simp add: race_inv_def reachable_coherent)
next
  case (step y z)
  then show ?case using race_step_inv by blast
qed

text \<open>
  C8. The call-backs for the nodes under every interleaving with new workloads, up to the point where
  freed memory would be read: the buffer is that of the current schedule or marked as stale, and
  a call-back in progress works on the current schedule, on an empty one, or on one that
  has been replaced and freed meanwhile; in the last case the mark is set, so that the next fetch packs
  anew. With memory and no replacement in between, the fetch returns the bytes of the current schedule.
\<close>

theorem fetch_interleavings:
  assumes "race_reachable e mgr (sr, Some (r, freed))" and "plenty (env_alloc e)"
  shows "coherent e sr \<and>
    (if freed then sv_sched_info_changed (sr_service sr) else copy_of r = [] \<or> copy_of r = schedules sr) \<and>
    (\<forall>w nodes k. r = Fetch ((w, nodes) # k) \<and> \<not> freed \<longrightarrow>
      (\<exists>sr'. fetch_end (env_alloc e) (env_le e) ((w, nodes) # k) sr =
        Some (Some (enc_schedule
          (case GetHyperperiodInfo (sv_hyperperiods (sr_service sr)) w of None \<Rightarrow> 0 | Some i \<Rightarrow> hi_hyperperiod_us i)
          (take 63 (cstr w)) (map node_task (concat (map snd nodes)))), sr')))"
proof -
  have inv: "race_inv e (sr, Some (r, freed))" by (rule race_reachable_inv [OF assms(1)])
  have "\<exists>sr'. fetch_end (env_alloc e) (env_le e) ((w, nodes) # k) sr =
        Some (Some (enc_schedule
          (case GetHyperperiodInfo (sv_hyperperiods (sr_service sr)) w of None \<Rightarrow> 0 | Some i \<Rightarrow> hi_hyperperiod_us i)
          (take 63 (cstr w)) (map node_task (concat (map snd nodes)))), sr')"
    if "r = Fetch ((w, nodes) # k)" "\<not> freed" for w nodes k
  proof -
    have sr: "coherent e sr" "sr_attached sr" "schedules sr = (w, nodes) # k" "\<not> sv_sched_info_changed (sr_service sr)"
      using inv that by (auto simp: race_inv_def)
    then have "fetch_begin sr = ((w, nodes) # k, sr)" by (simp add: fetch_begin_def GetSchedInfoMap_def Let_def)
    then have "fetch_end (env_alloc e) (env_le e) ((w, nodes) # k) sr = SchedInfoCallback (env_alloc e) (env_le e) sr"
      using sr(2) by (simp add: SchedInfoCallback_halves)
    then show ?thesis using fetch_current [OF sr(1) assms(2) sr(2)] sr(3) by simp
  qed
  then show ?thesis using inv by (auto simp: race_inv_def)
qed

section \<open>Freed arrays are read\<close>

text \<open>A server with one workload, reached from the start.\<close>

definition one_workload :: server where
  "one_workload = (SetSchedInfoServer True (new_server None))\<lparr>sr_service := sr_service (sample_server False ''a'')\<rparr>"

lemma one_workload:
  "sr_attached one_workload" "sr_buf one_workload = None" "\<not> sv_sched_info_changed (sr_service one_workload)"
  "schedules one_workload = [(''Apex.OS'', [(''a'', [apex_sched_task (hd (rq_tasks (sample_request ''a'')))])])]"
  by (simp_all add: one_workload_def SetSchedInfoServer_def new_server_def sample_server_def SchedInfoServiceImpl_def)

lemma one_workload_reachable: "race_reachable sample_environment None (one_workload, None)"
proof -
  let ?sr = "SetSchedInfoServer True (new_server None)"
  have "sr_service ?sr = SchedInfoServiceImpl None" by (simp add: SetSchedInfoServer_def new_server_def)
  then have "race_step sample_environment (?sr, None) (one_workload, None)"
    using race_step.add [of sample_environment "sample_request ''a''" ?sr 0 "sr_service (sample_server False ''a'')" None]
      sample_add(1) by (simp add: sample_environment_def one_workload_def after_add_def)
  with race_step.start [of sample_environment "new_server None"] show ?thesis
    unfolding race_reachable_def by (meson rtranclp.rtrancl_into_rtrancl rtranclp.rtrancl_refl)
qed

lemma fetch_in_progress:
  "race_reachable sample_environment None (one_workload, Some (Fetch (schedules one_workload), False))"
  "race_reachable sample_environment None (one_workload, Some (Miss ''a'' ''t'' (schedules one_workload), False))"
proof -
  have "fetch_begin one_workload = (schedules one_workload, one_workload)"
    using one_workload(3) by (simp add: fetch_begin_def GetSchedInfoMap_def Let_def)
  then show "race_reachable sample_environment None (one_workload, Some (Fetch (schedules one_workload), False))"
    using one_workload_reachable race_step.begin_fetch [OF one_workload(1)] unfolding race_reachable_def
    by (meson rtranclp.rtrancl_into_rtrancl)
  show "race_reachable sample_environment None (one_workload, Some (Miss ''a'' ''t'' (schedules one_workload), False))"
    using one_workload_reachable race_step.begin_miss [OF one_workload(1)] unfolding race_reachable_def
    by (metis GetSchedInfoMap_def rtranclp.rtrancl_into_rtrancl)
qed

theorem fetch_interleavings_witness:
  "\<exists>sr'. fetch_end zero_alloc True (schedules one_workload) one_workload =
     Some (Some (enc_schedule 0 ''Apex.OS'' [node_task (apex_sched_task (hd (rq_tasks (sample_request ''a''))))]), sr')"
proof -
  have "plenty (env_alloc sample_environment)" by (simp add: sample_environment_def)
  note * = fetch_interleavings [OF fetch_in_progress(1) this, THEN conjunct2, THEN conjunct2]
  show ?thesis
    using * [unfolded one_workload(4), rule_format, OF conjI [OF refl]]
    by (simp add: one_workload(4) sample_environment_def one_workload_def sample_server_def SchedInfoServiceImpl_def
        GetHyperperiodInfo_def cstr_def)
qed

text \<open>
  C9. A workload that arrives while a node fetches the schedule: there is a run, from the start of the
  server, at the end of which the call-back reads an array of tasks that has been freed; and one
  with a report of a miss.
\<close>

theorem fetch_reads_freed:
  "\<exists>sr m sr' m'. race_reachable sample_environment None (sr, Some (Fetch m, True)) \<and> use_after_free (sr, Some (Fetch m, True)) \<and>
     race_reachable sample_environment None (sr', Some (Miss ''a'' ''t'' m', True)) \<and>
     use_after_free (sr', Some (Miss ''a'' ''t'' m', True))"
proof -
  let ?sr = "one_workload\<lparr>sr_service := sr_service (sample_server True ''b'')\<rparr>" and ?m = "schedules one_workload"
  have "sr_service one_workload = sr_service (sample_server False ''a'')" by (simp add: one_workload_def)
  then have "race_step sample_environment (one_workload, f) (?sr, after_add ?m f)" for f
    using race_step.add [of sample_environment "sample_request ''b''" one_workload 0 "sr_service (sample_server True ''b'')" f]
      sample_add(2) by (simp add: sample_environment_def)
  moreover have "after_add ?m (Some (Fetch ?m, False)) = Some (Fetch ?m, True)"
    "after_add ?m (Some (Miss ''a'' ''t'' ?m, False)) = Some (Miss ''a'' ''t'' ?m, True)"
    by (simp_all add: after_add_def one_workload(4))
  ultimately have "race_reachable sample_environment None (?sr, Some (Fetch ?m, True))"
    "race_reachable sample_environment None (?sr, Some (Miss ''a'' ''t'' ?m, True))"
    using fetch_in_progress unfolding race_reachable_def by (metis rtranclp.rtrancl_into_rtrancl)+
  moreover have "use_after_free (?sr, Some (Fetch ?m, True))" "use_after_free (?sr, Some (Miss ''a'' ''t'' ?m, True))"
    using one_workload(2) by (simp_all add: use_after_free_def one_workload(4))
  ultimately show ?thesis by blast
qed

end
