(* ===== verification/Reports.thy ===== *)
theory Reports
  imports Orchestrator_Server Hyperperiod
begin

text \<open>
  What the programs say about themselves. The reports of the orchestrator (\<^verbatim>\<open>print_scheduling_results\<close> and
  \<^verbatim>\<open>print_node_details\<close> in \<^verbatim>\<open>global_scheduler.cpp\<close>, \<^verbatim>\<open>DumpSchedInfo\<close> in \<^verbatim>\<open>schedinfo_service.cpp\<close>) and of the node
  (\<^verbatim>\<open>log_hyperperiod_statistics\<close> in \<^verbatim>\<open>hyperperiod.c\<close>, with the log levels of \<^verbatim>\<open>internal.h\<close>) are lists of lines; a line
  has the values that it prints. The lemmas relate the report to the schedule: which tasks it lists, and what a
  warning about a node means.
\<close>

section \<open>The results of the scheduler\<close>

datatype result_line =
    Results_title
  | Workload_tasks string nat
  | Node_tasks string nat
  | Task_row string string u64 u64 u64 u32
  | No_tasks_assigned
  | Node_utilization double
  | Cpu_utilization int double
  | Over_utilized
  | Highly_utilized
  | Acceptable
  | Node_not_found string

definition workload_task_counts :: "otask list \<Rightarrow> (string, nat) omap" where
  "workload_task_counts tasks =
     fold (\<lambda>t m. omap_put (ot_workload_id t) (omap_at 0 (ot_workload_id t) m + 1) m)
       (filter (\<lambda>t. ot_assigned_node t \<noteq> []) tasks) []"

definition task_workload :: "otask list \<Rightarrow> string \<Rightarrow> sched_task \<Rightarrow> string" where
  "task_workload tasks node_id task =
     (case find (\<lambda>orig. ot_name orig = cstr (st_task_name task) \<and> ot_assigned_node orig = node_id) tasks of
        None \<Rightarrow> ''unknown''
      | Some orig \<Rightarrow> ot_workload_id orig)"

definition task_row :: "otask list \<Rightarrow> string \<Rightarrow> sched_task \<Rightarrow> result_line" where
  "task_row tasks node_id task =
     Task_row (cstr (st_task_name task)) (task_workload tasks node_id task) (st_period_ns task div 1000000)
       (st_runtime_ns task div 1000000) (st_cpu_affinity task) (st_sched_priority task)"

definition node_verdict :: "rounding \<Rightarrow> string \<Rightarrow> global_scheduler \<Rightarrow> result_line" where
  "node_verdict rnd node_id gs =
     (let node_utilization = calculate_node_utilization rnd gs node_id None
      in case omap_find (gs_available_cpus gs) node_id of
           None \<Rightarrow> Node_not_found node_id
         | Some cpus \<Rightarrow>
             let cpu_count = rnd (real (length cpus)) in
             if node_utilization > rnd (1 * cpu_count) then Over_utilized
             else if node_utilization > rnd (CPU_UTILIZATION_THRESHOLD rnd * cpu_count) then Highly_utilized
             else Acceptable)"

definition print_node_details :: "rounding \<Rightarrow> string \<Rightarrow> global_scheduler \<Rightarrow> result_line list" where
  "print_node_details rnd node_id gs =
     Node_utilization (rnd (calculate_node_utilization rnd gs node_id None * 100)) #
     (case omap_find (gs_cpu_utilization gs) node_id of
        None \<Rightarrow> []
      | Some cpus \<Rightarrow> map (\<lambda>(cpu_id, u). Cpu_utilization cpu_id (rnd (u * 100))) (filter (\<lambda>(cpu_id, u). u > 0) cpus)) @
     [node_verdict rnd node_id gs]"

definition print_scheduling_results :: "rounding \<Rightarrow> global_scheduler \<Rightarrow> result_line list" where
  "print_scheduling_results rnd gs =
     Results_title #
     map (\<lambda>(w, n). Workload_tasks w n) (workload_task_counts (gs_tasks gs)) @
     concat (map (\<lambda>(node_id, tasks). Node_tasks node_id (length tasks) #
       (if length tasks > 0
        then map (task_row (gs_tasks gs) node_id) tasks @ print_node_details rnd node_id gs
        else [No_tasks_assigned])) (gs_sched_info_map gs))"

section \<open>The schedules that are kept\<close>

text \<open>A row stands for the eight lines about a task.\<close>

datatype dump_line =
    No_schedule_info
  | Dump_title
  | Dump_workload string nat
  | Dump_node string nat
  | Dump_task string string u64 u32 u32 u64 u64 u64

definition dump_task :: "sched_task \<Rightarrow> dump_line" where
  "dump_task task = Dump_task (cstr (st_task_name task)) (cstr (st_assigned_node task)) (st_cpu_affinity task)
     (st_sched_priority task) (st_sched_policy task) (st_period_ns task div 1000000) (st_runtime_ns task div 1000000)
     (st_deadline_ns task div 1000000)"

definition DumpSchedInfo :: "service \<Rightarrow> dump_line list" where
  "DumpSchedInfo sv =
     (let m = fst (GetSchedInfoMap False sv) in
      if m = [] then [No_schedule_info]
      else Dump_title # concat (map (\<lambda>(w, nodes). Dump_workload w (length nodes) #
        concat (map (\<lambda>(node_id, tasks). Dump_node node_id (length tasks) # map dump_task tasks) nodes)) m))"

section \<open>The statistics of a node\<close>

text \<open>
  The log levels of the node. A line is written if the level that the command line has set is at least that of the
  line: errors and warnings to the error stream, the others to the standard output.
\<close>

datatype tt_log_level =
    TT_LOG_LEVEL_SILENT | TT_LOG_LEVEL_ERROR | TT_LOG_LEVEL_WARNING | TT_LOG_LEVEL_INFO | TT_LOG_LEVEL_DEBUG
  | TT_LOG_LEVEL_VERBOSE

primrec log_code :: "tt_log_level \<Rightarrow> int" where
  "log_code TT_LOG_LEVEL_SILENT = 0"
| "log_code TT_LOG_LEVEL_ERROR = 1"
| "log_code TT_LOG_LEVEL_WARNING = 2"
| "log_code TT_LOG_LEVEL_INFO = 3"
| "log_code TT_LOG_LEVEL_DEBUG = 4"
| "log_code TT_LOG_LEVEL_VERBOSE = 5"

datatype stream = Stderr | Stdout

definition TT_LOG_ERROR :: "globals \<Rightarrow> 'l \<Rightarrow> (stream \<times> 'l) list" where
  "TT_LOG_ERROR g line = (if g_log_level g \<ge> log_code TT_LOG_LEVEL_ERROR then [(Stderr, line)] else [])"

definition TT_LOG_WARNING :: "globals \<Rightarrow> 'l \<Rightarrow> (stream \<times> 'l) list" where
  "TT_LOG_WARNING g line = (if g_log_level g \<ge> log_code TT_LOG_LEVEL_WARNING then [(Stderr, line)] else [])"

definition TT_LOG_INFO :: "globals \<Rightarrow> 'l \<Rightarrow> (stream \<times> 'l) list" where
  "TT_LOG_INFO g line = (if g_log_level g \<ge> log_code TT_LOG_LEVEL_INFO then [(Stdout, line)] else [])"

definition TT_LOG_DEBUG :: "globals \<Rightarrow> 'l \<Rightarrow> (stream \<times> 'l) list" where
  "TT_LOG_DEBUG g line = (if g_log_level g \<ge> log_code TT_LOG_LEVEL_DEBUG then [(Stdout, line)] else [])"

definition TT_LOG_TIMER :: "globals \<Rightarrow> 'l \<Rightarrow> (stream \<times> 'l) list" where
  "TT_LOG_TIMER g line = (if g_log_level g \<ge> log_code TT_LOG_LEVEL_VERBOSE then [(Stdout, line)] else [])"

datatype statistics_line =
    Statistics_title
  | Statistics_workload string
  | Completed_cycles u64
  | Hyperperiod_length u64
  | Total_deadline_misses u32
  | Miss_rate double
  | Tasks_in_hyperperiod u32
  | Statistics_rule

definition miss_rate :: "rounding \<Rightarrow> hyperperiod_manager \<Rightarrow> double" where
  "miss_rate rnd hp =
     (if hp_completed_cycles hp > 0
      then double_div rnd (rnd (real (unat (hp_total_deadline_misses hp)))) (double_of_u64 rnd (hp_completed_cycles hp)) else 0)"

definition log_hyperperiod_statistics :: "rounding \<Rightarrow> globals \<Rightarrow> hyperperiod_manager \<Rightarrow> (stream \<times> statistics_line) list" where
  "log_hyperperiod_statistics rnd g hp = concat (map (TT_LOG_INFO g)
     [Statistics_title, Statistics_workload (hp_workload_id hp), Completed_cycles (hp_completed_cycles hp),
      Hyperperiod_length (hp_hyperperiod_us hp), Total_deadline_misses (hp_total_deadline_misses hp),
      Miss_rate (miss_rate rnd hp), Tasks_in_hyperperiod (hp_tasks_in_hyperperiod hp), Statistics_rule])"

text \<open>
  Statistics are written as a whole or not at all. Without a miss the rate is 0, and it is at most one miss per cycle
  exactly when there are no more misses than cycles.
\<close>

lemma statistics_whole:
  "length (log_hyperperiod_statistics rnd g hp) = (if g_log_level g \<ge> 3 then 8 else 0) \<and>
   (\<forall>l\<in>set (log_hyperperiod_statistics rnd g hp). fst l = Stdout)"
  by (auto simp: log_hyperperiod_statistics_def TT_LOG_INFO_def)

lemma miss_rate_exact:
  assumes "hp_completed_cycles hp > 0"
  shows "miss_rate (\<lambda>x. x) hp * real (unat (hp_completed_cycles hp)) = real (unat (hp_total_deadline_misses hp)) \<and>
    (miss_rate (\<lambda>x. x) hp \<le> 1 \<longleftrightarrow> unat (hp_total_deadline_misses hp) \<le> unat (hp_completed_cycles hp))"
proof -
  have "real a / real b * real b = real a \<and> (real a / real b \<le> 1 \<longleftrightarrow> a \<le> b)" if "0 < b" for a b :: nat
    using that by (simp add: divide_le_eq)
  moreover have "0 < unat (hp_completed_cycles hp)" using assms by (simp add: word_less_nat_alt)
  ultimately show ?thesis unfolding miss_rate_def double_div_def double_of_u64_def if_P [OF assms] by blast
qed

section \<open>What the report lists\<close>

fun row_name :: "result_line \<Rightarrow> string option" where
  "row_name (Task_row name w p r c k) = Some name"
| "row_name _ = None"

lemma row_name_row [simp]: "row_name (task_row ts n t) = Some (cstr (st_task_name t))"
  by (simp add: task_row_def)

lemma row_name_verdict [simp]: "row_name (node_verdict rnd n gs) = None"
  by (simp add: node_verdict_def Let_def split: option.split)

lemma details_no_rows: "List.map_filter row_name (print_node_details rnd n gs) = []"
  by (auto simp: print_node_details_def List.map_filter_def filter_empty_conv split: option.split)

lemma map_filter_append: "List.map_filter f (xs @ ys) = List.map_filter f xs @ List.map_filter f ys"
  by (simp add: List.map_filter_def)

lemma map_filter_concat: "List.map_filter f (concat xss) = concat (map (List.map_filter f) xss)"
  by (induction xss) (simp_all add: map_filter_append)

lemma report_rows:
  "List.map_filter row_name (print_scheduling_results rnd gs) =
    map (\<lambda>t. cstr (st_task_name t)) (concat (map snd (gs_sched_info_map gs)))"
proof -
  have wl: "List.map_filter row_name (map (\<lambda>(w, n). Workload_tasks w n) ws) = []" for ws
    by (induction ws) auto
  have rows: "List.map_filter row_name (map (task_row ts n) tasks) = map (\<lambda>t. cstr (st_task_name t)) tasks" for ts n tasks
    by (induction tasks) simp_all
  have node: "List.map_filter row_name (case e of (n, tasks) \<Rightarrow> Node_tasks n (length tasks) #
      (if tasks \<noteq> [] then map (task_row (gs_tasks gs) n) tasks @ print_node_details rnd n gs else [No_tasks_assigned])) =
      map (\<lambda>t. cstr (st_task_name t)) (snd e)" for e
    by (cases e) (simp add: map_filter_append rows details_no_rows)
  show ?thesis
    unfolding print_scheduling_results_def
    by (simp add: map_filter_append map_filter_concat wl node map_concat comp_def)
qed

text \<open>Every task that has been assigned to a node has one row, with its name cut off at 15 characters.\<close>

lemma report_lists_placed:
  assumes "gs_sched_info_map gs = schedules_of (gs_tasks gs)"
  shows "mset (List.map_filter row_name (print_scheduling_results rnd gs)) =
    image_mset (\<lambda>t. cstr (strncpy_field 16 (ot_name t))) (mset (filter (\<lambda>t. ot_assigned_node t \<noteq> []) (gs_tasks gs)))"
proof -
  have "mset (List.map_filter row_name (print_scheduling_results rnd gs)) =
      image_mset (\<lambda>t. cstr (st_task_name t)) (mset (concat (map snd (schedules_of (gs_tasks gs)))))"
    by (simp only: report_rows assms mset_map)
  also have "\<dots> = image_mset (\<lambda>t. cstr (strncpy_field 16 (ot_name t))) (mset (filter (\<lambda>t. ot_assigned_node t \<noteq> []) (gs_tasks gs)))"
    by (simp only: schedules_of_mset image_mset.compositionality comp_def) (simp add: to_sched_task_def)
  finally show ?thesis .
qed

text \<open>The workload of a task is not found when its name is longer than that.\<close>

lemma long_name_unknown:
  assumes "\<forall>t\<in>set ts. 16 \<le> length (ot_name t)" and "t \<in> set ts"
  shows "task_workload ts n (to_sched_task t) = ''unknown''"
proof -
  have "length (cstr (strncpy_field 16 (ot_name t))) < 16"
    using fits_strncpy_field [of 16 "ot_name t"] by (auto simp: fits_def cstr_id)
  then have "find (\<lambda>orig. ot_name orig = cstr (st_task_name (to_sched_task t)) \<and> ot_assigned_node orig = n) ts = None"
    using assms(1) by (auto simp: find_None_iff to_sched_task_def)
  then show ?thesis by (simp add: task_workload_def)
qed

section \<open>What a warning means\<close>

lemma sum_by_key:
  fixes f :: "'a \<Rightarrow> real"
  assumes "finite S" and "\<forall>x\<in>set xs. g x \<in> S"
  shows "sum_list (map f xs) = (\<Sum>k\<in>S. sum_list (map f (filter (\<lambda>x. g x = k) xs)))"
  using assms(2)
proof (induction xs)
  case (Cons x xs)
  have "(\<Sum>k\<in>S. sum_list (map f (filter (\<lambda>x. g x = k) (x # xs)))) =
      (\<Sum>k\<in>S. (if g x = k then f x else 0) + sum_list (map f (filter (\<lambda>x. g x = k) xs)))"
    by (intro sum.cong) auto
  also have "\<dots> = f x + (\<Sum>k\<in>S. sum_list (map f (filter (\<lambda>x. g x = k) xs)))"
    using assms(1) Cons.prems by (simp add: sum.distrib sum.delta')
  finally show ?case using Cons by simp
qed simp

text \<open>
  The rounding of the machine's doubles (round to nearest, 53 significant bits): zero is kept, and in the range of the
  normal numbers the relative error is at most \<open>2 ^ -53\<close>.
\<close>

definition nearest_double :: "rounding \<Rightarrow> bool" where
  "nearest_double rnd \<longleftrightarrow> rnd 0 = 0 \<and> (\<forall>x. 1 / 2 ^ 1022 \<le> x \<and> x \<le> 2 ^ 1023 \<longrightarrow> \<bar>rnd x - x\<bar> \<le> x / 2 ^ 53)"

definition eps :: real where
  "eps = 1 / 2 ^ 53"

lemma eps_bounds: "0 < eps" "eps < 1 / 100000" "1 - eps < 1" "0 < 1 - eps" "1 < 1 + eps"
  by (simp_all add: eps_def)

text \<open>A value that is zero or of an ordinary size.\<close>

definition ordinary :: "nat \<Rightarrow> real \<Rightarrow> bool" where
  "ordinary k x \<longleftrightarrow> x = 0 \<or> 1 / 2 ^ k \<le> x \<and> x \<le> 2 ^ k"

lemma ordinary_nonneg: "ordinary k x \<Longrightarrow> 0 \<le> x"
  by (auto simp: ordinary_def intro: order_trans [rotated])

lemma ordinary_mono:
  assumes "ordinary k x" and "k \<le> j"
  shows "ordinary j x"
proof -
  have "(2::real) ^ k \<le> 2 ^ j" using assms(2) by (simp add: power_increasing)
  moreover from this have "(1::real) / 2 ^ j \<le> 1 / 2 ^ k" by (intro frac_le) simp_all
  ultimately show ?thesis using assms(1) unfolding ordinary_def by (meson order_trans)
qed

lemma ordinary_nat:
  assumes "n \<le> 2 ^ 64"
  shows "ordinary 64 (real n)"
proof (cases "n = 0")
  case False
  then have "1 \<le> real n" by simp
  moreover have "(1::real) / 2 ^ 64 \<le> 1" by simp
  moreover have "real n \<le> 2 ^ 64" using assms by (metis of_nat_le_iff of_nat_numeral of_nat_power)
  ultimately show ?thesis unfolding ordinary_def by (meson order_trans)
qed (simp add: ordinary_def)

lemma nearest_bounds:
  assumes "nearest_double rnd" and "ordinary 200 x"
  shows "(1 - eps) * x \<le> rnd x \<and> rnd x \<le> (1 + eps) * x"
proof (cases "x = 0")
  case False
  have "ordinary 1022 x" by (rule ordinary_mono [OF assms(2)]) simp
  then have "1 / 2 ^ 1022 \<le> x" "x \<le> 2 ^ 1022" using False by (simp_all only: ordinary_def simp_thms)
  moreover have "(2::real) ^ 1022 \<le> 2 ^ 1023" by (rule power_increasing) simp_all
  ultimately have "\<bar>rnd x - x\<bar> \<le> x / 2 ^ 53" using assms(1) unfolding nearest_double_def by (meson order_trans)
  then have "\<bar>rnd x - x\<bar> \<le> eps * x" by (simp add: eps_def)
  then show ?thesis by (simp add: abs_le_iff algebra_simps)
qed (use assms(1) in \<open>simp add: nearest_double_def\<close>)

lemma ordinary_between:
  assumes "ordinary k x" and "x / 2 \<le> y" and "y \<le> 2 * x"
  shows "ordinary (Suc k) y"
  using assms by (auto simp: ordinary_def)

lemma nearest_ordinary:
  assumes "nearest_double rnd" and "ordinary k x" and "k < 200"
  shows "ordinary (Suc k) (rnd x)"
proof -
  have "ordinary 200 x" using ordinary_mono [OF assms(2)] assms(3) by simp
  from nearest_bounds [OF assms(1) this] have r: "(1 - eps) * x \<le> rnd x" "rnd x \<le> (1 + eps) * x" by simp_all
  have "0 \<le> x" by (rule ordinary_nonneg [OF assms(2)])
  then have "1 / 2 * x \<le> (1 - eps) * x" "(1 + eps) * x \<le> 2 * x" using eps_bounds(2) by (intro mult_right_mono; simp)+
  with r show ?thesis by (intro ordinary_between [OF assms(2)]) linarith+
qed

text \<open>The powers of the error stay close to one for up to \<open>2 ^ 48\<close> operations.\<close>

lemma eps_power:
  assumes "k \<le> 2 ^ 48"
  shows "31 / 32 \<le> (1 - eps) ^ k" and "(1 + eps) ^ k \<le> 32 / 31"
proof -
  have "real k \<le> 2 ^ 48" using assms by (metis of_nat_le_iff of_nat_numeral of_nat_power)
  then have "31 / 32 \<le> 1 + real k * - eps" by (simp add: eps_def field_simps)
  also have "\<dots> \<le> (1 + - eps) ^ k" using eps_bounds by (intro Bernoulli_inequality) simp
  finally show low: "31 / 32 \<le> (1 - eps) ^ k" by simp
  have "(1 + eps) * (1 - eps) \<le> 1" "0 \<le> (1 + eps) * (1 - eps)"
    using eps_bounds by (simp_all add: algebra_simps) (simp add: eps_def)
  then have "((1 + eps) * (1 - eps)) ^ k \<le> 1" by (intro power_le_one)
  then have "(1 + eps) ^ k * (1 - eps) ^ k \<le> 1" unfolding power_mult_distrib .
  moreover have "(1 + eps) ^ k * (31 / 32) \<le> (1 + eps) ^ k * (1 - eps) ^ k"
    using eps_bounds by (intro mult_left_mono low) simp
  ultimately show "(1 + eps) ^ k \<le> 32 / 31" by simp
qed

lemma sum_ordinary:
  assumes "\<forall>u\<in>set us. ordinary 135 u" and "length us \<le> 2 ^ 48"
  shows "ordinary 183 (sum_list us)"
proof -
  have nn: "\<forall>u\<in>set us. 0 \<le> u" using assms(1) ordinary_nonneg by blast
  have "sum_list us \<le> real (length us) * 2 ^ 135" using assms(1)
    by (induction us) (force simp: ordinary_def algebra_simps)+
  also have "\<dots> \<le> 2 ^ 48 * 2 ^ 135"
    using assms(2) by (intro mult_right_mono) (metis of_nat_le_iff of_nat_numeral of_nat_power, simp)
  finally have "sum_list us \<le> 2 ^ 183" by simp
  moreover have "1 / 2 ^ 183 \<le> sum_list us" if "sum_list us \<noteq> 0"
  proof -
    obtain u where u: "u \<in> set us" "u \<noteq> 0" using \<open>sum_list us \<noteq> 0\<close> sum_list_nonneg_eq_0_iff [of us] nn by blast
    have "1 / 2 ^ 183 \<le> (1 :: real) / 2 ^ 135" by simp
    also have "\<dots> \<le> u" using u assms(1) unfolding ordinary_def by blast
    also have "u \<le> sum_list us" using u(1) nn member_le_sum_list [of u us] by simp
    finally show ?thesis .
  qed
  ultimately show ?thesis by (auto simp: ordinary_def)
qed

text \<open>A sum that is rounded at every step, and the exact one.\<close>

lemma rounded_sum:
  assumes "nearest_double rnd" and "\<forall>u\<in>set us. ordinary 135 u" and "length us \<le> 2 ^ 48"
  shows "(1 - eps) ^ length us * sum_list us \<le> foldl (double_add rnd) 0 us \<and>
    foldl (double_add rnd) 0 us \<le> (1 + eps) ^ length us * sum_list us"
  using assms(2,3)
proof (induction us rule: rev_induct)
  case (snoc u us)
  let ?k = "length us" and ?S = "sum_list us" and ?F = "foldl (double_add rnd) 0 us"
  have k: "?k \<le> 2 ^ 48" and us: "\<forall>u\<in>set us. ordinary 135 u" "ordinary 135 u" using snoc.prems by simp_all
  from snoc.IH [OF us(1) k] have F: "(1 - eps) ^ ?k * ?S \<le> ?F" "?F \<le> (1 + eps) ^ ?k * ?S" by simp_all
  have S: "0 \<le> ?S" and u: "0 \<le> u" using sum_ordinary [OF us(1) k] us(2) ordinary_nonneg by blast+
  have one: "(1 - eps) ^ ?k \<le> 1" "1 \<le> (1 + eps) ^ ?k" using eps_bounds by (simp_all add: power_le_one one_le_power)
  have lo: "(1 - eps) ^ ?k * (?S + u) \<le> ?F + u"
    using F(1) mult_right_mono [OF one(1) u] by (simp add: distrib_left)
  have hi: "?F + u \<le> (1 + eps) ^ ?k * (?S + u)"
    using F(2) mult_right_mono [OF one(2) u] by (simp add: distrib_left)
  have "1 / 2 * (?S + u) \<le> (1 - eps) ^ ?k * (?S + u)" "(1 + eps) ^ ?k * (?S + u) \<le> 2 * (?S + u)"
    using eps_power [OF k] S u by (intro mult_right_mono; simp)+
  then have "(?S + u) / 2 \<le> ?F + u" "?F + u \<le> 2 * (?S + u)" using lo hi by linarith+
  moreover have "ordinary 183 (?S + u)" using sum_ordinary [of "us @ [u]"] snoc.prems by simp
  ultimately have "ordinary 184 (?F + u)" using ordinary_between [of 183 "?S + u" "?F + u"] by simp
  then have "ordinary 200 (?F + u)" by (rule ordinary_mono) simp
  from nearest_bounds [OF assms(1) this] have r: "(1 - eps) * (?F + u) \<le> rnd (?F + u)" "rnd (?F + u) \<le> (1 + eps) * (?F + u)"
    by simp_all
  have "(1 - eps) * ((1 - eps) ^ ?k * (?S + u)) \<le> (1 - eps) * (?F + u)" "(1 + eps) * (?F + u) \<le> (1 + eps) * ((1 + eps) ^ ?k * (?S + u))"
    using lo hi eps_bounds by (intro mult_left_mono; simp)+
  with r have "(1 - eps) * ((1 - eps) ^ ?k * (?S + u)) \<le> rnd (?F + u)" "rnd (?F + u) \<le> (1 + eps) * ((1 + eps) ^ ?k * (?S + u))"
    by linarith+
  moreover have "foldl (double_add rnd) 0 (us @ [u]) = rnd (?F + u)" by (simp add: double_add_def)
  ultimately show ?case by (simp add: mult.assoc)
qed simp

lemma utilization_ordinary:
  assumes "nearest_double rnd"
  shows "ordinary 135 (task_utilization rnd t)"
proof -
  have o: "ordinary 64 (real (unat x))" for x :: u64
  proof (rule ordinary_nat)
    have "unat x < 2 ^ 64" using unsigned_less [where w = x, where ?'a = nat] by simp
    then show "unat x \<le> 2 ^ 64" by simp
  qed
  have d: "ordinary 65 (double_of_u64 rnd x)" for x
    using nearest_ordinary [OF assms o, of x] by (simp add: double_of_u64_def)
  have bounds: "1 / 2 ^ 65 \<le> double_of_u64 rnd x \<and> double_of_u64 rnd x \<le> 2 ^ 65" if "x > 0" for x
  proof -
    have "1 \<le> unat x" using that by (simp add: word_less_nat_alt)
    then have "1 \<le> real (unat x)" by linarith
    then have "0 < (1 - eps) * real (unat x)" using eps_bounds by (intro mult_pos_pos) linarith+
    moreover have "ordinary 200 (real (unat x))" by (rule ordinary_mono [OF o]) simp
    ultimately have "0 < double_of_u64 rnd x" using nearest_bounds [OF assms] by (fastforce simp: double_of_u64_def)
    with d [of x] show ?thesis by (simp add: ordinary_def)
  qed
  have "ordinary 135 (double_div rnd a b)" if a: "ordinary 65 a" and b: "1 / 2 ^ 65 \<le> b" "b \<le> 2 ^ 65" for a b
  proof (cases "a = 0")
    case False
    then have a: "1 / 2 ^ 65 \<le> a" "a \<le> 2 ^ 65" using a by (simp_all add: ordinary_def)
    have pos: "0 < b" "0 < a" using a(1) b(1) by (auto intro: less_le_trans [rotated])
    have "(1 / 2 ^ 65) / 2 ^ 65 \<le> a / b" "a / b \<le> 2 ^ 65 / (1 / 2 ^ 65)" using a b pos by (intro frac_le; simp)+
    then have "ordinary 130 (a / b)" by (simp add: ordinary_def)
    from nearest_ordinary [OF assms this] have "ordinary 131 (double_div rnd a b)" by (simp add: double_div_def)
    then show ?thesis by (rule ordinary_mono) simp
  qed (use assms in \<open>simp add: double_div_def nearest_double_def ordinary_def\<close>)
  then show ?thesis using d bounds [of "ot_period_us t"] by (auto simp: task_utilization_def ordinary_def)
qed

lemma node_utilization_sum:
  "calculate_node_utilization rnd gs n None =
    foldl (double_add rnd) 0 (map (task_utilization rnd) (filter (\<lambda>t. ot_period_us t > 0) (on_node n (gs_tasks gs))))"
proof -
  have "foldl (\<lambda>u t. if ot_assigned_node t = n then
        (if ot_period_us t > 0 then double_add rnd u (task_utilization rnd t) else u) else u) a ts =
      foldl (double_add rnd) a (map (task_utilization rnd) (filter (\<lambda>t. ot_period_us t > 0) (on_node n ts)))" for a ts
    by (induction ts arbitrary: a) simp_all
  then show ?thesis by (simp add: calculate_node_utilization_def Let_def)
qed

lemma utilization_no_period:
  "sum_list (map (task_utilization rnd) (filter (\<lambda>t. ot_period_us t > 0) ts)) = sum_list (map (task_utilization rnd) ts)"
  by (induction ts) (auto simp: task_utilization_def)

text \<open>The tasks of a node that all have CPUs leave room on as many CPUs as the node has.\<close>

lemma placed_within_threshold:
  fixes rnd ts avail
  defines "placed \<equiv> spec_tasks rnd avail ts"
  assumes "nearest_double rnd" and "cpus_nonneg avail" and "fresh ts" and "length ts \<le> 2 ^ 48"
    and "\<forall>t\<in>set placed. ot_assigned_node t = n \<longrightarrow> ot_assigned_cpu t \<noteq> -1"
  shows "sum_list (map (task_utilization rnd) (on_node n placed)) \<le> 93 / 100 * real (length (omap_at [] n avail))"
proof -
  let ?S = "ot_assigned_cpu ` set (on_node n placed)" and ?cpus = "omap_at [] n avail"
  let ?on = "\<lambda>c. map (task_utilization rnd) (filter (\<lambda>t. ot_assigned_cpu t = c) (on_node n placed))"
  have len: "length placed \<le> 2 ^ 48" using assms(5) by (simp add: placed_def)
  have sub: "?S \<subseteq> set ?cpus"
    using spec_tasks_placed [OF assms(4,3)] assms(6) unfolding placed_def by fastforce
  have "ordinary 200 (9 / 10)" by (simp add: ordinary_def)
  from nearest_bounds [OF assms(2) this] have "rnd (9 / 10) \<le> (1 + eps) * (9 / 10)" by simp
  then have thr: "CPU_UTILIZATION_THRESHOLD rnd \<le> 9001 / 10000"
    using eps_bounds(2) by (simp add: CPU_UTILIZATION_THRESHOLD_def)
  have bound: "sum_list (?on c) \<le> 93 / 100" if c: "c \<in> ?S" for c
  proof -
    have "load rnd placed n c \<le> CPU_UTILIZATION_THRESHOLD rnd"
      using spec_load_bound [OF assms(3,4), of c rnd n] c sub cpus_nonnegD [OF assms(3)] unfolding placed_def by auto
    then have le: "foldl (double_add rnd) 0 (?on c) \<le> 9001 / 10000" using thr by (simp add: load_def conj_commute)
    have "length (?on c) \<le> 2 ^ 48"
      using length_filter_le [of _ placed] len by (simp add: order_trans [OF length_filter_le])
    moreover have o: "\<forall>u\<in>set (?on c). ordinary 135 u" using utilization_ordinary [OF assms(2)] by auto
    ultimately have r: "(1 - eps) ^ length (?on c) * sum_list (?on c) \<le> foldl (double_add rnd) 0 (?on c)"
        "31 / 32 \<le> (1 - eps) ^ length (?on c)" "0 \<le> sum_list (?on c)"
      using rounded_sum [OF assms(2)] eps_power(1) sum_ordinary ordinary_nonneg by blast+
    have "31 / 32 * sum_list (?on c) \<le> (1 - eps) ^ length (?on c) * sum_list (?on c)"
      by (rule mult_right_mono [OF r(2,3)])
    with r(1) le show ?thesis by linarith
  qed
  have "sum_list (map (task_utilization rnd) (on_node n placed)) = (\<Sum>c\<in>?S. sum_list (?on c))"
    by (rule sum_by_key) auto
  also have "\<dots> \<le> (\<Sum>c\<in>?S. 93 / 100)" by (rule sum_mono) (rule bound)
  also have "\<dots> = 93 / 100 * real (card ?S)" by simp
  also have "card ?S \<le> length ?cpus" using card_mono [OF _ sub] card_length [of ?cpus] by simp
  finally show ?thesis by simp
qed

lemma report_warnings:
  "Over_utilized \<in> set (print_scheduling_results rnd gs) \<Longrightarrow>
    \<exists>n tasks. (n, tasks) \<in> set (gs_sched_info_map gs) \<and> node_verdict rnd n gs = Over_utilized"
  by (force simp: print_scheduling_results_def print_node_details_def task_row_def split: if_splits option.splits)

text \<open>
  C36. The warning that a node is over-utilised means that a task got no CPU: after a call with the algorithm in use, for
  any rounding to the nearest double (zero is kept, relative error at most \<open>2 ^ -53\<close> among the normal numbers), with at most
  \<open>2 ^ 48\<close> tasks and CPU lists of a 64-bit size, the report contains it only if a task of the workload has been
  assigned to a node without a CPU; the errors of the many sums never add up to it. (The weaker message, that a
  node is highly utilised, can come from rounding alone.)
\<close>

theorem warning_means_unplaced:
  assumes "nearest_double rnd" and "ready gs m" and "cpus_nonneg (configured m)" and "\<forall>n. malloc_ok n"
    and "length (gs_tasks gs) \<le> 2 ^ 48" and "\<forall>n. length (omap_at [] n (configured m)) \<le> 2 ^ 64"
    and "schedule rnd std_sort malloc_ok ''target_node_priority'' gs = Some (ok, gs')"
    and "Over_utilized \<in> set (print_scheduling_results rnd gs')"
  shows "\<exists>t\<in>set (gs_tasks gs'). ot_assigned_node t \<noteq> [] \<and> ot_assigned_cpu t = -1"
proof (rule ccontr)
  assume none: "\<not> ?thesis"
  have g: "gs_tasks gs' = spec_tasks rnd (configured m) (gs_tasks gs)" "gs_sched_info_map gs' = schedules_of (gs_tasks gs')"
    "gs_available_cpus gs' = configured m"
    using schedule_target [OF assms(2-4), of rnd std_sort] assms(7) by auto
  from report_warnings [OF assms(8)] obtain n tasks where
    n: "(n, tasks) \<in> set (gs_sched_info_map gs')" "node_verdict rnd n gs' = Over_utilized" by blast
  then have ne: "n \<noteq> []" using omap_find_mem [OF schedules_of_ok] g(2) by (auto simp: schedules_of_find split: if_splits)
  let ?C = "real (length (omap_at [] n (configured m)))" and ?ts = "on_node n (gs_tasks gs')"
  let ?us = "map (task_utilization rnd) (filter (\<lambda>t. ot_period_us t > 0) ?ts)"
  have "\<forall>t\<in>set (gs_tasks gs'). ot_assigned_node t = n \<longrightarrow> ot_assigned_cpu t \<noteq> -1" using none ne by blast
  then have total: "sum_list ?us \<le> 93 / 100 * ?C"
    using placed_within_threshold [OF assms(1,3) _ assms(5)] assms(2) unfolding utilization_no_period g(1) by (simp add: ready_def)
  have "length ?us \<le> length (gs_tasks gs')" by (simp add: order_trans [OF length_filter_le])
  then have len: "length ?us \<le> 2 ^ 48" using assms(5) by (simp add: g(1) del: filter_filter)
  have o: "\<forall>u\<in>set ?us. ordinary 135 u" using utilization_ordinary [OF assms(1)] by auto
  have "calculate_node_utilization rnd gs' n None \<le> (1 + eps) ^ length ?us * sum_list ?us"
    unfolding node_utilization_sum using rounded_sum [OF assms(1) o len] by simp
  also have "\<dots> \<le> 32 / 31 * sum_list ?us"
    by (rule mult_right_mono [OF eps_power(2) [OF len] ordinary_nonneg [OF sum_ordinary [OF o len]]])
  also have "\<dots> \<le> 98 / 100 * ?C" using total by simp
  also have "\<dots> \<le> rnd (1 * rnd ?C)"
  proof -
    have c: "ordinary 64 ?C" using assms(6) by (intro ordinary_nat) blast
    have "(1 - eps) * ?C \<le> rnd ?C" "(1 - eps) * rnd ?C \<le> rnd (rnd ?C)"
      using nearest_bounds [OF assms(1) ordinary_mono [OF c]]
        nearest_bounds [OF assms(1) ordinary_mono [OF nearest_ordinary [OF assms(1) c]]] by simp_all
    moreover have "99 / 100 * ?C \<le> (1 - eps) * ?C" using eps_bounds by (intro mult_right_mono) simp_all
    ultimately have 1: "99 / 100 * ?C \<le> rnd ?C" "(1 - eps) * rnd ?C \<le> rnd (rnd ?C)" by linarith+
    have "0 \<le> 99 / 100 * ?C" by simp
    with 1(1) have "0 \<le> rnd ?C" by linarith
    then have "99 / 100 * rnd ?C \<le> (1 - eps) * rnd ?C" using eps_bounds by (intro mult_right_mono) simp_all
    with 1 have "98 / 100 * ?C \<le> rnd (rnd ?C)" by simp
    then show ?thesis by simp
  qed
  finally show False
    using n(2) by (auto simp: node_verdict_def g(3) omap_at_def Let_def split: option.splits if_splits)
qed

lemma sample_placed:
  "spec_tasks (\<lambda>x. x) (configured sample_manager) (gs_tasks sample_scheduler) =
    [(sample_task ''a'')\<lparr>ot_assigned_node := ''n2'', ot_assigned_cpu := 0\<rparr>, (sample_task ''b'')\<lparr>ot_assigned_node := ''n2''\<rparr>]"
proof -
  let ?a = "configured sample_manager"
  have ts: "gs_tasks sample_scheduler = [sample_task ''a'', sample_task ''b'']" by (simp add: sample_scheduler_def set_tasks_def)
  have el: "eligible ?a (sample_task n)" and cpus: "omap_at [] ''n2'' ?a = [0]" for n
    by (simp_all add: eligible_def sample_task_def new_task_def configured_def sample_manager_def sample_nodes_def omap_at_def)
  have t: "task_utilization (\<lambda>x. x) (sample_task n) = 2 / 3" "\<not> has_affinity (sample_task n)" "ot_target_node (sample_task n) = ''n2''" for n
    by (simp_all add: task_utilization_def sample_task_def double_div_def double_of_u64_def has_affinity_def)
  show ?thesis
    using el cpus unfolding ts
    by (simp add: t spec_tasks_def spec_place_def spec_cpu_def has_room_def load_def double_add_def CPU_UTILIZATION_THRESHOLD_def)
qed

lemma warning_means_unplaced_witness:
  "\<exists>ok gs'. schedule (\<lambda>x. x) (\<lambda>ts. ts) (\<lambda>n. True) ''target_node_priority'' sample_scheduler = Some (ok, gs') \<and>
    Over_utilized \<in> set (print_scheduling_results (\<lambda>x. x) gs') \<and>
    (\<exists>t\<in>set (gs_tasks gs'). ot_assigned_node t \<noteq> [] \<and> ot_assigned_cpu t = -1)"
proof -
  obtain ok gs' where g: "schedule (\<lambda>x. x) (\<lambda>ts. ts) (\<lambda>n. True) ''target_node_priority'' sample_scheduler = Some (ok, gs')"
      "gs_tasks gs' = spec_tasks (\<lambda>x. x) (configured sample_manager) (gs_tasks sample_scheduler)"
      "gs_sched_info_map gs' = schedules_of (gs_tasks gs')" "gs_available_cpus gs' = configured sample_manager"
    using schedule_target [OF sample_ready, of "\<lambda>n. True" "\<lambda>x. x" "\<lambda>ts. ts"] by auto
  let ?tasks = "map to_sched_task (gs_tasks gs')"
  have "omap_find (gs_sched_info_map gs') ''n2'' = Some ?tasks"
    unfolding g(3) schedules_of_find by (simp add: g(2) sample_placed)
  then have m: "(''n2'', ?tasks) \<in> set (gs_sched_info_map gs')" by (rule map_of_SomeD)
  have "calculate_node_utilization (\<lambda>x. x) gs' ''n2'' None = 4 / 3"
    unfolding node_utilization_sum g(2) sample_placed
    by (simp add: double_add_def task_utilization_def sample_task_def double_div_def double_of_u64_def)
  then have "node_verdict (\<lambda>x. x) ''n2'' gs' = Over_utilized"
    by (simp add: node_verdict_def g(4) configured_def sample_manager_def sample_nodes_def)
  then have "Over_utilized \<in> set (print_node_details (\<lambda>x. x) ''n2'' gs')" by (simp add: print_node_details_def)
  with m have "Over_utilized \<in> set (print_scheduling_results (\<lambda>x. x) gs')"
    by (auto simp: print_scheduling_results_def g(2) sample_placed intro!: bexI [of _ "(''n2'', ?tasks)"])
  moreover have "nearest_double (\<lambda>x. x)" by (simp add: nearest_double_def)
  moreover have "length (gs_tasks sample_scheduler) \<le> 2 ^ 48" "\<forall>n. length (omap_at [] n (configured sample_manager)) \<le> 2 ^ 64"
    by (simp_all add: sample_scheduler_def set_tasks_def configured_def sample_manager_def sample_nodes_def omap_at_def)
  ultimately show ?thesis using warning_means_unplaced [OF _ sample_ready _ _ _ g(1)] g(1) by blast
qed

end
