(* ===== verification/Bpf_Kernel.thy ===== *)
theory Bpf_Kernel
  imports Node_Types "HOL-Library.AList"
begin

text \<open>
  The programs that run in the kernel (\<^verbatim>\<open>timpani-n/src/sigwait.bpf.c\<close>, \<^verbatim>\<open>schedstat.bpf.c\<close>): the
  tracepoint handlers with their hash maps and the ring buffer they report through. A hash map
  is an association list bounded by its number of entries; whether the ring buffer has room
  is a parameter of each event. The scheduler events form a state machine whose invariant
  gives the order of the three times in every report.
\<close>

section \<open>Hash maps\<close>

definition max_entries :: nat where
  "max_entries = 1024"

type_synonym 'v bpf_map = "(int \<times> 'v) list"

text \<open>An update with \<^verbatim>\<open>BPF_ANY\<close> fails, and its failure is ignored, when a new key finds the map full.\<close>

definition bpf_map_update_elem :: "int \<Rightarrow> 'v \<Rightarrow> 'v bpf_map \<Rightarrow> 'v bpf_map" where
  "bpf_map_update_elem k v m =
     (if k \<in> fst ` set m \<or> length m < max_entries then AList.update k v m else m)"

definition bpf_map_delete_elem :: "int \<Rightarrow> 'v bpf_map \<Rightarrow> 'v bpf_map" where
  "bpf_map_delete_elem k m = AList.delete k m"

definition bpf_map_lookup_elem :: "int \<Rightarrow> 'v bpf_map \<Rightarrow> 'v option" where
  "bpf_map_lookup_elem k m = map_of m k"

definition map_ok :: "'v bpf_map \<Rightarrow> bool" where
  "map_ok m \<longleftrightarrow> distinct (map fst m) \<and> length m \<le> max_entries"

text \<open>The laws of a bounded map that the programs rely on.\<close>

locale bounded_map =
  fixes upd :: "int \<Rightarrow> 'v \<Rightarrow> 'm \<Rightarrow> 'm" and del :: "int \<Rightarrow> 'm \<Rightarrow> 'm" and look :: "int \<Rightarrow> 'm \<Rightarrow> 'v option"
    and inv :: "'m \<Rightarrow> bool" and full :: "'m \<Rightarrow> bool"
  assumes inv_upd: "inv m \<Longrightarrow> inv (upd k v m)"
    and inv_del: "inv m \<Longrightarrow> inv (del k m)"
    and look_upd: "inv m \<Longrightarrow> look j (upd k v m) =
        (if j = k \<and> (look k m \<noteq> None \<or> \<not> full m) then Some v else look j m)"
    and look_del: "inv m \<Longrightarrow> look j (del k m) = (if j = k then None else look j m)"
begin

lemma look_upd_cases:
  "inv m \<Longrightarrow> look j (upd k v m) = Some w \<Longrightarrow> j = k \<and> w = v \<or> look j m = Some w"
  by (auto simp: look_upd split: if_splits)

lemma look_del_cases: "inv m \<Longrightarrow> look j (del k m) = Some w \<Longrightarrow> look j m = Some w"
  by (auto simp: look_del split: if_splits)

end

lemma length_update_le: "length (AList.update k v m) \<le> Suc (length m)"
  by (induction m) auto

lemma length_update_key: "k \<in> fst ` set m \<Longrightarrow> length (AList.update k v m) = length m"
  by (induction m) auto

interpretation hash: bounded_map bpf_map_update_elem bpf_map_delete_elem bpf_map_lookup_elem map_ok
  "\<lambda>m. length m = max_entries"
proof (unfold_locales, goal_cases)
  case (1 m k v)
  have "length (AList.update k v m) \<le> max_entries"
    if "k \<in> fst ` set m \<or> length m < max_entries" "length m \<le> max_entries"
    using that length_update_key [of k m v] length_update_le [of k v m] by (metis Suc_leI le_trans)
  with 1 show ?case
    by (auto simp: map_ok_def bpf_map_update_elem_def distinct_update)
next
  case (2 m k)
  have "length (AList.delete k m) \<le> length m" by (simp add: AList.delete_eq)
  with 2 show ?case by (auto simp: map_ok_def bpf_map_delete_elem_def distinct_delete)
next
  case (3 m j k v)
  then show ?case
    by (auto simp: map_ok_def bpf_map_update_elem_def bpf_map_lookup_elem_def update_conv map_of_eq_None_iff
        le_less)
next
  case (4 m j k)
  then show ?case by (simp add: bpf_map_delete_elem_def bpf_map_lookup_elem_def delete_conv)
qed

section \<open>Signal waits\<close>

text \<open>
  The current thread id and process id are the halves of the helper's 64-bit result. The result is
  the return value and the event that was submitted, if any.
\<close>

definition pid_of :: "u64 \<Rightarrow> int" where
  "pid_of pidtgid = sint (ucast pidtgid :: u32)"

definition tgid_of :: "u64 \<Rightarrow> int" where
  "tgid_of pidtgid = sint (ucast (drop_bit 32 pidtgid) :: u32)"

definition handle_sys_enter_rt_sigtimedwait ::
  "u64 \<Rightarrow> u64 \<Rightarrow> bool \<Rightarrow> u8 bpf_map \<Rightarrow> int \<times> sigwait_event option" where
  "handle_sys_enter_rt_sigtimedwait now pidtgid room pid_filter_map =
     (case bpf_map_lookup_elem (pid_of pidtgid) pid_filter_map of
        None \<Rightarrow> (0, None)
      | Some filtered \<Rightarrow>
          if \<not> room then (1, None)
          else (0, Some \<lparr>sw_pid = pid_of pidtgid, sw_tgid = tgid_of pidtgid, sw_timestamp = now, sw_enter = 1\<rparr>))"

definition handle_sys_exit_rt_sigtimedwait ::
  "u64 \<Rightarrow> u64 \<Rightarrow> bool \<Rightarrow> u8 bpf_map \<Rightarrow> int \<times> sigwait_event option" where
  "handle_sys_exit_rt_sigtimedwait now pidtgid room pid_filter_map =
     (case bpf_map_lookup_elem (pid_of pidtgid) pid_filter_map of
        None \<Rightarrow> (0, None)
      | Some filtered \<Rightarrow>
          if \<not> room then (1, None)
          else (0, Some \<lparr>sw_pid = pid_of pidtgid, sw_tgid = tgid_of pidtgid, sw_timestamp = now, sw_enter = 0\<rparr>))"

section \<open>Scheduler statistics\<close>

record sched_time =
  ts_wakeup :: u64
  ts_start :: u64

record sched_maps =
  pid_filter_map :: "u8 bpf_map"
  sched_waking_map :: "sched_time bpf_map"
  sched_switch_map :: "sched_time bpf_map"

definition TASK_RUNNING :: u64 where
  "TASK_RUNNING = 0"

text \<open>
  The state of a task is the field \<^verbatim>\<open>__state\<close> of newer kernels or \<^verbatim>\<open>state\<close> of older ones.
\<close>

definition get_task_state :: "u32 option \<Rightarrow> u64 \<Rightarrow> u64" where
  "get_task_state new_state old_state = (case new_state of Some st \<Rightarrow> ucast st | None \<Rightarrow> old_state)"

text \<open>The start time stored at a wake-up is not initialised: \<open>junk\<close> is what the stack holds.\<close>

definition sched_waking :: "u64 \<Rightarrow> u64 \<Rightarrow> int \<Rightarrow> sched_maps \<Rightarrow> sched_maps" where
  "sched_waking now junk pid m =
     (case bpf_map_lookup_elem pid (pid_filter_map m) of
        None \<Rightarrow> m
      | Some filtered \<Rightarrow>
          m\<lparr>sched_waking_map := bpf_map_update_elem pid \<lparr>ts_wakeup = now, ts_start = junk\<rparr> (sched_waking_map m)\<rparr>)"

text \<open>The part of the handler for the task that is scheduled out; \<open>None\<close> is the early return with 1.\<close>

definition switch_out ::
  "u64 \<Rightarrow> u64 \<Rightarrow> int \<Rightarrow> u64 \<Rightarrow> int \<Rightarrow> bool \<Rightarrow> sched_maps \<Rightarrow> (sched_maps \<times> schedstat_event option) option" where
  "switch_out now junk pid state cpu room m =
     (case bpf_map_lookup_elem pid (sched_switch_map m) of
        None \<Rightarrow> Some (m, None)
      | Some pdata \<Rightarrow>
          if \<not> room then None
          else let e = \<lparr>ss_pid = pid, ss_cpu = cpu, ss_ts_wakeup = ts_wakeup pdata,
                        ss_ts_start = ts_start pdata, ss_ts_stop = now\<rparr>;
                   m1 = (if state = TASK_RUNNING
                         then m\<lparr>sched_waking_map := bpf_map_update_elem pid
                                 \<lparr>ts_wakeup = ts_wakeup pdata, ts_start = junk\<rparr> (sched_waking_map m)\<rparr>
                         else m)
               in Some (m1\<lparr>sched_switch_map := bpf_map_delete_elem pid (sched_switch_map m1)\<rparr>, Some e))"

text \<open>The part for the task that is scheduled in.\<close>

definition switch_in :: "u64 \<Rightarrow> int \<Rightarrow> sched_maps \<Rightarrow> sched_maps" where
  "switch_in now pid m =
     (case bpf_map_lookup_elem pid (pid_filter_map m) of
        None \<Rightarrow> m
      | Some filtered \<Rightarrow>
          (case bpf_map_lookup_elem pid (sched_waking_map m) of
             None \<Rightarrow> m
           | Some pdata \<Rightarrow>
               let m1 = m\<lparr>sched_switch_map := bpf_map_update_elem pid
                           \<lparr>ts_wakeup = ts_wakeup pdata, ts_start = now\<rparr> (sched_switch_map m)\<rparr>
               in m1\<lparr>sched_waking_map := bpf_map_delete_elem pid (sched_waking_map m1)\<rparr>))"

definition sched_switch ::
  "u64 \<Rightarrow> u64 \<Rightarrow> int \<Rightarrow> u64 \<Rightarrow> int \<Rightarrow> int \<Rightarrow> bool \<Rightarrow> sched_maps \<Rightarrow> int \<times> sched_maps \<times> schedstat_event option" where
  "sched_switch now junk prev state next_pid cpu room m =
     (case switch_out now junk prev state cpu room m of
        None \<Rightarrow> (1, m, None)
      | Some (m1, e) \<Rightarrow> (0, switch_in now next_pid m1, e))"

section \<open>The state machine of the scheduler events\<close>

text \<open>
  A configuration has the maps, the clock reading of the last event and the reports so far. The
  node adds and removes pids of the filter at any time.
\<close>

record sched_conf =
  sc_maps :: sched_maps
  sc_now :: u64
  sc_reports :: "schedstat_event list"

inductive sched_step :: "sched_conf \<Rightarrow> sched_conf \<Rightarrow> bool" where
  waking: "sc_now c \<le> now \<Longrightarrow>
    sched_step c (c\<lparr>sc_maps := sched_waking now junk pid (sc_maps c), sc_now := now\<rparr>)"
| switch: "sc_now c \<le> now \<Longrightarrow> sched_switch now junk prev state nxt cpu room (sc_maps c) = (r, m, e) \<Longrightarrow>
    sched_step c (c\<lparr>sc_maps := m, sc_now := now,
      sc_reports := (case e of None \<Rightarrow> sc_reports c | Some ev \<Rightarrow> sc_reports c @ [ev])\<rparr>)"
| filter_add: "sched_step c (c\<lparr>sc_maps := (sc_maps c)\<lparr>pid_filter_map :=
    bpf_map_update_elem pid 1 (pid_filter_map (sc_maps c))\<rparr>\<rparr>)"
| filter_del: "sched_step c (c\<lparr>sc_maps := (sc_maps c)\<lparr>pid_filter_map :=
    bpf_map_delete_elem pid (pid_filter_map (sc_maps c))\<rparr>\<rparr>)"

inductive_cases sched_stepE: "sched_step c c'"

definition sched_start :: sched_conf where
  "sched_start = \<lparr>sc_maps = \<lparr>pid_filter_map = [], sched_waking_map = [], sched_switch_map = []\<rparr>,
     sc_now = 0, sc_reports = []\<rparr>"

definition sched_inv :: "sched_conf \<Rightarrow> bool" where
  "sched_inv c \<longleftrightarrow>
     map_ok (pid_filter_map (sc_maps c)) \<and> map_ok (sched_waking_map (sc_maps c)) \<and>
     map_ok (sched_switch_map (sc_maps c)) \<and>
     (\<forall>p t. bpf_map_lookup_elem p (sched_waking_map (sc_maps c)) = Some t \<longrightarrow> ts_wakeup t \<le> sc_now c) \<and>
     (\<forall>p t. bpf_map_lookup_elem p (sched_switch_map (sc_maps c)) = Some t \<longrightarrow>
        ts_wakeup t \<le> ts_start t \<and> ts_start t \<le> sc_now c) \<and>
     (\<forall>e\<in>set (sc_reports c). ss_ts_wakeup e \<le> ss_ts_start e \<and> ss_ts_start e \<le> ss_ts_stop e \<and>
        ss_ts_stop e \<le> sc_now c)"


lemma sched_inv_start: "sched_inv sched_start"
  by (simp add: sched_inv_def sched_start_def map_ok_def bpf_map_lookup_elem_def)

lemma sched_inv_waking:
  assumes "sched_inv c" and "sc_now c \<le> now"
  shows "sched_inv (c\<lparr>sc_maps := sched_waking now junk pid (sc_maps c), sc_now := now\<rparr>)"
proof -
  have older: "x \<le> sc_now c \<Longrightarrow> x \<le> now" for x using assms(2) by (rule order_trans [rotated])
  show ?thesis
    using assms(1)
    by (auto simp: sched_inv_def sched_waking_def hash.inv_upd intro: older dest!: hash.look_upd_cases [rotated]
        split: option.splits)
qed

text \<open>The maps of an invariant configuration, at a later time.\<close>

definition maps_inv :: "u64 \<Rightarrow> sched_maps \<Rightarrow> bool" where
  "maps_inv now m \<longleftrightarrow>
     map_ok (pid_filter_map m) \<and> map_ok (sched_waking_map m) \<and> map_ok (sched_switch_map m) \<and>
     (\<forall>p t. bpf_map_lookup_elem p (sched_waking_map m) = Some t \<longrightarrow> ts_wakeup t \<le> now) \<and>
     (\<forall>p t. bpf_map_lookup_elem p (sched_switch_map m) = Some t \<longrightarrow> ts_wakeup t \<le> ts_start t \<and> ts_start t \<le> now)"

lemma maps_inv_later: "sched_inv c \<Longrightarrow> sc_now c \<le> now \<Longrightarrow> maps_inv now (sc_maps c)"
  unfolding sched_inv_def maps_inv_def by (meson order_trans)

lemma switch_in_inv: "maps_inv now m \<Longrightarrow> maps_inv now (switch_in now pid m)"
  unfolding maps_inv_def switch_in_def Let_def
  by (auto simp: hash.inv_upd hash.inv_del dest!: hash.look_upd_cases [rotated] hash.look_del_cases [rotated]
      split: option.splits)

lemma switch_out_inv:
  assumes "maps_inv now m" and "switch_out now junk pid state cpu room m = Some (m', e)"
  shows "maps_inv now m' \<and> (\<forall>ev. e = Some ev \<longrightarrow> ss_pid ev = pid \<and>
      ss_ts_wakeup ev \<le> ss_ts_start ev \<and> ss_ts_start ev \<le> now \<and> ss_ts_stop ev = now)"
  using assms unfolding maps_inv_def switch_out_def Let_def
  by (auto simp: hash.inv_upd hash.inv_del dest!: hash.look_upd_cases [rotated] hash.look_del_cases [rotated]
      split: option.splits if_splits) (meson order_trans)

lemma sched_inv_switch:
  assumes "sched_inv c" and "sc_now c \<le> now"
    and "sched_switch now junk prev state nxt cpu room (sc_maps c) = (r, m, e)"
  shows "sched_inv (c\<lparr>sc_maps := m, sc_now := now,
      sc_reports := (case e of None \<Rightarrow> sc_reports c | Some ev \<Rightarrow> sc_reports c @ [ev])\<rparr>)"
proof -
  have base: "maps_inv now (sc_maps c)" by (rule maps_inv_later [OF assms(1,2)])
  have "maps_inv now m" and ev: "\<And>ev. e = Some ev \<Longrightarrow>
      ss_ts_wakeup ev \<le> ss_ts_start ev \<and> ss_ts_start ev \<le> ss_ts_stop ev \<and> ss_ts_stop ev \<le> now"
    using base assms(3) switch_out_inv [OF base] switch_in_inv
    by (auto simp: sched_switch_def split: option.splits)
  moreover have "ss_ts_stop e \<le> now" if "e \<in> set (sc_reports c)" for e
    using that assms(1,2) unfolding sched_inv_def by (meson order_trans)
  ultimately show ?thesis
    using assms(1) unfolding sched_inv_def maps_inv_def by (cases e) auto
qed

lemma sched_inv_step: "sched_step c c' \<Longrightarrow> sched_inv c \<Longrightarrow> sched_inv c'"
proof (induction rule: sched_step.induct)
  case (waking c now junk pid)
  then show ?case by (simp add: sched_inv_waking)
next
  case (switch c now junk prev state nxt cpu room r m e)
  then show ?case by (simp add: sched_inv_switch)
qed (simp_all add: sched_inv_def hash.inv_upd hash.inv_del)

lemma sched_inv_reachable: "sched_step\<^sup>*\<^sup>* sched_start c \<Longrightarrow> sched_inv c"
  by (induction rule: rtranclp_induct) (auto intro: sched_inv_start sched_inv_step)

section \<open>Properties\<close>

text \<open>
  C38. The scheduling reports are in temporal order: along any sequence of wake-ups, context switches
  and changes of the pid filter, with a clock that does not run backwards, every report that
  reaches the node has its wake-up time not after its start and its start not after its stop,
  none lies in the future, and no map ever holds more than its 1024 entries, although the start
  time stored at a wake-up is never initialised.
\<close>

theorem schedstat_reports_ordered:
  assumes "sched_step\<^sup>*\<^sup>* sched_start c"
  shows "(\<forall>e\<in>set (sc_reports c). ss_ts_wakeup e \<le> ss_ts_start e \<and> ss_ts_start e \<le> ss_ts_stop e \<and>
      ss_ts_stop e \<le> sc_now c) \<and>
    length (sched_waking_map (sc_maps c)) \<le> 1024 \<and> length (sched_switch_map (sc_maps c)) \<le> 1024"
  using sched_inv_reachable [OF assms] by (simp add: sched_inv_def map_ok_def max_entries_def)

lemma schedstat_reports_ordered_witness:
  "\<exists>c e. sched_step\<^sup>*\<^sup>* sched_start c \<and> sc_reports c = [e] \<and> ss_ts_wakeup e \<le> ss_ts_start e \<and> ss_pid e = 7"
proof -
  let ?m0 = "\<lparr>pid_filter_map = [(7, 1)], sched_waking_map = [], sched_switch_map = []\<rparr> :: sched_maps"
  let ?c0 = "\<lparr>sc_maps = ?m0, sc_now = 0, sc_reports = []\<rparr> :: sched_conf"
  let ?m1 = "?m0\<lparr>sched_waking_map := [(7, \<lparr>ts_wakeup = 5, ts_start = 99\<rparr>)]\<rparr>"
  let ?c1 = "\<lparr>sc_maps = ?m1, sc_now = 5, sc_reports = []\<rparr> :: sched_conf"
  let ?m2 = "?m0\<lparr>sched_switch_map := [(7, \<lparr>ts_wakeup = 5, ts_start = 6\<rparr>)]\<rparr>"
  let ?c2 = "\<lparr>sc_maps = ?m2, sc_now = 6, sc_reports = []\<rparr> :: sched_conf"
  let ?e = "\<lparr>ss_pid = 7, ss_cpu = 0, ss_ts_wakeup = 5, ss_ts_start = 6, ss_ts_stop = 9\<rparr>"
  let ?c3 = "\<lparr>sc_maps = ?m0, sc_now = 9, sc_reports = [?e]\<rparr> :: sched_conf"
  note defs = sched_waking_def sched_switch_def switch_out_def switch_in_def bpf_map_lookup_elem_def
    bpf_map_update_elem_def bpf_map_delete_elem_def max_entries_def AList.delete_eq TASK_RUNNING_def
  have "sched_step sched_start ?c0"
    using sched_step.filter_add [of sched_start 7]
    by (simp add: sched_start_def bpf_map_update_elem_def max_entries_def)
  moreover have "sched_step ?c0 ?c1"
    using sched_step.waking [of ?c0 5 99 7] by (simp add: defs)
  moreover have "sched_step ?c1 ?c2"
    using sched_step.switch [of ?c1 6 0 3 1 7 0 True 0 ?m2 None] by (simp add: defs)
  moreover have "sched_step ?c2 ?c3"
    using sched_step.switch [of ?c2 9 0 7 1 3 0 True 0 ?m0 "Some ?e"] by (simp add: defs)
  ultimately have r: "sched_step\<^sup>*\<^sup>* sched_start ?c3"
    by (meson converse_rtranclp_into_rtranclp rtranclp.rtrancl_refl)
  from schedstat_reports_ordered [OF r] r show ?thesis
    by (intro exI [of _ ?c3] exI [of _ ?e]) simp
qed

text \<open>
  The signal-wait programs report exactly the threads the node asked for: an event is submitted if
  and only if the current thread is in the filter and the ring buffer has room, with the
  time of the call, the thread and process ids from the two halves of the kernel's word, and
  the enter flag set at entry and clear at exit; for a lost event the program returns 1.
\<close>

theorem sigwait_events_exact:
  "(snd (handle_sys_enter_rt_sigtimedwait now w room m) = Some e \<longleftrightarrow>
      sint (ucast w :: u32) \<in> fst ` set m \<and> room \<and>
      e = \<lparr>sw_pid = sint (ucast w :: u32), sw_tgid = sint (ucast (drop_bit 32 w) :: u32),
           sw_timestamp = now, sw_enter = 1\<rparr>) \<and>
   (snd (handle_sys_exit_rt_sigtimedwait now w room m) = Some e \<longleftrightarrow>
      sint (ucast w :: u32) \<in> fst ` set m \<and> room \<and>
      e = \<lparr>sw_pid = sint (ucast w :: u32), sw_tgid = sint (ucast (drop_bit 32 w) :: u32),
           sw_timestamp = now, sw_enter = 0\<rparr>) \<and>
   (fst (handle_sys_enter_rt_sigtimedwait now w room m) = 1 \<longleftrightarrow> sint (ucast w :: u32) \<in> fst ` set m \<and> \<not> room) \<and>
   (fst (handle_sys_exit_rt_sigtimedwait now w room m) = 1 \<longleftrightarrow> sint (ucast w :: u32) \<in> fst ` set m \<and> \<not> room)"
proof -
  have dom: "bpf_map_lookup_elem k m = None \<longleftrightarrow> k \<notin> fst ` set m" for k
    by (simp add: bpf_map_lookup_elem_def map_of_eq_None_iff)
  show ?thesis
    using dom [of "sint (ucast w :: u32)"]
    by (auto simp: handle_sys_enter_rt_sigtimedwait_def handle_sys_exit_rt_sigtimedwait_def pid_of_def
        tgid_of_def split: option.splits)
qed

end
