(* ===== verification/Supervision.thy ===== *)
theory Supervision
  imports Core Bpf_Kernel
begin

text \<open>
  The supervision of deadlines as a whole: the program in the kernel that sees a task enter and leave
  its wait (\<^verbatim>\<open>timpani-n/src/sigwait.bpf.c\<close>), the agent's handler that records the event, and the
  expiration of the task's timer that judges it (\<^verbatim>\<open>core.c\<close>). The threads of all tasks are
  interleaved in any way.
\<close>

section \<open>From the system call to the time trigger\<close>

datatype wait_call = Enters u64 | Leaves u64

primrec call_time :: "wait_call \<Rightarrow> u64" where
  "call_time (Enters t) = t"
| "call_time (Leaves t) = t"

primrec is_enter :: "wait_call \<Rightarrow> bool" where
  "is_enter (Enters t) = True"
| "is_enter (Leaves t) = False"

text \<open>
  A call of the thread \<open>w\<close>, with the room that the ring buffer has left at that moment, and the event that the kernel
  submits for it: a call without room is lost.
\<close>

type_synonym traced_call = "u64 \<times> bool \<times> wait_call"

definition submitted :: "u8 bpf_map \<Rightarrow> traced_call \<Rightarrow> sigwait_event option" where
  "submitted m c =
     (case c of
        (w, room, Enters t) \<Rightarrow> snd (handle_sys_enter_rt_sigtimedwait t w room m)
      | (w, room, Leaves t) \<Rightarrow> snd (handle_sys_exit_rt_sigtimedwait t w room m))"

text \<open>The context after the agent has handled it.\<close>

definition observe :: "os \<Rightarrow> u8 bpf_map \<Rightarrow> traced_call \<Rightarrow> tt_context \<Rightarrow> tt_context" where
  "observe s m c ctx =
     (case submitted m c of
        None \<Rightarrow> ctx
      | Some e \<Rightarrow> (case snd (result (handle_sigwait_bpf_event (Some ctx) (Some e) sizeof_sigwait_event) s) of
                     None \<Rightarrow> ctx
                   | Some ctx' \<Rightarrow> ctx'))"

abbreviation pid_word :: "time_trigger \<Rightarrow> u32" where
  "pid_word n \<equiv> ti_pid (tt_task n)"

abbreviation traced :: "u8 bpf_map \<Rightarrow> u32 \<Rightarrow> bool" where
  "traced m p \<equiv> sint p \<in> fst ` set m"

definition seen :: "os \<Rightarrow> wait_call \<Rightarrow> time_trigger \<Rightarrow> time_trigger" where
  "seen s c n = n\<lparr>tt_sigwait_ts := bpf_ktime_to_real (globals s) (call_time c), tt_sigwait_enter := of_bool (is_enter c)\<rparr>"

lemma submitted_eq:
  "submitted m (w, room, c) =
     (if traced m (ucast w) \<and> room
      then Some \<lparr>sw_pid = pid_of w, sw_tgid = tgid_of w, sw_timestamp = call_time c, sw_enter = of_bool (is_enter c)\<rparr>
      else None)"
  using map_of_eq_None_iff [of m "sint (ucast w :: u32)"]
  by (cases c; cases "map_of m (sint (ucast w :: u32))")
    (simp_all add: submitted_def handle_sys_enter_rt_sigtimedwait_def handle_sys_exit_rt_sigtimedwait_def
      bpf_map_lookup_elem_def pid_of_def)

lemma record_sigwait_nth:
  assumes "distinct (map pid_word ns)" and "i < length ns"
  shows "record_sigwait ts e ns ! i =
    (if pid_word (ns ! i) = word_of_int (sw_pid e) then (ns ! i)\<lparr>tt_sigwait_ts := ts, tt_sigwait_enter := sw_enter e\<rparr>
     else ns ! i)"
  using assms
proof (induction ns arbitrary: i)
  case (Cons n ns)
  then show ?case by (cases i) (auto simp: image_iff, metis nth_mem)
qed simp

lemma record_sigwait_static [simp]:
  "length (record_sigwait ts e ns) = length ns" "map tt_task (record_sigwait ts e ns) = map tt_task ns"
  by (induction ns) simp_all

lemma observe_static:
  "cx_config (observe s m c ctx) = cx_config ctx \<and> map tt_task (cx_tt_list (observe s m c ctx)) = map tt_task (cx_tt_list ctx)"
  by (auto simp: observe_def handle_sigwait_bpf_event_def split: option.split)

lemma observe_nth:
  assumes "distinct (map pid_word (cx_tt_list ctx))" and "i < length (cx_tt_list ctx)"
  shows "cx_tt_list (observe s m (w, room, c) ctx) ! i =
    (let n = cx_tt_list ctx ! i in if traced m (pid_word n) \<and> room \<and> pid_word n = ucast w then seen s c n else n)"
  using record_sigwait_nth [OF assms]
  by (auto simp: observe_def submitted_eq handle_sigwait_bpf_event_def seen_def Let_def pid_of_def)

text \<open>
  The calls of a thread that reach the agent: those that find room in the ring buffer, if the thread is in the filter.
\<close>

definition reported :: "u8 bpf_map \<Rightarrow> u32 \<Rightarrow> traced_call list \<Rightarrow> wait_call list" where
  "reported m p tr = (if traced m p then map (snd \<circ> snd) (filter (\<lambda>(w, room, c). room \<and> ucast w = p) tr) else [])"

lemma reported_snoc:
  "reported m p (tr @ [(w, room, c)]) = reported m p tr @ (if traced m p \<and> room \<and> ucast w = p then [c] else [])"
  by (simp add: reported_def)

lemma reported_Nil [simp]: "reported m p [] = []"
  by (simp add: reported_def)

definition last_seen :: "os \<Rightarrow> wait_call list \<Rightarrow> time_trigger \<Rightarrow> time_trigger" where
  "last_seen s cs n = (if cs = [] then n else seen s (last cs) n)"

text \<open>After a sequence of calls, each time trigger shows the last call of its own thread that was reported.\<close>

lemma observe_calls:
  assumes "distinct (map pid_word (cx_tt_list ctx))" and "i < length (cx_tt_list ctx)"
  shows "cx_config (fold (observe s m) tr ctx) = cx_config ctx \<and>
    map tt_task (cx_tt_list (fold (observe s m) tr ctx)) = map tt_task (cx_tt_list ctx) \<and>
    cx_tt_list (fold (observe s m) tr ctx) ! i =
      last_seen s (reported m (pid_word (cx_tt_list ctx ! i)) tr) (cx_tt_list ctx ! i)"
proof (induction tr rule: rev_induct)
  case Nil
  show ?case by (simp add: last_seen_def)
next
  case (snoc c tr)
  let ?ctx = "fold (observe s m) tr ctx" and ?n = "cx_tt_list ctx ! i"
  obtain w room k where c: "c = (w, room, k)" by (cases c)
  have tasks: "map tt_task (cx_tt_list ?ctx) = map tt_task (cx_tt_list ctx)" using snoc.IH by blast
  have len: "length (cx_tt_list ?ctx) = length (cx_tt_list ctx)" using arg_cong [OF tasks, of length] by simp
  have d: "distinct (map pid_word (cx_tt_list ?ctx))"
    using arg_cong [OF tasks, of "map ti_pid"] assms(1) by (simp add: comp_def)
  have i: "i < length (cx_tt_list ?ctx)" using len assms(2) by simp
  have p: "pid_word (cx_tt_list ?ctx ! i) = pid_word ?n"
    using arg_cong [OF tasks, of "\<lambda>l. ti_pid (l ! i)"] i assms(2) by simp
  have "cx_tt_list (observe s m c ?ctx) ! i =
      (if traced m (pid_word ?n) \<and> room \<and> ucast w = pid_word ?n then seen s k (cx_tt_list ?ctx ! i) else cx_tt_list ?ctx ! i)"
    using observe_nth [OF d i, of s m w room k] p by (simp add: c Let_def eq_commute)
  moreover have "seen s k (last_seen s cs ?n) = seen s k ?n" for cs by (simp add: seen_def last_seen_def)
  ultimately show ?case
    using snoc.IH observe_static [of s m c ?ctx] by (simp add: c reported_snoc) (simp add: last_seen_def)
qed

section \<open>Properties\<close>

text \<open>
  C12. Deadline supervision end to end: the threads of the tasks enter and leave their waits in any order,
  the kernel program reports the calls of the threads in its filter while the ring buffer has room and loses the
  others, the agent records them, and then the timer of a task expires. If no two tasks of the agent have
  the same pid, the calls of other threads have no influence. The miss of the task is reported to the orchestrator, and counted,
  exactly when a time of a call has been recorded and the last reported call of its own thread (or, without one, what was recorded
  before) was not an entry into the wait, or was one after the expiration, or is still the one that the
  previous expiration saw. The task is signalled, once, if its pidfd is valid.
\<close>

theorem deadline_supervision:
  fixes ctx i tr s m s'
  defines "n \<equiv> cx_tt_list ctx ! i" and "after_calls \<equiv> fold (observe s m) tr ctx"
  defines "own \<equiv> reported m (ti_pid (tt_task n)) tr"
  defines "wait \<equiv> if own = [] then tt_sigwait_ts n else bpf_ktime_to_real (globals s) (call_time (last own))"
    and "waiting \<equiv> if own = [] then tt_sigwait_enter n \<noteq> 0 else is_enter (last own)"
  defines "expiry \<equiv> tt_timespec_to_ns (out_ts (answers s' (length (trace s')) (Kern (Clock_gettime (cfg_clockid (cx_config ctx))))))"
  assumes "i < length (cx_tt_list ctx)" and "distinct (map (\<lambda>n. ti_pid (tt_task n)) (cx_tt_list ctx))" and "tt_ctx n"
  shows "let missed = (wait \<noteq> 0 \<and> (\<not> waiting \<or> expiry < wait \<or> wait = tt_sigwait_ts_prev n));
             handler = timer_expired_handler (Some (cx_tt_list after_calls ! i)) after_calls
    in filter is_visible (calls handler s') =
         (if missed then [Bus (Bus_call_method ''DMiss'' [cfg_node_id (cx_config ctx), ti_name (tt_task n)])] else []) @
         (if ti_pidfd (tt_task n) < 0 then [] else [Kern (Pidfd_send_signal (ti_pidfd (tt_task n)) SIGNO_TT 0)]) \<and>
       snd (result handler s') = (if missed then count_deadline_miss after_calls else after_calls)"
proof -
  have node: "cx_tt_list after_calls ! i = last_seen s own n" and conf: "cx_config after_calls = cx_config ctx"
    using observe_calls [OF assms(8,7), of s m tr] by (simp_all add: after_calls_def own_def n_def)
  have f: "tt_ctx (last_seen s own n) = tt_ctx n" "tt_task (last_seen s own n) = tt_task n"
    "tt_sigwait_ts_prev (last_seen s own n) = tt_sigwait_ts_prev n" "tt_sigwait_enter (last_seen s own n) \<noteq> 0 \<longleftrightarrow> waiting"
    "tt_sigwait_ts (last_seen s own n) = wait"
    by (simp_all add: last_seen_def seen_def wait_def waiting_def)
  then have miss: "misses before (last_seen s own n) \<longleftrightarrow>
      wait \<noteq> 0 \<and> (\<not> waiting \<or> tt_timespec_to_ns before < wait \<or> wait = tt_sigwait_ts_prev n)" for before
    by (auto simp: misses_def)
  have "tt_ctx (last_seen s own n)" using assms(9) by (simp add: f)
  note run = timer_handler_run [OF this, of after_calls s', unfolded miss f(2) conf, folded expiry_def]
  show ?thesis unfolding node Let_def using run by simp
qed

text \<open>
  A task with pid 7: it has entered its wait in time while another thread runs; it leaves its wait; it leaves its wait but the event is lost.
\<close>

lemma deadline_supervision_witness:
  "\<exists>ctx s s'. let visible = (\<lambda>tr. filter is_visible (calls (timer_expired_handler
       (Some (cx_tt_list (fold (observe s [(7, 1)]) tr ctx) ! 0)) (fold (observe s [(7, 1)]) tr ctx)) s'))
     in visible [(7, True, Enters 5), (9, True, Leaves 6)] = [Kern (Pidfd_send_signal 5 SIGNO_TT 0)] \<and>
        visible [(7, True, Enters 5), (9, True, Enters 6), (7, True, Leaves 8)] =
          [Bus (Bus_call_method ''DMiss'' [[], ''cam'']), Kern (Pidfd_send_signal 5 SIGNO_TT 0)] \<and>
        visible [(7, True, Enters 5), (7, False, Leaves 8)] = [Kern (Pidfd_send_signal 5 SIGNO_TT 0)]"
proof -
  let ?n = "zero_time_trigger\<lparr>tt_ctx := True, tt_task := zero_task_info\<lparr>ti_name := ''cam'', ti_pid := 7, ti_pidfd := 5\<rparr>\<rparr>"
  let ?ctx = "zero_context\<lparr>cx_tt_list := [?n]\<rparr>" and ?s = "os_of (\<lambda>c. answer0\<lparr>out_ts := Timespec 1 0\<rparr>)"
  have n: "cx_tt_list ?ctx ! 0 = ?n" and len: "0 < length (cx_tt_list ?ctx)" by simp_all
  have g: "bpf_ktime_to_real (globals ?s) t = t" for t
    by (simp add: bpf_ktime_to_real_def os_of_def globals0_def)
  have ts: "tt_timespec_to_ns (Timespec 1 0) = 1000000000"
    by (simp add: tt_timespec_to_ns_def TT_NSEC_PER_SEC_def)
  have id: "cfg_node_id (cx_config ?ctx) = []" by (simp add: zero_context_def)
  have p: "tt_sigwait_ts_prev ?n = 0" by (simp add: zero_time_trigger_def)
  have sup: "reported [(7, 1)] 7 tr = cs \<Longrightarrow> cs \<noteq> [] \<Longrightarrow> call_time (last cs) \<noteq> 0 \<Longrightarrow>
      filter is_visible (calls (timer_expired_handler (Some (cx_tt_list (fold (observe ?s [(7, 1)]) tr ?ctx) ! 0))
         (fold (observe ?s [(7, 1)]) tr ?ctx)) ?s) =
       (if \<not> is_enter (last cs) \<or> 1000000000 < call_time (last cs)
        then [Bus (Bus_call_method ''DMiss'' [[], ''cam''])] else []) @ [Kern (Pidfd_send_signal 5 SIGNO_TT 0)]" for tr cs
    using deadline_supervision [of 0 ?ctx "[(7, 1)]" tr ?s ?s, OF len, unfolded n g id p]
    by (simp add: ts Let_def)
  show ?thesis
    unfolding Let_def
    by (intro exI [of _ ?ctx] exI [of _ ?s] conjI; subst sup [OF refl]) (simp_all add: reported_def)
qed

end
