(* ===== verification/Sample_Workloads.thy ===== *)
theory Sample_Workloads
  imports Complex_Main Timpani_Prelude
begin

text \<open>
  The synthetic workloads of the sample application (\<^verbatim>\<open>sample-apps/src/sample_apps.c\<close>): bisection for square roots,
  Fibonacci numbers, matrix products, random memory access, a mixing function and a prime sieve. An
  operation of type \<^verbatim>\<open>int\<close> that overflows is undefined in C: \<open>None\<close>. Floating point operations round
  by an argument, \<^verbatim>\<open>rand\<close> is a sequence of numbers, and \<^verbatim>\<open>malloc\<close> may fail where the code looks at
  its result. The lemmas show that the sieve marks exactly the primes, and when the workloads succeed.
\<close>

section \<open>Arithmetic of int\<close>

definition c_int :: "int \<Rightarrow> int option" where
  "c_int x = (if - (2 ^ 31) \<le> x \<and> x < 2 ^ 31 then Some x else None)"

lemma c_int_Some [simp]: "- (2 ^ 31) \<le> x \<Longrightarrow> x < 2 ^ 31 \<Longrightarrow> c_int x = Some x"
  by (simp add: c_int_def)

section \<open>Square roots\<close>

definition max_iter :: nat where "max_iter = 56"

text \<open>The while loop with its counter, which is incremented by the test that ends it as well.\<close>

function nsqrt_loop :: "(real \<Rightarrow> real) \<Rightarrow> real \<Rightarrow> nat \<Rightarrow> real \<Rightarrow> real \<Rightarrow> nat \<times> real \<times> real" where
  "nsqrt_loop rl n j lo hi =
     (if j < max_iter \<and> rl (hi - lo) > rl (1 / 10 ^ 12)
      then let g = rl (rl (lo + hi) / 2)
           in if rl (g * g) > n then nsqrt_loop rl n (j + 1) lo g else nsqrt_loop rl n (j + 1) g hi
      else (j + 1, lo, hi))"
  by auto
termination
  by (relation "measure (\<lambda>(rl, n, j, lo, hi). max_iter - j)") auto

declare nsqrt_loop.simps [simp del]

text \<open>\<^verbatim>\<open>rint\<close> rounds to the nearest integer, ties to even; the conversion to \<^verbatim>\<open>int\<close> truncates.\<close>

definition rint :: "real \<Rightarrow> int" where
  "rint x = (let f = \<lfloor>x\<rfloor>; d = x - of_int f
     in if d < 1 / 2 then f else if d > 1 / 2 then f + 1 else if even f then f else f + 1)"

definition nsqrt_one :: "(real \<Rightarrow> real) \<Rightarrow> (real \<Rightarrow> real) \<Rightarrow> int \<Rightarrow> bool" where
  "nsqrt_one rl rd i =
     (let n = rl (of_int i);
          (j, lo, hi) = nsqrt_loop rl n 0 (if n < 1 then n else 1) (if n < 1 then 1 else n);
          rt = rl (rl (lo + hi) / 2);
          r2 = rint (rd (rl (rt * rt)))
      in j < max_iter \<and> r2 = i)"

definition stress_cpu_nsqrt :: "(real \<Rightarrow> real) \<Rightarrow> (real \<Rightarrow> real) \<Rightarrow> int" where
  "stress_cpu_nsqrt rl rd = (if list_all (nsqrt_one rl rd) [16300..16383] then EXIT_SUCCESS else EXIT_FAILURE)"

section \<open>Fibonacci numbers\<close>

text \<open>The do-while loop; the fuel bounds the number of rounds.\<close>

primrec fib_loop :: "nat \<Rightarrow> u64 \<Rightarrow> u64 \<Rightarrow> u64 \<Rightarrow> (u64 \<times> u64) option" where
  "fib_loop 0 f1 f2 i = None"
| "fib_loop (Suc fuel) f1 f2 i =
     (let fn = f1 + f2
      in if fn AND 0x8000000000000000 = 0 then fib_loop fuel f2 fn (i + 1) else Some (fn, i + 1))"

definition fn_res :: u64 where "fn_res = 0xa94fad42221f2702"

definition stress_cpu_fibonacci :: "nat \<Rightarrow> int option" where
  "stress_cpu_fibonacci fuel =
     map_option (\<lambda>(fn, i). if fn_res \<noteq> fn then EXIT_FAILURE else EXIT_SUCCESS) (fib_loop fuel 0 1 0)"

section \<open>Matrix product\<close>

definition RAND_MAX :: int where "RAND_MAX = 2147483647"

text \<open>The values are drawn for both matrices in turn, row by row; the product adds in the order of the loop.\<close>

definition matrix_a :: "(real \<Rightarrow> real) \<Rightarrow> (nat \<Rightarrow> int) \<Rightarrow> nat \<Rightarrow> nat \<Rightarrow> nat \<Rightarrow> real" where
  "matrix_a rd rand sz i j = rd (of_int (rand (2 * (i * sz + j))) / of_int RAND_MAX)"

definition matrix_b :: "(real \<Rightarrow> real) \<Rightarrow> (nat \<Rightarrow> int) \<Rightarrow> nat \<Rightarrow> nat \<Rightarrow> nat \<Rightarrow> real" where
  "matrix_b rd rand sz i j = rd (of_int (rand (2 * (i * sz + j) + 1)) / of_int RAND_MAX)"

definition matrix_c :: "(real \<Rightarrow> real) \<Rightarrow> (nat \<Rightarrow> int) \<Rightarrow> nat \<Rightarrow> nat \<Rightarrow> nat \<Rightarrow> real" where
  "matrix_c rd rand sz i j =
     foldl (\<lambda>c k. rd (c + rd (matrix_a rd rand sz i k * matrix_b rd rand sz k j))) 0 [0..<sz]"

definition checksum_c :: "(real \<Rightarrow> real) \<Rightarrow> (nat \<Rightarrow> int) \<Rightarrow> nat \<Rightarrow> real" where
  "checksum_c rd rand sz = foldl (\<lambda>s i. foldl (\<lambda>s j. rd (s + matrix_c rd rand sz i j)) s [0..<sz]) 0 [0..<sz]"

text \<open>The result of \<^verbatim>\<open>malloc\<close> is not looked at: \<open>None\<close> when it fails.\<close>

definition stress_cpu_matrix :: "(real \<Rightarrow> real) \<Rightarrow> (nat \<Rightarrow> int) \<Rightarrow> bool \<Rightarrow> int \<Rightarrow> int option" where
  "stress_cpu_matrix rd rand malloc_ok sz =
     (let sz = (if sz \<le> 0 then 64 else sz)
      in if \<not> malloc_ok then None
         else Some (if checksum_c rd rand (nat sz) < 0 then EXIT_FAILURE else EXIT_SUCCESS))"

section \<open>Random memory access\<close>

text \<open>The loop of the accesses; \<open>rand\<close> is the sequence after the initialisation.\<close>

primrec memory_loop :: "(nat \<Rightarrow> int) \<Rightarrow> nat list \<Rightarrow> int list \<Rightarrow> int \<Rightarrow> (int list \<times> int) option" where
  "memory_loop rand [] buffer checksum = Some (buffer, checksum)"
| "memory_loop rand (i # is) buffer checksum =
     (let idx = nat (rand i) mod length buffer
      in Option.bind (c_int (checksum + buffer ! idx)) (\<lambda>checksum'.
           memory_loop rand is (buffer[idx := sint ((word_of_int checksum' :: u32) XOR of_nat i)]) checksum'))"

definition stress_cpu_memory :: "(nat \<Rightarrow> int) \<Rightarrow> bool \<Rightarrow> int \<Rightarrow> int option" where
  "stress_cpu_memory rand malloc_ok size_mb =
     (let size_mb = (if size_mb \<le> 0 then 16 else size_mb)
      in Option.bind (c_int (size_mb * 1024)) (\<lambda>kb. Option.bind (c_int (kb * 1024)) (\<lambda>total_size.
        let num_ints = nat total_size div 4
        in if \<not> malloc_ok then Some EXIT_FAILURE
           else Option.bind (memory_loop (\<lambda>i. rand (num_ints + i)) [0..<num_ints div 4] (map rand [0..<num_ints]) 0)
             (\<lambda>(buffer, checksum). Some (if checksum = 0x12345678 then EXIT_FAILURE else EXIT_SUCCESS)))))"

section \<open>Mixing function\<close>

definition hash_init :: "u32 list" where
  "hash_init = [0x6a09e667, 0xbb67ae85, 0x3c6ef372, 0xa54ff53a, 0x510e527f, 0x9b05688c, 0x1f83d9ab, 0x5be0cd19]"

definition hash_step :: "u32 list \<Rightarrow> nat \<Rightarrow> u32 list \<Rightarrow> u32 list" where
  "hash_step data i hash =
     (let w = data ! (i mod 16);
          w' = (push_bit 1 w OR drop_bit 31 w) XOR hash ! (i mod 8);
          temp = hash ! 7 + w' + of_nat i
      in [temp, hash ! 0, hash ! 1, hash ! 2, hash ! 3 + temp, hash ! 4, hash ! 5, hash ! 6])"

definition crypto_round :: "u32 list \<times> u32 list \<Rightarrow> u32 list \<times> u32 list" where
  "crypto_round st =
     (let hash = fold (hash_step (snd st)) [0..<64] (fst st)
      in (hash, map (\<lambda>i. snd st ! i XOR hash ! (i mod 8)) [0..<16]))"

definition stress_cpu_crypto :: "(nat \<Rightarrow> int) \<Rightarrow> int \<Rightarrow> int" where
  "stress_cpu_crypto rand rounds =
     (let rounds = (if rounds \<le> 0 then 1000 else rounds);
          (hash, data) = (crypto_round ^^ nat rounds) (hash_init, map (\<lambda>i. word_of_int (rand i)) [0..<16])
      in if fold (XOR) hash 0 = 0 then EXIT_FAILURE else EXIT_SUCCESS)"

section \<open>Prime sieve\<close>

text \<open>Accesses to an array; \<open>None\<close> is one outside of it.\<close>

definition array_get :: "'a list \<Rightarrow> int \<Rightarrow> 'a option" where
  "array_get xs i = (if 0 \<le> i \<and> i < int (length xs) then Some (xs ! nat i) else None)"

definition array_set :: "'a list \<Rightarrow> int \<Rightarrow> 'a \<Rightarrow> 'a list option" where
  "array_set xs i v = (if 0 \<le> i \<and> i < int (length xs) then Some (xs[nat i := v]) else None)"

text \<open>
  The inner loop crosses out the multiples. The loops return \<open>None\<close> when an index overflows or leaves the
  array.
\<close>

partial_function (option) cross_out :: "int \<Rightarrow> int \<Rightarrow> int \<Rightarrow> bool list \<Rightarrow> bool list option" where
  "cross_out limit i j is_prime =
     (if j \<le> limit
      then Option.bind (array_set is_prime j False) (\<lambda>is_prime'.
        Option.bind (c_int (j + i)) (\<lambda>j'. cross_out limit i j' is_prime'))
      else Some is_prime)"

partial_function (option) sieve :: "int \<Rightarrow> int \<Rightarrow> bool list \<Rightarrow> bool list option" where
  "sieve limit i is_prime =
     Option.bind (c_int (i * i)) (\<lambda>sq.
       if sq \<le> limit
       then Option.bind (array_get is_prime i) (\<lambda>marked.
         Option.bind (if marked then cross_out limit i sq is_prime else Some is_prime)
              (\<lambda>is_prime'. sieve limit (i + 1) is_prime'))
       else Some is_prime)"

primrec fill :: "'a \<Rightarrow> int list \<Rightarrow> 'a list \<Rightarrow> 'a list option" where
  "fill v [] xs = Some xs"
| "fill v (i # is) xs = Option.bind (array_set xs i v) (fill v is)"

text \<open>The contents of the block before it is filled do not matter.\<close>

definition init_sieve :: "int \<Rightarrow> int \<Rightarrow> bool list option" where
  "init_sieve limit sz =
     Option.bind (fill True [0..limit] (replicate (nat sz) False)) (\<lambda>is_prime.
       Option.bind (array_set is_prime 1 False) (\<lambda>is_prime'. array_set is_prime' 0 False))"

definition prime_count :: "int \<Rightarrow> bool list \<Rightarrow> int option" where
  "prime_count limit is_prime =
     map_option (\<lambda>marks. int (length (filter (\<lambda>m. m) marks))) (those (map (array_get is_prime) [2..limit]))"

definition stress_cpu_prime :: "bool \<Rightarrow> int \<Rightarrow> int option" where
  "stress_cpu_prime malloc_ok limit =
     (let limit = (if limit \<le> 0 then 100000 else limit)
      in Option.bind (c_int (limit + 1)) (\<lambda>sz.
        if \<not> malloc_ok then Some EXIT_FAILURE
        else Option.bind (init_sieve limit sz) (\<lambda>start.
          Option.bind (sieve limit 2 start) (\<lambda>is_prime.
            Option.bind (prime_count limit is_prime) (\<lambda>count.
              Some (if limit = 100000 \<and> count \<noteq> 9592 then EXIT_FAILURE else EXIT_SUCCESS))))))"

section \<open>Mixed workloads\<close>

text \<open>The surroundings: rounding of \<^verbatim>\<open>long double\<close> and \<^verbatim>\<open>double\<close>, random numbers, memory.\<close>

record surroundings =
  su_rl :: "real \<Rightarrow> real"
  su_rd :: "real \<Rightarrow> real"
  su_rand :: "nat \<Rightarrow> int"
  su_malloc_ok :: bool

definition fib_rounds :: nat where "fib_rounds = 92"

definition skip_rand :: "nat \<Rightarrow> surroundings \<Rightarrow> nat \<Rightarrow> int" where
  "skip_rand n su k = su_rand su (n + k)"

definition stress_cpu_mixed :: "surroundings \<Rightarrow> int \<Rightarrow> int option" where
  "stress_cpu_mixed su intensity =
     (let intensity = (if intensity \<le> 0 then 10 else intensity)
      in if intensity mod 4 = 0
         then Option.bind (c_int (8 + intensity)) (\<lambda>sz.
           Option.bind (stress_cpu_matrix (su_rd su) (su_rand su) (su_malloc_ok su) sz) (\<lambda>r.
             Some (stress_cpu_nsqrt (su_rl su) (su_rd su) OR r)))
         else if intensity mod 4 = 1
         then Option.bind (stress_cpu_fibonacci fib_rounds) (\<lambda>r.
           Option.bind (c_int (100 * intensity)) (\<lambda>rounds. Some (r OR stress_cpu_crypto (su_rand su) rounds)))
         else if intensity mod 4 = 2
         then Option.bind (stress_cpu_memory (su_rand su) (su_malloc_ok su) (1 + intensity div 10)) (\<lambda>r.
           Option.bind (c_int (intensity * 1000)) (\<lambda>k. Option.bind (c_int (10000 + k)) (\<lambda>limit.
             Option.bind (stress_cpu_prime (su_malloc_ok su) limit) (\<lambda>r'. Some (r OR r')))))
         else Option.bind (stress_cpu_matrix (su_rd su) (su_rand su) (su_malloc_ok su) 16) (\<lambda>r.
           Option.bind (c_int (50 * intensity)) (\<lambda>rounds.
             Some (r OR stress_cpu_crypto (skip_rand 512 su) rounds OR stress_cpu_nsqrt (su_rl su) (su_rd su)))))"

section \<open>Busy waiting\<close>

text \<open>The loop that reads the clock of the thread; \<open>clock k\<close> is the \<open>k\<close>-th reading after the first.\<close>

primrec busy_loop :: "nat \<Rightarrow> (nat \<Rightarrow> u64) \<Rightarrow> u64 \<Rightarrow> u64 \<Rightarrow> nat \<Rightarrow> nat option" where
  "busy_loop 0 clock start_ns runtime_ns k = None"
| "busy_loop (Suc fuel) clock start_ns runtime_ns k =
     (if clock k - start_ns \<ge> runtime_ns then Some k else busy_loop fuel clock start_ns runtime_ns (k + 1))"

definition stress_cpu_busyloop :: "nat \<Rightarrow> (nat \<Rightarrow> u64) \<Rightarrow> int \<Rightarrow> nat option" where
  "stress_cpu_busyloop fuel clock runtime_us =
     Option.bind (c_int (runtime_us * 1000)) (\<lambda>r. busy_loop fuel (\<lambda>k. clock (Suc k)) (clock 0) (word_of_int r) 0)"

section \<open>The choice of the workload\<close>

definition ALGO_NSQRT :: int where "ALGO_NSQRT = 1"
definition ALGO_FIBO :: int where "ALGO_FIBO = 2"
definition ALGO_BUSY :: int where "ALGO_BUSY = 3"
definition ALGO_MATRIX :: int where "ALGO_MATRIX = 4"
definition ALGO_MEMORY :: int where "ALGO_MEMORY = 5"
definition ALGO_CRYPTO :: int where "ALGO_CRYPTO = 6"
definition ALGO_MIXED :: int where "ALGO_MIXED = 7"
definition ALGO_PRIME :: int where "ALGO_PRIME = 8"

lemmas algorithms = ALGO_NSQRT_def ALGO_FIBO_def ALGO_BUSY_def ALGO_MATRIX_def ALGO_MEMORY_def ALGO_CRYPTO_def
  ALGO_MIXED_def ALGO_PRIME_def

text \<open>
  The results are ignored; \<open>None\<close> is an undefined operation or a busy loop that does not end within the
  fuel. \<open>su i\<close> are the surroundings of the \<open>i\<close>-th call.
\<close>

primrec all_defined :: "'a option list \<Rightarrow> unit option" where
  "all_defined [] = Some ()"
| "all_defined (r # rs) = Option.bind r (\<lambda>_. all_defined rs)"

definition do_calculations :: "nat \<Rightarrow> (nat \<Rightarrow> u64) \<Rightarrow> (int \<Rightarrow> surroundings) \<Rightarrow> int \<Rightarrow> int \<Rightarrow> unit option" where
  "do_calculations fuel clock su algo loop_count =
     (let each = (\<lambda>f. all_defined (map f [0..loop_count - 1]))
      in if algo = ALGO_NSQRT then each (\<lambda>i. Some (stress_cpu_nsqrt (su_rl (su i)) (su_rd (su i))))
         else if algo = ALGO_FIBO then each (\<lambda>i. stress_cpu_fibonacci fib_rounds)
         else if algo = ALGO_BUSY then map_option (\<lambda>_. ()) (stress_cpu_busyloop fuel clock loop_count)
         else if algo = ALGO_MATRIX
         then each (\<lambda>i. Option.bind (c_int (i * 4)) (\<lambda>k. Option.bind (c_int (32 + k)) (\<lambda>sz.
           stress_cpu_matrix (su_rd (su i)) (su_rand (su i)) (su_malloc_ok (su i)) sz)))
         else if algo = ALGO_MEMORY
         then map_option (\<lambda>_. ()) (stress_cpu_memory (su_rand (su 0)) (su_malloc_ok (su 0)) loop_count)
         else if algo = ALGO_CRYPTO
         then map_option (\<lambda>rounds. let r = stress_cpu_crypto (su_rand (su 0)) rounds in ()) (c_int (loop_count * 100))
         else if algo = ALGO_MIXED then each (\<lambda>i. Option.bind (c_int (i + 1)) (\<lambda>k. stress_cpu_mixed (su i) k))
         else if algo = ALGO_PRIME
         then Option.bind (c_int (loop_count * 10000)) (\<lambda>limit.
           map_option (\<lambda>_. ()) (stress_cpu_prime (su_malloc_ok (su 0)) limit))
         else Some ())"

section \<open>The sieve marks the primes\<close>

definition prime_int :: "int \<Rightarrow> bool" where
  "prime_int k \<longleftrightarrow> 2 \<le> k \<and> (\<forall>d. 2 \<le> d \<and> d < k \<longrightarrow> \<not> d dvd k)"

text \<open>What is left before round \<open>i\<close>: no smaller number divides \<open>k\<close>, from its square on.\<close>

definition sieved :: "int \<Rightarrow> int \<Rightarrow> bool" where
  "sieved i k \<longleftrightarrow> 2 \<le> k \<and> (\<forall>d. 2 \<le> d \<and> d < i \<and> d * d \<le> k \<longrightarrow> \<not> d dvd k)"

lemma cross_out_run:
  assumes "0 < i" and "0 \<le> j" and "limit + i < 2 ^ 31" and "length p = nat limit + 1"
  shows "\<exists>p'. cross_out limit i j p = Some p' \<and> length p' = length p \<and>
    (\<forall>k. 0 \<le> k \<and> k \<le> limit \<longrightarrow> (p' ! nat k \<longleftrightarrow> p ! nat k \<and> \<not> (j \<le> k \<and> i dvd k - j)))"
  using assms
proof (induction "nat (limit + 1 - j)" arbitrary: j p rule: less_induct)
  case less
  show ?case
  proof (cases "j \<le> limit")
    case False
    then show ?thesis by (subst cross_out.simps) auto
  next
    case True
    let ?p = "p[nat j := False]"
    obtain p' where p': "cross_out limit i (j + i) ?p = Some p'" "length p' = length p"
      "\<forall>k. 0 \<le> k \<and> k \<le> limit \<longrightarrow> (p' ! nat k \<longleftrightarrow> ?p ! nat k \<and> \<not> (j + i \<le> k \<and> i dvd k - (j + i)))"
      using less.hyps [of "j + i" ?p] less.prems True by auto
    have step: "cross_out limit i j p = Some p'"
      using less.prems True p'(1) by (subst cross_out.simps) (simp add: array_set_def)
    have "p' ! nat k \<longleftrightarrow> p ! nat k \<and> \<not> (j \<le> k \<and> i dvd k - j)" if k: "0 \<le> k" "k \<le> limit" for k
    proof -
      have "i dvd k - (j + i) \<longleftrightarrow> i dvd k - j" by (simp add: diff_diff_eq [symmetric] dvd_diff_left_iff)
      moreover have "j + i \<le> k" if "j \<le> k" "i dvd k - j" "k \<noteq> j"
        using that less.prems(1) zdvd_imp_le [of i "k - j"] by linarith
      moreover have "?p ! nat k \<longleftrightarrow> p ! nat k \<and> k \<noteq> j"
        using k less.prems(2,4) by (cases "k = j") (auto simp: eq_nat_nat_iff nth_list_update)
      ultimately show ?thesis using p'(3) k less.prems(1) by auto
    qed
    with step p'(2) show ?thesis by blast
  qed
qed

lemma sieved_next: "2 \<le> i \<Longrightarrow> sieved (i + 1) k \<longleftrightarrow> sieved i k \<and> \<not> (i * i \<le> k \<and> i dvd k)"
proof -
  have "d < i + 1 \<longleftrightarrow> d < i \<or> d = i" for d by auto
  then show "2 \<le> i \<Longrightarrow> sieved (i + 1) k \<longleftrightarrow> sieved i k \<and> \<not> (i * i \<le> k \<and> i dvd k)" unfolding sieved_def by metis
qed

lemma sieved_skip:
  assumes "2 \<le> i" and "\<not> sieved i i"
  shows "sieved (i + 1) k \<longleftrightarrow> sieved i k"
proof -
  obtain d where d: "2 \<le> d" "d < i" "d * d \<le> i" "d dvd i" using assms by (auto simp: sieved_def)
  have "\<not> sieved i k" if "i * i \<le> k" "i dvd k"
  proof -
    have "i \<le> i * i" using assms(1) by simp
    then have "d * d \<le> k" using d(3) that(1) by linarith
    moreover have "d dvd k" using d(4) that(2) by (rule dvd_trans)
    ultimately show ?thesis using d by (auto simp: sieved_def)
  qed
  with sieved_next [OF assms(1), of k] show ?thesis by blast
qed

text \<open>The bound keeps every index below \<open>2 ^ 31\<close>: the outer loop ends at \<open>46340\<close> at the latest.\<close>

lemma sieve_run:
  assumes "2 \<le> i" and "i \<le> 46340" and "limit < 46340 * 46340" and "length p = nat limit + 1"
    and "\<forall>k. 0 \<le> k \<and> k \<le> limit \<longrightarrow> (p ! nat k \<longleftrightarrow> sieved i k)"
  shows "\<exists>p' i'. sieve limit i p = Some p' \<and> length p' = nat limit + 1 \<and> limit < i' * i' \<and> 2 \<le> i' \<and>
    (\<forall>k. 0 \<le> k \<and> k \<le> limit \<longrightarrow> (p' ! nat k \<longleftrightarrow> sieved i' k))"
  using assms
proof (induction "nat (46340 - i)" arbitrary: i p rule: less_induct)
  case less
  have "i * i \<le> 46340 * 46340" using less.prems(1,2) by (intro mult_mono) auto
  then have sq: "c_int (i * i) = Some (i * i)" using order_trans [OF _ zero_le_square, of "- (2 ^ 31)" i] by (intro c_int_Some) simp_all
  show ?case
  proof (cases "i * i \<le> limit")
    case False
    then show ?thesis
      using less.prems sq by (intro exI [of _ p] exI [of _ i]) (subst sieve.simps, auto)
  next
    case True
    have i: "i < 46340"
    proof (rule ccontr)
      assume "\<not> i < 46340"
      then have "46340 * 46340 \<le> i * i" by (intro mult_mono) auto
      with True less.prems(3) show False by linarith
    qed
    have "i \<le> i * i" using less.prems(1) by simp
    then have "i \<le> limit" using True by linarith
    then have mark: "p ! nat i \<longleftrightarrow> sieved i i" using less.prems(1,5) by auto
    have "\<exists>p'. (if p ! nat i then cross_out limit i (i * i) p else Some p) = Some p' \<and> length p' = length p \<and>
        (\<forall>k. 0 \<le> k \<and> k \<le> limit \<longrightarrow> (p' ! nat k \<longleftrightarrow> sieved (i + 1) k))"
    proof (cases "p ! nat i")
      case True
      obtain p' where "cross_out limit i (i * i) p = Some p'" "length p' = length p"
        "\<forall>k. 0 \<le> k \<and> k \<le> limit \<longrightarrow> (p' ! nat k \<longleftrightarrow> p ! nat k \<and> \<not> (i * i \<le> k \<and> i dvd k - i * i))"
        using cross_out_run [of i "i * i" limit p] less.prems i by auto
      with True less.prems(5) sieved_next [OF less.prems(1)] show ?thesis by (auto simp: dvd_diff_left_iff)
    next
      case False
      with mark sieved_skip [OF less.prems(1)] less.prems(5) show ?thesis by auto
    qed
    then obtain p' where p': "(if p ! nat i then cross_out limit i (i * i) p else Some p) = Some p'" "length p' = length p"
      "\<forall>k. 0 \<le> k \<and> k \<le> limit \<longrightarrow> (p' ! nat k \<longleftrightarrow> sieved (i + 1) k)" by blast
    have "array_get p i = Some (p ! nat i)" using \<open>i \<le> limit\<close> less.prems(1,4) by (simp add: array_get_def)
    then have "sieve limit i p = sieve limit (i + 1) p'" using sq True p'(1) by (subst sieve.simps) simp
    then show ?thesis using less.hyps [of "i + 1" p'] less.prems i p'(2,3) by auto
  qed
qed

lemma sieved_prime:
  assumes "k < i * i" and "2 \<le> i"
  shows "sieved i k \<longleftrightarrow> prime_int k"
proof
  assume s: "sieved i k"
  have "\<not> d dvd k" if d: "2 \<le> d" "d < k" for d
  proof
    assume "d dvd k"
    then obtain e where e: "k = d * e" by blast
    have e2: "2 \<le> e" using e d by (smt (verit) mult_cancel_left1 mult_le_0_iff)
    define m where "m = min d e"
    have "m * m \<le> k" unfolding e m_def using d e2 by (intro mult_mono) auto
    moreover have "m dvd k" unfolding e m_def min_def by simp
    moreover have "2 \<le> m" using d e2 by (simp add: m_def)
    moreover have "m < i"
    proof (rule ccontr)
      assume "\<not> m < i"
      then have "i * i \<le> m * m" using assms(2) by (intro mult_mono) auto
      with \<open>m * m \<le> k\<close> assms(1) show False by linarith
    qed
    ultimately show False using s by (auto simp: sieved_def)
  qed
  with s show "prime_int k" by (auto simp: prime_int_def sieved_def)
next
  assume p: "prime_int k"
  have "d < k" if "2 \<le> d" "d * d \<le> k" for d
  proof -
    have "2 * d \<le> d * d" using that(1) by (intro mult_right_mono) auto
    with that show ?thesis by linarith
  qed
  with p show "sieved i k" by (auto simp: prime_int_def sieved_def)
qed

lemma sieve_overflow:
  assumes "2 \<le> i" and "i \<le> 46341" and "46340 * 46340 \<le> limit"
  shows "sieve limit i p = None"
  using assms
proof (induction "nat (46341 - i)" arbitrary: i p rule: less_induct)
  case less
  show ?case
  proof (cases "i = 46341")
    case True
    then show ?thesis by (subst sieve.simps) (simp add: c_int_def)
  next
    case False
    then have IH: "sieve limit (i + 1) q = None" for q using less.hyps [of "i + 1" q] less.prems by auto
    have "i * i \<le> 46340 * 46340" using less.prems(1,2) False by (intro mult_mono) auto
    then show ?thesis using less.prems(3) by (subst sieve.simps) (auto simp: IH c_int_def bind_eq_None_conv)
  qed
qed

definition sieve_start :: "int \<Rightarrow> bool list" where
  "sieve_start limit = (replicate (nat (limit + 1)) True)[0 := False, 1 := False]"

lemma sieve_start_sieved: "0 < limit \<Longrightarrow> 0 \<le> k \<Longrightarrow> k \<le> limit \<Longrightarrow> sieve_start limit ! nat k \<longleftrightarrow> sieved 2 k"
  by (auto simp: sieve_start_def sieved_def nth_list_update)

lemma fill_run:
  assumes "set is \<subseteq> {0..<int (length xs)}"
  shows "\<exists>ys. fill v is xs = Some ys \<and> length ys = length xs \<and> (\<forall>k<length xs. ys ! k = (if int k \<in> set is then v else xs ! k))"
  using assms
proof (induction "is" arbitrary: xs)
  case (Cons i "is")
  have set: "array_set xs i v = Some (xs[nat i := v])" using Cons.prems by (simp add: array_set_def)
  from Cons.IH [of "xs[nat i := v]"] Cons.prems obtain ys where
    "fill v is (xs[nat i := v]) = Some ys" "length ys = length xs"
    "\<forall>k<length xs. ys ! k = (if int k \<in> set is then v else xs[nat i := v] ! k)" by auto
  with set Cons.prems show ?case by (auto simp: nth_list_update)
qed simp

lemma init_sieve_run: "0 < limit \<Longrightarrow> init_sieve limit (limit + 1) = Some (sieve_start limit)"
proof -
  assume pos: "0 < limit"
  let ?xs = "replicate (nat (limit + 1)) False"
  have "set [0..limit] \<subseteq> {0..<int (length ?xs)}" using pos by auto
  from fill_run [OF this, of True] obtain ys where
    ys: "fill True [0..limit] ?xs = Some ys" "length ys = nat (limit + 1)" "\<forall>k<nat (limit + 1). ys ! k = (if int k \<in> {0..limit} then True else ?xs ! k)"
    by auto
  then have "ys = replicate (nat (limit + 1)) True" by (intro nth_equalityI) auto
  with ys(1) pos show ?thesis by (simp add: init_sieve_def array_set_def sieve_start_def list_update_swap)
qed

lemma prime_count_run:
  assumes "length p = nat limit + 1"
  shows "prime_count limit p = Some (int (length (filter (\<lambda>k. p ! nat k) [2..limit])))"
proof -
  have "those (map (array_get p) ks) = Some (map (\<lambda>k. p ! nat k) ks)" if "set ks \<subseteq> {0..<int (length p)}" for ks
    using that by (induction ks) (simp_all add: array_get_def)
  moreover have "set [2..limit] \<subseteq> {0..<int (length p)}" using assms by auto
  ultimately show ?thesis by (simp add: prime_count_def filter_map comp_def)
qed

text \<open>
  C23. The sieve is right: for every limit whose loop indices stay within \<^verbatim>\<open>int\<close> (below \<open>46340 ^ 2\<close>), the loops
  end, every access is inside of the array of \<open>limit + 1\<close> elements, exactly the primes stay marked, and the result is an error only for
  a limit of 100000 whose number of primes is not the expected one. For a limit from there on, the
  square of the index overflows, which C leaves undefined.
\<close>

theorem sieve_finds_primes:
  fixes limit
  defines "primes \<equiv> {k. prime_int k \<and> k \<le> limit}"
  assumes "0 < limit" and "limit < 2 ^ 31 - 1"
  shows "if limit < 46340 * 46340
    then (\<exists>p. Option.bind (init_sieve limit (limit + 1)) (sieve limit 2) = Some p \<and>
        (\<forall>k. 0 \<le> k \<and> k \<le> limit \<longrightarrow> (p ! nat k \<longleftrightarrow> prime_int k)) \<and> prime_count limit p = Some (int (card primes))) \<and>
      stress_cpu_prime True limit = Some (if limit = 100000 \<and> card primes \<noteq> 9592 then EXIT_FAILURE else EXIT_SUCCESS)
    else stress_cpu_prime True limit = None"
proof -
  have sz: "c_int (limit + 1) = Some (limit + 1)" using assms(2,3) by simp
  show ?thesis
  proof (cases "limit < 46340 * 46340")
    case False
    then have "sieve limit 2 q = None" for q by (intro sieve_overflow) auto
    then show ?thesis using False assms(2) sz by (simp add: stress_cpu_prime_def init_sieve_run)
  next
    case True
    have len: "length (sieve_start limit) = nat limit + 1" using assms(2) by (simp add: sieve_start_def)
    obtain p i where p: "sieve limit 2 (sieve_start limit) = Some p" "limit < i * i" "2 \<le> i" and lp: "length p = nat limit + 1" and p4:
      "\<forall>k. 0 \<le> k \<and> k \<le> limit \<longrightarrow> (p ! nat k \<longleftrightarrow> sieved i k)"
      using sieve_run [of 2, OF _ _ True len] sieve_start_sieved [OF assms(2)] by auto
    have marks: "p ! nat k \<longleftrightarrow> prime_int k" if "0 \<le> k" "k \<le> limit" for k
      using that p p4 sieved_prime [of k i] by auto
    have "set (filter (\<lambda>k. p ! nat k) [2..limit]) = primes"
      using marks by (auto simp: primes_def prime_int_def)
    then have count: "prime_count limit p = Some (int (card primes))"
      unfolding prime_count_run [OF lp] by (metis distinct_card distinct_filter distinct_upto)
    have "stress_cpu_prime True limit = Some (if limit = 100000 \<and> card primes \<noteq> 9592 then EXIT_FAILURE else EXIT_SUCCESS)"
      using p(1) sz assms(2) count by (simp add: stress_cpu_prime_def init_sieve_run)
    with True p(1) marks count init_sieve_run [OF assms(2)] show ?thesis by auto
  qed
qed

lemma sieve_finds_primes_witness:
  "(\<exists>p. Option.bind (init_sieve 10 11) (sieve 10 2) = Some p \<and> p ! 7 \<and> \<not> p ! 9) \<and> stress_cpu_prime True 10 = Some EXIT_SUCCESS \<and>
   stress_cpu_prime True 2147395600 = None"
proof -
  obtain p where p: "Option.bind (init_sieve 10 11) (sieve 10 2) = Some p" "\<forall>k. 0 \<le> k \<and> k \<le> 10 \<longrightarrow> (p ! nat k \<longleftrightarrow> prime_int k)"
    and s: "stress_cpu_prime True 10 = Some EXIT_SUCCESS"
    using sieve_finds_primes [of 10] by auto
  have "\<not> d dvd 7" if "2 \<le> d \<and> d < 7" for d :: int
  proof -
    have "d = 2 \<or> d = 3 \<or> d = 4 \<or> d = 5 \<or> d = 6" using that by auto
    then show ?thesis by auto
  qed
  then have "prime_int 7" by (simp add: prime_int_def)
  moreover have "\<not> prime_int 9" by (auto simp: prime_int_def intro!: exI [of _ 3])
  moreover have "p ! nat 7 \<longleftrightarrow> prime_int 7" "p ! nat 9 \<longleftrightarrow> prime_int 9" using p(2) by (simp_all del: nat_numeral)
  ultimately show ?thesis using p(1) s sieve_finds_primes [of 2147395600] by auto
qed

section \<open>The other workloads\<close>

text \<open>Ninety-two rounds are needed until the top bit is set, and more fuel changes nothing.\<close>

lemma fib_loop_numeral:
  "fib_loop (numeral k) f1 f2 i =
     (let fn = f1 + f2
      in if fn AND 0x8000000000000000 = 0 then fib_loop (pred_numeral k) f2 fn (i + 1) else Some (fn, i + 1))"
  by (simp add: numeral_eq_Suc)

lemma fib_loop_more: "fib_loop fuel f1 f2 i = Some r \<Longrightarrow> fib_loop (fuel + k) f1 f2 i = Some r"
  by (induction fuel arbitrary: f1 f2 i) (auto simp: Let_def split: if_splits)

lemma fib_loop_92: "fib_loop 92 0 1 0 = Some (fn_res, 92)"
  by (simp add: fib_loop_numeral fn_res_def)

lemma fibonacci_succeeds: "92 \<le> fuel \<Longrightarrow> stress_cpu_fibonacci fuel = Some EXIT_SUCCESS"
  using fib_loop_more [OF fib_loop_92, of "fuel - 92"] by (simp add: stress_cpu_fibonacci_def)

text \<open>The bisection in exact arithmetic: after 54 rounds the interval is below the precision.\<close>

lemma nsqrt_loop_run:
  fixes n :: real
  assumes "16300 \<le> n" and "n \<le> 16383" and "j \<le> 54"
    and "0 \<le> lo" and "lo * lo \<le> n" and "n \<le> hi * hi" and "hi - lo = (n - 1) / 2 ^ j"
  shows "\<exists>lo' hi'. nsqrt_loop (\<lambda>x. x) n j lo hi = (55, lo', hi') \<and> 0 \<le> lo' \<and> lo' * lo' \<le> n \<and> n \<le> hi' * hi' \<and>
    hi' - lo' = (n - 1) / 2 ^ 54"
  using assms
proof (induction "54 - j" arbitrary: j lo hi)
  case 0
  then have j: "j = 54" by simp
  have "(n - 1) / 2 ^ 54 \<le> 1 / 10 ^ 12" using 0(3) by simp
  then have "\<not> 1 / 10 ^ 12 < hi - lo" using 0(8) unfolding j by linarith
  then have "nsqrt_loop (\<lambda>x. x) n j lo hi = (55, lo, hi)" unfolding j by (subst nsqrt_loop.simps) simp
  with 0(5-8) show ?case unfolding j by blast
next
  case (Suc m)
  let ?g = "(lo + hi) / 2"
  have j: "j < 54" using Suc.hyps(2) by simp
  have "(2::real) ^ j \<le> 2 ^ 53" using j by (intro power_increasing) auto
  then have "(n - 1) / 2 ^ 53 \<le> (n - 1) / 2 ^ j" using Suc.prems(1) by (intro divide_left_mono) auto
  moreover have "1 / 10 ^ 12 < (n - 1) / 2 ^ 53" using Suc.prems(1) by simp
  ultimately have big: "1 / 10 ^ 12 < hi - lo" using Suc.prems(7) by linarith
  have "(n - 1) / 2 ^ (j + 1) = (hi - lo) / 2" using Suc.prems(7) by (simp add: power_add)
  then have half: "?g - lo = (n - 1) / 2 ^ (j + 1)" "hi - ?g = (n - 1) / 2 ^ (j + 1)" by (simp_all add: diff_divide_distrib add_divide_distrib)
  have g: "0 \<le> ?g" using Suc.prems(4) big by simp
  have step: "nsqrt_loop (\<lambda>x. x) n j lo hi = (if ?g * ?g > n then nsqrt_loop (\<lambda>x. x) n (j + 1) lo ?g else nsqrt_loop (\<lambda>x. x) n (j + 1) ?g hi)"
    using big j by (subst nsqrt_loop.simps) (simp add: max_iter_def Let_def)
  have rest: "m = 54 - (j + 1)" "j + 1 \<le> 54" using Suc.hyps(2) by simp_all
  show ?case
  proof (cases "?g * ?g > n")
    case True
    with Suc.hyps(1) [OF rest(1) Suc.prems(1,2) rest(2) Suc.prems(4,5) _ half(1)] step
    show ?thesis by simp
  next
    case False
    with Suc.hyps(1) [OF rest(1) Suc.prems(1,2) rest(2) g _ Suc.prems(6) half(2)] step
    show ?thesis by simp
  qed
qed

lemma rint_near: "\<bar>x - of_int i\<bar> < 1 / 2 \<Longrightarrow> rint x = i"
proof -
  assume near: "\<bar>x - of_int i\<bar> < 1 / 2"
  show ?thesis
  proof (cases "of_int i \<le> x")
    case True
    with near have "\<lfloor>x\<rfloor> = i" by linarith
    with near True show ?thesis by (simp add: rint_def)
  next
    case False
    with near have "\<lfloor>x\<rfloor> = i - 1" by linarith
    with near False show ?thesis by (simp add: rint_def)
  qed
qed

lemma nsqrt_one_exact:
  assumes "16300 \<le> i" and "i \<le> 16383"
  shows "nsqrt_one (\<lambda>x. x) (\<lambda>x. x) i"
proof -
  let ?n = "real_of_int i"
  have n: "16300 \<le> ?n" "?n \<le> 16383" using assms by linarith+
  have "?n * 1 \<le> ?n * ?n" using n by (intro mult_left_mono) auto
  then obtain lo hi where r: "nsqrt_loop (\<lambda>x. x) ?n 0 1 ?n = (55, lo, hi)" "0 \<le> lo" "lo * lo \<le> ?n" "?n \<le> hi * hi"
    "hi - lo = (?n - 1) / 2 ^ 54"
    using nsqrt_loop_run [OF n, of 0 1 ?n] n by auto
  have w: "0 \<le> hi - lo" "hi - lo \<le> 1 / 10 ^ 12" using r(5) n by auto
  have lo: "lo < 128"
  proof (rule ccontr)
    assume "\<not> lo < 128"
    then have "128 * 128 \<le> lo * lo" by (intro mult_mono) auto
    with r(3) n show False by simp
  qed
  let ?m = "(lo + hi) / 2"
  have "lo * lo \<le> ?m * ?m" "?m * ?m \<le> hi * hi" using r(2) w by (intro mult_mono; simp)+
  moreover have "hi * hi - lo * lo = (hi - lo) * (hi + lo)" by (simp add: algebra_simps)
  moreover have "(hi - lo) * (hi + lo) \<le> 1 / 10 ^ 12 * 257" using w lo r(2) by (intro mult_mono) auto
  ultimately have "\<bar>?m * ?m - ?n\<bar> \<le> 257 / 10 ^ 12" using r(3,4) by linarith
  then have "rint (?m * ?m) = i" by (intro rint_near) simp
  with r(1) n show ?thesis by (simp add: nsqrt_one_def max_iter_def)
qed

lemma nsqrt_succeeds: "stress_cpu_nsqrt (\<lambda>x. x) (\<lambda>x. x) = EXIT_SUCCESS"
proof -
  have "list_all (nsqrt_one (\<lambda>x. x) (\<lambda>x. x)) [16300..16383]"
    unfolding list_all_iff set_upto by (intro ballI nsqrt_one_exact) (simp_all only: atLeastAtMost_iff)
  then show ?thesis by (simp only: stress_cpu_nsqrt_def if_True)
qed

text \<open>Products of random numbers between 0 and 1 are not negative, whatever the rounding.\<close>

lemma foldl_nonneg:
  "(\<And>s x. 0 \<le> s \<Longrightarrow> x \<in> set xs \<Longrightarrow> 0 \<le> f s x) \<Longrightarrow> 0 \<le> s \<Longrightarrow> (0::real) \<le> foldl f s xs"
  by (induction xs arbitrary: s) auto

lemma matrix_succeeds:
  assumes "\<And>x. 0 \<le> x \<Longrightarrow> 0 \<le> rd x" and "\<And>k. 0 \<le> rand k"
  shows "stress_cpu_matrix rd rand True sz = Some EXIT_SUCCESS"
proof -
  have ab: "0 \<le> matrix_a rd rand k i j" "0 \<le> matrix_b rd rand k i j" for k i j
    using assms by (simp_all add: matrix_a_def matrix_b_def RAND_MAX_def)
  have "0 \<le> matrix_c rd rand k i j" for k i j
    unfolding matrix_c_def by (rule foldl_nonneg) (simp_all add: assms(1) ab)
  then have "0 \<le> checksum_c rd rand k" for k
    unfolding checksum_c_def by (intro foldl_nonneg) (simp_all add: assms(1))
  then have "\<not> checksum_c rd rand k < 0" for k by (simp add: not_less)
  then show ?thesis by (simp add: stress_cpu_matrix_def Let_def)
qed

text \<open>The sum of two random numbers overflows easily: with a generator stuck at its maximum, at the second access.\<close>

lemma memory_overflows:
  assumes "0 < size_mb" and "size_mb < 2048"
  shows "stress_cpu_memory (\<lambda>_. RAND_MAX) True size_mb = None"
proof -
  have c: "c_int (size_mb * 1024) = Some (size_mb * 1024)" "c_int (size_mb * 1024 * 1024) = Some (size_mb * 1024 * 1024)"
    using assms by (auto intro!: c_int_Some)
  define n where "n = nat (size_mb * 1024 * 1024) div 4"
  have n: "0 < n" "n div 4 = Suc (Suc (n div 4 - 2))" using assms by (auto simp: n_def)
  have first: "[0..<n div 4] = 0 # 1 # [2..<n div 4]"
    using n(2) by (simp add: upt_conv_Cons numeral_2_eq_2)
  let ?b = "replicate n RAND_MAX" and ?i = "nat RAND_MAX mod n"
  have i: "?i < n" using n(1) by simp
  have "map (\<lambda>_. RAND_MAX) [0..<n] = ?b" by (simp add: map_replicate_const)
  moreover have "memory_loop (\<lambda>_. RAND_MAX) (0 # 1 # ks) ?b 0 = None" for ks
    using i by (simp add: Let_def RAND_MAX_def c_int_def)
  ultimately have "memory_loop (\<lambda>i. RAND_MAX) [0..<nat (size_mb * 1024 * 1024) div 4 div 4]
      (map (\<lambda>_. RAND_MAX) [0..<nat (size_mb * 1024 * 1024) div 4]) 0 = None"
    unfolding n_def [symmetric] first by metis
  then show ?thesis using c assms by (simp add: stress_cpu_memory_def)
qed

end
