(* ===== verification/Sample_Apps.thy ===== *)
theory Sample_Apps
  imports Sample_Workloads Getopt Sched
begin

text \<open>
  The sample application (\<^verbatim>\<open>sample-apps/src/sample_apps.c\<close>): its command line, the periodic job that a
  signal or a timer releases, the measurement against the deadline, and the statistics. The lemmas
  show that the statistics are those of the jobs that ran and that a miss is reported exactly when a
  job ended after its deadline.
\<close>

section \<open>Configuration and statistics\<close>

text \<open>Signed 64-bit arithmetic that overflows is undefined: \<open>None\<close>.\<close>

definition c_long :: "int \<Rightarrow> int option" where
  "c_long x = (if - (2 ^ 63) \<le> x \<and> x < 2 ^ 63 then Some x else None)"

lemma c_long_Some [simp]: "- (2 ^ 63) \<le> x \<Longrightarrow> x < 2 ^ 63 \<Longrightarrow> c_long x = Some x"
  by (simp add: c_long_def)

lemma c_long_nonneg: "0 \<le> x \<Longrightarrow> x < 2 ^ 63 \<Longrightarrow> c_long x = Some x"
  by (simp add: c_long_def)

record rt_task_config =
  rc_period_ms :: u64
  rc_deadline_ms :: u64
  rc_runtime_us :: u64
  rc_priority :: int
  rc_enable_stats :: bool
  rc_name :: string

definition rt_task_init :: rt_task_config where
  "rt_task_init = \<lparr>rc_period_ms = 100, rc_deadline_ms = 100, rc_runtime_us = 50000, rc_priority = 50,
     rc_enable_stats = True, rc_name = strncpy_field 16 ''rt_task''\<rparr>"

record rt_stats =
  rs_min_runtime_us :: u64
  rs_max_runtime_us :: u64
  rs_avg_runtime_us :: u64
  rs_total_runtime_us :: u64
  rs_deadline_misses :: u64
  rs_iterations :: u64
  rs_last_runtime_us :: u64

text \<open>The initial minimum is \<^verbatim>\<open>ULONG_MAX\<close>.\<close>

definition rt_stats_init :: rt_stats where
  "rt_stats_init = \<lparr>rs_min_runtime_us = - 1, rs_max_runtime_us = 0, rs_avg_runtime_us = 0, rs_total_runtime_us = 0,
     rs_deadline_misses = 0, rs_iterations = 0, rs_last_runtime_us = 0\<rparr>"

text \<open>The division is undefined when the number of iterations has wrapped to zero.\<close>

definition rt_stats_update :: "u64 \<Rightarrow> bool \<Rightarrow> rt_stats \<Rightarrow> rt_stats option" where
  "rt_stats_update runtime_us deadline_miss st =
     (let total = rs_total_runtime_us st + runtime_us;
          n = rs_iterations st + 1
      in if n = 0 then None
         else Some \<lparr>rs_min_runtime_us = (if runtime_us < rs_min_runtime_us st then runtime_us else rs_min_runtime_us st),
           rs_max_runtime_us = (if runtime_us > rs_max_runtime_us st then runtime_us else rs_max_runtime_us st),
           rs_avg_runtime_us = total div n,
           rs_total_runtime_us = total,
           rs_deadline_misses = (if deadline_miss then rs_deadline_misses st + 1 else rs_deadline_misses st),
           rs_iterations = n,
           rs_last_runtime_us = runtime_us\<rparr>)"

section \<open>Command line\<close>

text \<open>
  \<^verbatim>\<open>strtoul\<close> in base ten: a value that does not fit gives \<^verbatim>\<open>ULONG_MAX\<close>, a minus sign negates modulo the
  width.
\<close>

definition strtoul10 :: "string \<Rightarrow> u64" where
  "strtoul10 s =
     (let t = dropWhile is_space (cstr s);
          (neg, ds) = (case t of
                         [] \<Rightarrow> (False, [])
                       | c # cs \<Rightarrow> if c = CHR ''-'' then (True, cs) else if c = CHR ''+'' then (False, cs) else (False, t));
          v = digits_val 0 ds
      in if v \<ge> 2 ^ 64 then - 1 else if neg then - word_of_int v else word_of_int v)"

record sample_app =
  ap_config :: rt_task_config
  ap_algo :: int
  ap_loop_cnt :: int
  ap_use_timer :: bool

definition app0 :: sample_app where
  "app0 = \<lparr>ap_config = rt_task_init, ap_algo = ALGO_NSQRT, ap_loop_cnt = 10, ap_use_timer = False\<rparr>"

definition app_long_options :: "long_option list" where
  "app_long_options = map (\<lambda>(n, a, v). \<lparr>lo_name = n, lo_arg = a, lo_val = v\<rparr>)
     [(''period'', True, CHR ''p''), (''deadline'', True, CHR ''d''), (''runtime'', True, CHR ''r''),
      (''priority'', True, CHR ''P''), (''algorithm'', True, CHR ''a''), (''loops'', True, CHR ''l''),
      (''stats'', False, CHR ''s''), (''timer'', False, CHR ''t''), (''help'', False, CHR ''h'')]"

text \<open>One turn of the option loop; \<open>Inl\<close> is the exit code of a return.\<close>

definition app_option :: "char \<Rightarrow> string \<Rightarrow> sample_app \<Rightarrow> int + sample_app" where
  "app_option opt optarg ap =
     (let c = ap_config ap
      in if opt = CHR ''p'' then Inr (ap\<lparr>ap_config := c\<lparr>rc_period_ms := strtoul10 optarg\<rparr>\<rparr>)
         else if opt = CHR ''d'' then Inr (ap\<lparr>ap_config := c\<lparr>rc_deadline_ms := strtoul10 optarg\<rparr>\<rparr>)
         else if opt = CHR ''r'' then Inr (ap\<lparr>ap_config := c\<lparr>rc_runtime_us := strtoul10 optarg\<rparr>\<rparr>)
         else if opt = CHR ''P''
         then (if atoi optarg < 1 \<or> atoi optarg > 99 then Inl EXIT_FAILURE
               else Inr (ap\<lparr>ap_config := c\<lparr>rc_priority := atoi optarg\<rparr>\<rparr>))
         else if opt = CHR ''a''
         then (if atoi optarg < 1 \<or> atoi optarg > 8 then Inl EXIT_FAILURE else Inr (ap\<lparr>ap_algo := atoi optarg\<rparr>))
         else if opt = CHR ''l'' then Inr (ap\<lparr>ap_loop_cnt := atoi optarg\<rparr>)
         else if opt = CHR ''s'' then Inr (ap\<lparr>ap_config := c\<lparr>rc_enable_stats := True\<rparr>\<rparr>)
         else if opt = CHR ''t'' then Inr (ap\<lparr>ap_use_timer := True\<rparr>)
         else if opt = CHR ''h'' then Inl EXIT_SUCCESS
         else Inl EXIT_FAILURE)"

primrec app_options :: "(char \<times> string option) list \<Rightarrow> sample_app \<Rightarrow> int + sample_app" where
  "app_options [] ap = Inr ap"
| "app_options (x # xs) ap =
     (case app_option (fst x) (case snd x of None \<Rightarrow> [] | Some v \<Rightarrow> v) ap of
        Inl code \<Rightarrow> Inl code
      | Inr ap' \<Rightarrow> app_options xs ap')"

text \<open>The name of the task, and the deadline that is replaced by the period.\<close>

definition name_and_deadline :: "string \<Rightarrow> rt_task_config \<Rightarrow> rt_task_config" where
  "name_and_deadline name c =
     (let c = c\<lparr>rc_name := strncpy_field 16 name\<rparr>
      in if rc_deadline_ms c = 100 \<and> rc_period_ms c \<noteq> 100 then c\<lparr>rc_deadline_ms := rc_period_ms c\<rparr> else c)"

definition app_arguments :: "string list \<Rightarrow> int + sample_app" where
  "app_arguments args =
     (case getopt_long ''p:d:r:P:a:l:sth'' app_long_options args of (opts, operands) \<Rightarrow>
        (case app_options opts app0 of
           Inl code \<Rightarrow> Inl code
         | Inr ap \<Rightarrow>
             (case operands of
                [] \<Rightarrow> Inl EXIT_FAILURE
              | name # _ \<Rightarrow> Inr (ap\<lparr>ap_config := name_and_deadline name (ap_config ap)\<rparr>))))"

section \<open>Timer, priority, signals\<close>

definition setup_periodic_timer :: "u64 \<Rightarrow> int io" where
  "setup_periodic_timer period_ms = do {
     a \<leftarrow> kern (Timer_create CLOCK_MONOTONIC (Notify_signal SIGNO_TT));
     if ret a = -1 then return_io (-1)
     else do {
       let ts = Timespec (period_ms div 1000) (period_ms mod 1000 * 1000000);
       b \<leftarrow> kern (Timer_settime (out_timer a) False \<lparr>it_value = ts, it_interval = ts\<rparr>);
       return_io (if ret b = -1 then -1 else 0)
     }
   }"

definition set_realtime_priority :: "int \<Rightarrow> int io" where
  "set_realtime_priority priority = do {
     a \<leftarrow> kern (Sched_setscheduler 0 SCHED_FIFO priority);
     return_io (if ret a = -1 then -1 else 0)
   }"

definition app_signal_handlers :: "unit io" where
  "app_signal_handlers = do {
     _ \<leftarrow> kern (Sigaction SIGINT);
     _ \<leftarrow> kern (Sigaction SIGTERM);
     return_io ()
   }"

text \<open>
  The handler sets \<^verbatim>\<open>shutdown_requested\<close>, which is never reset: it is set when one of the two signals was
  delivered since the handlers were installed at position \<open>n\<close>. A signal that arrives before ends the
  process by its default action and is not considered.
\<close>

definition shutdown_requested :: "nat \<Rightarrow> bool io" where
  "shutdown_requested n = State (\<lambda>s. (stop_signal n s, s))"

section \<open>One job\<close>

definition ts_ns :: "timespec \<Rightarrow> int option" where
  "ts_ns ts = Option.bind (c_long (sint (tv_sec ts) * 1000000000)) (\<lambda>x. c_long (x + sint (tv_nsec ts)))"

definition deadline_time :: "u64 \<Rightarrow> timespec \<Rightarrow> timespec" where
  "deadline_time deadline_ms before =
     (let sec = tv_sec before + deadline_ms div 1000;
          nsec = tv_nsec before + deadline_ms mod 1000 * 1000000
      in if sint nsec \<ge> 1000000000 then Timespec (sec + 1) (nsec - 1000000000) else Timespec sec nsec)"

text \<open>The runtime in microseconds and whether the deadline was missed; the division truncates.\<close>

definition measure_job :: "u64 \<Rightarrow> timespec \<Rightarrow> timespec \<Rightarrow> (u64 \<times> bool) option" where
  "measure_job deadline_ms before now =
     Option.bind (ts_ns now) (\<lambda>n. Option.bind (ts_ns before) (\<lambda>b. Option.bind (c_long (n - b)) (\<lambda>d.
       Option.bind (ts_ns (deadline_time deadline_ms before)) (\<lambda>l.
         Some (word_of_int (sgn d * (\<bar>d\<bar> div 1000)), n > l)))))"

section \<open>The loop and main\<close>

text \<open>
  A loop runs out of its bound, meets an operation that C leaves undefined, or returns. \<open>work k\<close> are
  the readings of the clock of the thread and the surroundings of the \<open>k\<close>-th job. The lines that are
  printed, one for each job, are returned with the statistics. \<open>sig\<close> is the variable that \<^verbatim>\<open>sigwait\<close>
  writes when it succeeds.
\<close>

datatype 'a outcome = Out_of_fuel | Undefined | Returned 'a

type_synonym job_log = "(u64 \<times> bool) list"
type_synonym work = "nat \<Rightarrow> (nat \<Rightarrow> u64) \<times> (int \<Rightarrow> surroundings)"

definition account :: "sample_app \<Rightarrow> u64 \<times> bool \<Rightarrow> rt_stats \<Rightarrow> rt_stats option" where
  "account ap j st = (if rc_enable_stats (ap_config ap) then rt_stats_update (fst j) (snd j) st else Some st)"

definition run_job :: "nat \<Rightarrow> work \<Rightarrow> sample_app \<Rightarrow> rt_stats \<times> job_log \<Rightarrow> (rt_stats \<times> job_log) option io" where
  "run_job bound work ap r = do {
     b \<leftarrow> kern (Clock_gettime CLOCK_MONOTONIC);
     (case do_calculations bound (fst (work (length (snd r)))) (snd (work (length (snd r)))) (ap_algo ap) (ap_loop_cnt ap) of
        None \<Rightarrow> return_io None
      | Some _ \<Rightarrow> do {
          a \<leftarrow> kern (Clock_gettime CLOCK_MONOTONIC);
          return_io (Option.bind (measure_job (rc_deadline_ms (ap_config ap)) (out_ts b) (out_ts a)) (\<lambda>j.
            map_option (\<lambda>st. (st, snd r @ [j])) (account ap j (fst r))))
        })
   }"

primrec app_loop ::
  "nat \<Rightarrow> nat \<Rightarrow> work \<Rightarrow> sample_app \<Rightarrow> nat \<Rightarrow> int \<Rightarrow> rt_stats \<times> job_log \<Rightarrow> (rt_stats \<times> job_log) outcome io" where
  "app_loop 0 bound work ap n sig r = return_io Out_of_fuel"
| "app_loop (Suc fuel) bound work ap n sig r = do {
     stop \<leftarrow> shutdown_requested n;
     if stop then return_io (Returned r)
     else do {
       w \<leftarrow> kern (Sigwait SIGNO_TT);
       if ret w = -1 then
         (if errno w = EINTR then app_loop fuel bound work ap n sig r else return_io (Returned r))
       else do {
         let sig' = (if ret w = 0 then out_signo w else sig);
         if sig' \<noteq> SIGNO_TT then app_loop fuel bound work ap n sig' r
         else do {
           j \<leftarrow> run_job bound work ap r;
           (case j of
              None \<Rightarrow> return_io Undefined
            | Some r' \<Rightarrow> app_loop fuel bound work ap n sig' r')
         }
       }
     }
   }"

text \<open>Whether \<^verbatim>\<open>main\<close> prints the final statistics.\<close>

definition prints_stats :: "sample_app \<Rightarrow> rt_stats \<Rightarrow> bool" where
  "prints_stats ap st \<longleftrightarrow> rc_enable_stats (ap_config ap) \<and> rs_iterations st > 0"

definition app_start :: "sample_app \<Rightarrow> int io" where
  "app_start ap = do {
     _ \<leftarrow> kern (Prctl_set_name (rc_name (ap_config ap)));
     _ \<leftarrow> kern Prctl_get_name;
     _ \<leftarrow> set_realtime_priority (rc_priority (ap_config ap));
     app_signal_handlers;
     _ \<leftarrow> kern (Sigprocmask_block SIGNO_TT);
     if ap_use_timer ap then setup_periodic_timer (rc_period_ms (ap_config ap)) else return_io 0
   }"

text \<open>The exit code, the statistics that are printed at the end if any, and the lines of the jobs.\<close>

definition app_main :: "nat \<Rightarrow> nat \<Rightarrow> work \<Rightarrow> string list \<Rightarrow> (int \<times> rt_stats option \<times> job_log) outcome io" where
  "app_main fuel bound work args = do {
     _ \<leftarrow> kern Getpid;
     (case app_arguments args of
        Inl code \<Rightarrow> return_io (Returned (code, None, []))
      | Inr ap \<Rightarrow> do {
          n \<leftarrow> position;
          e \<leftarrow> app_start ap;
          if e = -1 then return_io (Returned (EXIT_FAILURE, None, []))
          else do {
            r \<leftarrow> app_loop fuel bound work ap (n + 5) (- 1) (rt_stats_init, []);
            return_io (case r of
                Out_of_fuel \<Rightarrow> Out_of_fuel
              | Undefined \<Rightarrow> Undefined
              | Returned (st, jobs) \<Rightarrow> Returned (EXIT_SUCCESS, if prints_stats ap st then Some st else None, jobs))
          }
        })
   }"


section \<open>The scheduling helpers\<close>

text \<open>
  The helpers in \<^verbatim>\<open>sample-apps/src/sched.c\<close>, which only report failures. A negative CPU number is a large
  one for \<^verbatim>\<open>CPU_SET\<close>, which ignores it.
\<close>

definition app_set_affinity :: "int \<Rightarrow> unit io" where
  "app_set_affinity cpu = do {
     _ \<leftarrow> kern (Sched_setaffinity 0 (if cpu < 0 then CPU_ZERO else CPU_SET (nat cpu) CPU_ZERO));
     return_io ()
   }"

definition app_set_schedattr :: "int \<Rightarrow> u32 \<Rightarrow> u32 \<Rightarrow> unit io" where
  "app_set_schedattr pid priority policy = do {
     _ \<leftarrow> set_sched_attr_syscall pid \<lparr>sa_size = 48, sa_sched_policy = policy, sa_sched_flags = 0, sa_sched_nice = 0,
       sa_sched_priority = priority, sa_sched_runtime = 0, sa_sched_deadline = 0, sa_sched_period = 0\<rparr> 0;
     return_io ()
   }"

definition app_get_process_name_by_pid :: "int \<Rightarrow> string option \<Rightarrow> string option io" where
  "app_get_process_name_by_pid pid name =
     (case name of
        None \<Rightarrow> return_io None
      | Some buf \<Rightarrow> do {
          let procpath = ''/proc/'' @ printf_d pid @ ''/comm'';
          f \<leftarrow> kern (Fopen procpath ''r'');
          if ret f = 0 then return_io name
          else do {
            let bytes = take PROCESS_NAME_SIZE (out_text f);
            let bytes' = (if bytes \<noteq> [] \<and> last bytes = CHR 0x0A then butlast bytes @ [NUL] else bytes);
            _ \<leftarrow> kern (Fclose procpath);
            return_io (Some (bytes' @ drop (length bytes') buf))
          }
        })"

text \<open>For a pid that the node accepts, the node's function reads the same name.\<close>

lemma app_get_process_name_same:
  "0 < pid \<Longrightarrow> result (app_get_process_name_by_pid pid (Some buf)) s = snd (result (get_process_name_by_pid pid (Some buf)) s)"
  by (simp add: app_get_process_name_by_pid_def get_process_name_by_pid_def Let_def)

section \<open>The statistics are exact\<close>

primrec tallied :: "sample_app \<Rightarrow> job_log \<Rightarrow> rt_stats \<Rightarrow> rt_stats option" where
  "tallied ap [] st = Some st"
| "tallied ap (j # js) st = Option.bind (account ap j st) (tallied ap js)"

lemma tallied_append: "tallied ap (js @ ks) st = Option.bind (tallied ap js st) (tallied ap ks)"
  by (induction js arbitrary: st) (auto split: Option.bind_split)

lemma run_job_accounts:
  assumes "result (run_job bound work ap r) s = Some r'"
  shows "\<exists>j. snd r' = snd r @ [j] \<and> account ap j (fst r) = Some (fst r')"
  using assms by (auto simp: run_job_def bind_eq_Some_conv split: option.splits prod.splits)

lemma run_shutdown_requested [simp]: "run_state (shutdown_requested n) s = (stop_signal n s, s)"
  by (simp add: shutdown_requested_def)

lemma app_loop_accounts:
  assumes "result (app_loop fuel bound work ap n sig r) s = Returned r'"
  shows "\<exists>js. snd r' = snd r @ js \<and> tallied ap js (fst r) = Some (fst r')"
  using assms
proof (induction fuel arbitrary: sig r s)
  case 0
  then show ?case by simp
next
  case (Suc fuel)
  have finished: "r' = r \<Longrightarrow> ?case" by (intro exI [of _ "[]"]) simp
  let ?w = "answers s (length (trace s)) (Kern (Sigwait SIGNO_TT))"
  let ?s = "s\<lparr>trace := trace s @ [Kern (Sigwait SIGNO_TT)]\<rparr>"
  let ?sig = "if ret ?w = 0 then out_signo ?w else sig"
  have job: ?case if j: "run_state (run_job bound work ap r) t = (Some r1, t')"
    and rest: "result (app_loop fuel bound work ap n sg r1) t' = Returned r'" for sg r1 t t'
  proof -
    obtain j where "snd r1 = snd r @ [j]" "account ap j (fst r) = Some (fst r1)"
      using run_job_accounts [of bound work ap r t r1] j by auto
    moreover obtain js where "snd r' = snd r1 @ js" "tallied ap js (fst r1) = Some (fst r')"
      using Suc.IH [OF rest] by blast
    ultimately show ?thesis by (intro exI [of _ "j # js"]) simp
  qed
  consider "stop_signal n s" | "\<not> stop_signal n s" "ret ?w = -1" | "\<not> stop_signal n s" "ret ?w \<noteq> -1" "?sig \<noteq> SIGNO_TT"
    | "\<not> stop_signal n s" "ret ?w \<noteq> -1" "?sig = SIGNO_TT" by blast
  then show ?case
  proof cases
    case 1
    with Suc.prems finished show ?thesis by simp
  next
    case 2
    with Suc.prems finished Suc.IH show ?thesis by (auto split: if_splits)
  next
    case 3
    with Suc.prems have "result (app_loop fuel bound work ap n ?sig r) ?s = Returned r'" by (simp add: Let_def)
    then show ?thesis by (rule Suc.IH)
  next
    case 4
    with Suc.prems show ?thesis
      by (cases "run_state (run_job bound work ap r) ?s" rule: prod.exhaust)
        (auto simp: Let_def split: option.splits intro: job)
  qed
qed

definition runtimes :: "job_log \<Rightarrow> nat list" where
  "runtimes jobs = map (\<lambda>j. unat (fst j)) jobs"

text \<open>The statistics of a list of jobs that is not empty.\<close>

definition exact :: "rt_stats \<Rightarrow> job_log \<Rightarrow> bool" where
  "exact st jobs \<longleftrightarrow>
     unat (rs_iterations st) = length jobs \<and>
     unat (rs_total_runtime_us st) = sum_list (runtimes jobs) \<and>
     unat (rs_min_runtime_us st) = Min (set (runtimes jobs)) \<and>
     unat (rs_max_runtime_us st) = Max (set (runtimes jobs)) \<and>
     unat (rs_avg_runtime_us st) = sum_list (runtimes jobs) div length jobs \<and>
     unat (rs_last_runtime_us st) = last (runtimes jobs) \<and>
     unat (rs_deadline_misses st) = length (filter snd jobs)"

lemma unat_add_small: "unat x + unat y < 2 ^ 64 \<Longrightarrow> unat (x + y) = unat x + unat y" for x y :: u64
  using unat_add_lem [of x y] by simp

lemma unat_inc_small: "unat x + 1 < 2 ^ 64 \<Longrightarrow> unat (x + 1) = unat x + 1" for x :: u64
  using unat_add_small [of x 1] by simp

lemma update_first:
  assumes "rt_stats_update x m rt_stats_init = Some st"
  shows "exact st [(x, m)]"
proof -
  have "x = - 1" if "\<not> x < - 1" using that word_order.extremum_unique [of x] by (simp add: not_less)
  moreover have "x = 0" if "\<not> 0 < x" using that by (simp add: word_gt_0)
  ultimately show ?thesis
    using assms by (auto simp: rt_stats_update_def rt_stats_init_def Let_def exact_def runtimes_def)
qed

lemma update_next:
  assumes "exact st jobs" and "jobs \<noteq> []" and "rt_stats_update x m st = Some st'"
    and "sum_list (runtimes jobs) + unat x < 2 ^ 64" and "length jobs + 1 < 2 ^ 64"
  shows "exact st' (jobs @ [(x, m)])"
proof -
  have misses: "unat (rs_deadline_misses st) + 1 < 2 ^ 64"
    using assms(1,5) le_less_trans [OF length_filter_le [of snd jobs]] by (simp add: exact_def)
  have upd: "unat (rs_iterations st + 1) = length jobs + 1"
      "unat (rs_total_runtime_us st + x) = sum_list (runtimes jobs) + unat x"
      "unat (rs_deadline_misses st + 1) = length (filter snd jobs) + 1"
    using assms(1,4,5) misses by (simp_all add: exact_def unat_add_small unat_inc_small)
  have minmax: "unat (if x < rs_min_runtime_us st then x else rs_min_runtime_us st) = min (unat x) (Min (set (runtimes jobs)))"
      "unat (if rs_max_runtime_us st < x then x else rs_max_runtime_us st) = max (unat x) (Max (set (runtimes jobs)))"
    using assms(1) by (auto simp: exact_def word_less_nat_alt)
  have ne: "set (runtimes jobs) \<noteq> {}" using assms(2) by (simp add: runtimes_def)
  have "unat (rs_iterations st + 1) \<noteq> unat (0 :: u64)" using upd(1) by simp
  then have "rs_iterations st + 1 \<noteq> 0" by metis
  then have "st' = \<lparr>rs_min_runtime_us = (if x < rs_min_runtime_us st then x else rs_min_runtime_us st),
      rs_max_runtime_us = (if rs_max_runtime_us st < x then x else rs_max_runtime_us st),
      rs_avg_runtime_us = (rs_total_runtime_us st + x) div (rs_iterations st + 1),
      rs_total_runtime_us = rs_total_runtime_us st + x,
      rs_deadline_misses = (if m then rs_deadline_misses st + 1 else rs_deadline_misses st),
      rs_iterations = rs_iterations st + 1, rs_last_runtime_us = x\<rparr>"
    using assms(3) by (simp add: rt_stats_update_def Let_def)
  moreover have "set (runtimes (jobs @ [(x, m)])) = insert (unat x) (set (runtimes jobs))"
    "runtimes (jobs @ [(x, m)]) = runtimes jobs @ [unat x]"
    by (simp_all add: runtimes_def)
  moreover have "unat (rs_deadline_misses st) = length (filter snd jobs)" using assms(1) by (simp add: exact_def)
  ultimately show ?thesis using ne upd minmax unfolding exact_def by (simp add: unat_div)
qed

lemma tallied_exact:
  assumes "rc_enable_stats (ap_config ap)" and "tallied ap jobs rt_stats_init = Some st" and "jobs \<noteq> []"
    and "sum_list (runtimes jobs) < 2 ^ 64" and "length jobs < 2 ^ 64"
  shows "exact st jobs"
  using assms(2-)
proof (induction jobs arbitrary: st rule: rev_induct)
  case Nil
  then show ?case by simp
next
  case (snoc j js)
  obtain st1 where st1: "tallied ap js rt_stats_init = Some st1" "rt_stats_update (fst j) (snd j) st1 = Some st"
    using snoc.prems(1) assms(1) by (auto simp: tallied_append account_def bind_eq_Some_conv)
  show ?case
  proof (cases "js = []")
    case True
    then show ?thesis using st1 update_first [of "fst j" "snd j" st] by simp
  next
    case False
    then show ?thesis
      using snoc.IH [OF st1(1) False] st1(2) snoc.prems update_next [of st1 js "fst j" "snd j" st] by (simp add: runtimes_def)
  qed
qed

text \<open>The statistics are on from the start and no option turns them off.\<close>

lemma app_option_stats:
  "app_option opt optarg ap = Inr ap' \<Longrightarrow> rc_enable_stats (ap_config ap) \<Longrightarrow> rc_enable_stats (ap_config ap')"
  by (auto simp: app_option_def Let_def split: if_splits)

lemma app_options_stats:
  "app_options xs ap = Inr ap' \<Longrightarrow> rc_enable_stats (ap_config ap) \<Longrightarrow> rc_enable_stats (ap_config ap')"
  by (induction xs arbitrary: ap) (auto split: sum.splits dest: app_option_stats)

lemma app_arguments_stats: "app_arguments args = Inr ap \<Longrightarrow> rc_enable_stats (ap_config ap)"
  by (auto simp: app_arguments_def name_and_deadline_def Let_def app0_def rt_task_init_def
      split: prod.splits sum.splits list.splits dest!: app_options_stats)


lemma app_main_jobs:
  assumes "result (app_main fuel bound work args) s = Returned (code, out, jobs)" and "\<not> (out = None \<and> jobs = [])"
  obtains ap n t st where "app_arguments args = Inr ap"
    and "result (app_loop fuel bound work ap n (- 1) (rt_stats_init, [])) t = Returned (st, jobs)"
    and "out = (if prints_stats ap st then Some st else None)"
  using assms
  by (auto simp: app_main_def case_prod_beta split: sum.splits if_splits outcome.splits)

lemma sum_list_bounds:
  "xs \<noteq> [] \<Longrightarrow> length xs * Min (set xs) \<le> sum_list xs \<and> sum_list xs \<le> length xs * Max (set xs)" for xs :: "nat list"
  using sum_list_mono [of xs "\<lambda>_. Min (set xs)" id] sum_list_mono [of xs id "\<lambda>_. Max (set xs)"]
  by (simp add: sum_list_triv)

lemma exact_average:
  assumes "exact st jobs" and "jobs \<noteq> []"
  shows "rs_min_runtime_us st \<le> rs_avg_runtime_us st" and "rs_avg_runtime_us st \<le> rs_max_runtime_us st"
proof -
  have "runtimes jobs \<noteq> []" "length (runtimes jobs) = length jobs" using assms(2) by (simp_all add: runtimes_def)
  with sum_list_bounds [of "runtimes jobs"]
  have "Min (set (runtimes jobs)) \<le> sum_list (runtimes jobs) div length jobs"
    "sum_list (runtimes jobs) div length jobs \<le> Max (set (runtimes jobs))"
    using div_le_mono [of "length jobs * Min (set (runtimes jobs))" "sum_list (runtimes jobs)" "length jobs"]
      div_le_mono [of "sum_list (runtimes jobs)" "length jobs * Max (set (runtimes jobs))" "length jobs"] assms(2)
    by simp_all
  with assms(1) show "rs_min_runtime_us st \<le> rs_avg_runtime_us st" "rs_avg_runtime_us st \<le> rs_max_runtime_us st"
    by (simp_all add: exact_def word_le_nat_alt)
qed

text \<open>
  C21. The statistics of the sample application: whatever the command line, the signals and the times
  are, when the program returns it has printed final statistics exactly when at least one job ran;
  they give the number of jobs, the sum, minimum, maximum, average and last of the runtimes and the
  number of missed deadlines of the jobs that were printed, and the average lies between minimum and
  maximum. The counters must not have wrapped.
\<close>

theorem stats_exact:
  assumes "result (app_main fuel bound work args) s = Returned (code, out, jobs)"
    and "sum_list (runtimes jobs) < 2 ^ 64" and "length jobs < 2 ^ 64"
  shows "case out of
      None \<Rightarrow> jobs = []
    | Some st \<Rightarrow> jobs \<noteq> [] \<and> exact st jobs \<and> rs_min_runtime_us st \<le> rs_avg_runtime_us st \<and>
        rs_avg_runtime_us st \<le> rs_max_runtime_us st"
proof (cases "out = None \<and> jobs = []")
  case True
  then show ?thesis by simp
next
  case False
  with assms(1) obtain ap n t st where ap: "app_arguments args = Inr ap"
    and loop: "result (app_loop fuel bound work ap n (- 1) (rt_stats_init, [])) t = Returned (st, jobs)"
    and out: "out = (if prints_stats ap st then Some st else None)"
    by (rule app_main_jobs)
  from ap have on: "rc_enable_stats (ap_config ap)" by (rule app_arguments_stats)
  have acc: "tallied ap jobs rt_stats_init = Some st" using app_loop_accounts [OF loop] by simp
  have "jobs \<noteq> []" using False out acc by (auto simp: prints_stats_def rt_stats_init_def)
  moreover from on acc this assms(2,3) have ex: "exact st jobs" by (rule tallied_exact)
  moreover have "prints_stats ap st"
    using on ex \<open>jobs \<noteq> []\<close> by (auto simp: prints_stats_def exact_def word_less_nat_alt)
  ultimately show ?thesis using out exact_average [OF ex] by simp
qed

text \<open>Two jobs, the second one late, before the program is interrupted.\<close>

definition two_jobs :: os where
  "two_jobs = \<lparr>answers = \<lambda>n c. answer0\<lparr>out_signo := SIGNO_TT, out_ts := Timespec 0 (of_nat (n * n) * 100000),
     signals := (if n = 12 then [SIGINT] else [])\<rparr>, heap = zero_alloc, trace = [], globals = globals0\<rparr>"

definition no_work :: work where
  "no_work k = (\<lambda>_. 0, \<lambda>_. \<lparr>su_rl = id, su_rd = id, su_rand = \<lambda>_. 0, su_malloc_ok = True\<rparr>)"

definition two_stats :: rt_stats where
  "two_stats = \<lparr>rs_min_runtime_us = 1700, rs_max_runtime_us = 2300, rs_avg_runtime_us = 2000, rs_total_runtime_us = 4000,
     rs_deadline_misses = 1, rs_iterations = 2, rs_last_runtime_us = 2300\<rparr>"

lemma two_jobs_run:
  "result (app_main 3 0 no_work [''-d'', ''2'', ''-a'', ''2'', ''-l'', ''0'', ''t'']) two_jobs =
    Returned (EXIT_SUCCESS, Some two_stats, [(1700, False), (2300, True)])"
  by code_simp

theorem stats_exact_witness: "exact two_stats [(1700, False), (2300, True)]"
  using stats_exact [OF two_jobs_run] by (simp add: runtimes_def)

section \<open>Corners\<close>

text \<open>A deadline of 100 ms that is asked for is replaced by the period.\<close>

lemma deadline_of_100_lost:
  "map_sum id (\<lambda>ap. rc_deadline_ms (ap_config ap)) (app_arguments [''-p'', ''50'', ''-d'', ''100'', ''t'']) = Inr 50"
  by code_simp

text \<open>
  \<^verbatim>\<open>sigwait\<close> returns the number of the error, so the test for \<open>-1\<close> never holds: when it fails before the
  first signal, the loop calls it again and again.
\<close>

lemma sigwait_failure_repeats:
  assumes "\<And>k c. ret (answers s k c) = e" and "\<And>k c. signals (answers s k c) = []" and "e > 0" and "sig \<noteq> SIGNO_TT"
  shows "result (app_loop fuel bound work ap n sig r) s = Out_of_fuel"
  using assms(1,2)
proof (induction fuel arbitrary: s)
  case (Suc fuel)
  have "delivered n s = []" using Suc.prems(2) by (simp add: delivered_def)
  then have "\<not> stop_signal n s" by (simp add: stop_signal_def)
  then show ?case using Suc assms(3,4) by (simp add: Let_def)
qed simp

section \<open>A miss is a job that ended late\<close>

definition ns :: "timespec \<Rightarrow> int" where
  "ns ts = uint (tv_sec ts) * 1000000000 + uint (tv_nsec ts)"


lemma ts_ns_small:
  assumes "normal_ts ts" and "uint (tv_sec ts) < 2 ^ 33"
  shows "ts_ns ts = Some (ns ts)"
proof -
  have "uint (tv_nsec ts) < 1000000000" "sint (tv_nsec ts) = uint (tv_nsec ts)" "sint (tv_sec ts) = uint (tv_sec ts)"
    using assms by (auto simp: normal_ts_unat unat_less_iff_uint sint_eq_uint_u64)
  moreover from this have "c_long (uint (tv_sec ts) * 1000000000) = Some (uint (tv_sec ts) * 1000000000)"
    "c_long (ns ts) = Some (ns ts)"
    using assms(2) by (simp_all add: c_long_nonneg ns_def)
  ultimately show ?thesis by (simp add: ts_ns_def ns_def)
qed

lemma uint_add_small: "uint x + uint y < 2 ^ 64 \<Longrightarrow> uint (x + y) = uint x + uint y" for x y :: u64
  by (simp add: uint_word_ariths)

text \<open>The deadline is a normal time value again, \<open>deadline_ms\<close> after the start.\<close>

lemma deadline_time_exact:
  assumes "normal_ts before" and "uint (tv_sec before) < 2 ^ 32" and "uint deadline_ms < 2 ^ 40"
  shows "normal_ts (deadline_time deadline_ms before)"
    and "uint (tv_sec (deadline_time deadline_ms before)) < 2 ^ 33"
    and "ns (deadline_time deadline_ms before) = ns before + uint deadline_ms * 1000000"
proof -
  let ?sec = "tv_sec before + deadline_ms div 1000"
  let ?nsec = "tv_nsec before + deadline_ms mod 1000 * 1000000"
  have n: "uint (tv_nsec before) < 1000000000" using assms(1) by (simp add: normal_ts_unat unat_less_iff_uint)
  have m: "uint (deadline_ms mod 1000 * 1000000) = uint deadline_ms mod 1000 * 1000000"
    by (simp add: uint_word_ariths uint_mod)
  have "uint deadline_ms mod 1000 * 1000000 \<le> 999000000" by simp
  with n have nsec: "uint ?nsec = uint (tv_nsec before) + uint deadline_ms mod 1000 * 1000000" "uint ?nsec < 2000000000"
    by (simp_all add: uint_add_small m)
  have d: "uint deadline_ms div 1000 < 1099511628" using assms(3) by simp
  then have sec: "uint ?sec = uint (tv_sec before) + uint deadline_ms div 1000" "uint ?sec < 5394478924"
    using assms(2) by (simp_all add: uint_add_small uint_div)
  have sec': "uint (?sec + 1) = uint ?sec + 1" using sec(2) uint_add_small [of ?sec 1] by simp
  have nsec': "uint (?nsec - 1000000000) = uint ?nsec - 1000000000" if "uint ?nsec \<ge> 1000000000"
    using that nsec(2) by (simp add: uint_word_ariths)
  have "sint ?nsec = uint ?nsec" using nsec(2) by (simp add: sint_eq_uint_u64)
  then have dt: "deadline_time deadline_ms before =
      (if uint ?nsec \<ge> 1000000000 then Timespec (?sec + 1) (?nsec - 1000000000) else Timespec ?sec ?nsec)"
    by (simp add: deadline_time_def Let_def)
  show "normal_ts (deadline_time deadline_ms before)"
    using nsec(2) sec(2) sec' nsec' by (auto simp: dt normal_ts_unat unat_less_iff_uint)
  show "uint (tv_sec (deadline_time deadline_ms before)) < 2 ^ 33" using sec(2) sec' by (simp add: dt)
  have "uint deadline_ms * 1000000 = uint deadline_ms div 1000 * 1000000000 + uint deadline_ms mod 1000 * 1000000"
    using div_mult_mod_eq [of "uint deadline_ms" 1000] by linarith
  then show "ns (deadline_time deadline_ms before) = ns before + uint deadline_ms * 1000000"
    using nsec(1) sec(1) sec' nsec' by (cases "uint ?nsec \<ge> 1000000000") (simp_all add: dt ns_def)
qed

text \<open>
  C22. The check of the deadline: for times of the monotonic clock below \<open>2 ^ 32\<close> seconds and deadlines
  below \<open>2 ^ 40\<close> milliseconds, the runtime of a job is the time between its start and its end in whole
  microseconds, and a miss is reported exactly when it ended more than the deadline after its start.
  No operation overflows.
\<close>

theorem deadline_miss_exact:
  assumes "normal_ts before" and "normal_ts now" and "unat (tv_sec before) < 2 ^ 32" and "unat (tv_sec now) < 2 ^ 32"
    and "unat deadline_ms < 2 ^ 40" and "ns before \<le> ns now"
  shows "measure_job deadline_ms before now =
    Some (word_of_int ((ns now - ns before) div 1000), ns before + uint deadline_ms * 1000000 < ns now)"
proof -
  have u: "uint (tv_sec before) < 2 ^ 32" "uint (tv_sec now) < 2 ^ 32" "uint deadline_ms < 2 ^ 40"
    using assms(3-5) by (simp_all add: unat_less_iff_uint)
  have ts: "ts_ns before = Some (ns before)" "ts_ns now = Some (ns now)"
    "ts_ns (deadline_time deadline_ms before) = Some (ns before + uint deadline_ms * 1000000)"
    using ts_ns_small [OF assms(1)] ts_ns_small [OF assms(2)] deadline_time_exact [OF assms(1) u(1,3)]
      ts_ns_small [of "deadline_time deadline_ms before"] u by simp_all
  have "uint (tv_nsec now) < 1000000000" using assms(2) by (simp add: normal_ts_unat unat_less_iff_uint)
  then have "ns now < 2 ^ 63" "0 \<le> ns before" using u(2) by (simp_all add: ns_def)
  then have "c_long (ns now - ns before) = Some (ns now - ns before)" using assms(6) by simp
  moreover have "sgn d * (\<bar>d\<bar> div 1000) = d div 1000" if "0 \<le> d" for d :: int
    using that by (cases "d = 0") simp_all
  then have "sgn (ns now - ns before) * (\<bar>ns now - ns before\<bar> div 1000) = (ns now - ns before) div 1000"
    using assms(6) by simp
  ultimately show ?thesis using ts by (simp only: measure_job_def bind.bind_lunit)
qed

theorem deadline_miss_exact_witness:
  "measure_job 90 (Timespec 5 950000000) (Timespec 6 40000001) = Some (90000, True)"
  using deadline_miss_exact [of "Timespec 5 950000000" "Timespec 6 40000001" 90]
  by (simp add: normal_ts_unat ns_def)

end
