(* ===== verification/Spec2Isabelle.thy ===== *)
theory Spec2Isabelle
  imports System_Runs Node_Runs Fetch_Race Reports Supervision Sample_Apps
begin

text \<open>
  TIMPANI is a distributed time-triggered scheduler. An orchestrator (\<^verbatim>\<open>timpani-o\<close>, C++) accepts
  workloads over gRPC, places their tasks on the CPUs of the configured nodes and hands each node the
  schedule. A node agent (\<^verbatim>\<open>timpani-n\<close>, C) fetches the schedule, waits for a common start, wakes
  each task by a periodic timer and a signal, watches deadlines with two programs in the kernel, and
  reports misses back. Both sides talk through \<^verbatim>\<open>libtrpc\<close>, a serial buffer and four remote calls over a
  peer-to-peer bus. A sample application shows how a task takes part. This library is a shallow embedding of both sides,
  of the protocol between them and of the sample application.

  \<^bold>\<open>Foundations.\<close>
  \<^item> \<^verbatim>\<open>Timpani_Prelude\<close>: machine integers as words, bytes in memory, C strings in arrays of a fixed size.
  \<^item> \<^verbatim>\<open>Os\<close>: the world outside the repository (kernel, C library, libsystemd, libbpf, gRPC). The state \<open>os\<close> holds a
    function from the number of calls made and the call to its answer, and the trace of the calls (the stores to the flag that two threads of the orchestrator share are in it too);
    stateful code is a state monad over it, with \<open>result\<close> and \<open>calls\<close> as its observations. Nothing is
    assumed about the answers beyond the named hypotheses of a theorem.
  \<^item> \<^verbatim>\<open>Cxx_Std\<close>: what the orchestrator uses of the C++ library (ordered maps, \<^verbatim>\<open>stoi\<close>, lines, double
    arithmetic with the rounding as an argument). \<^verbatim>\<open>Getopt\<close>: how \<^verbatim>\<open>getopt\<close> and \<^verbatim>\<open>getopt_long\<close> split a command line.

  \<^bold>\<open>The protocol\<close> (\<^verbatim>\<open>libtrpc/src\<close>).
  \<^item> \<^verbatim>\<open>Serialize\<close> models \<^verbatim>\<open>serialize.c\<close> and \<^verbatim>\<open>serialize.h\<close> with every access to the buffer, in both byte orders:
    values read back as written, no write leaves the block, no length in a message leads to a read
    outside it, and growing the buffer makes room for the request without wrapping its size.
  \<^item> \<^verbatim>\<open>Peer_Dbus\<close> models \<^verbatim>\<open>peer_dbus.c\<close>: server methods, sockets, connections and the requests of a client, with
    the release of everything acquired on each error path.

  \<^bold>\<open>The node\<close> (\<^verbatim>\<open>timpani-n/src\<close>).
  \<^item> \<^verbatim>\<open>Timespec\<close> (\<^verbatim>\<open>timetrigger.h\<close>): conversions and comparison of times. \<^verbatim>\<open>Node_Types\<close> (\<^verbatim>\<open>internal.h\<close>, \<^verbatim>\<open>schedinfo.h\<close>,
    \<^verbatim>\<open>trace_bpf.h\<close>, \<^verbatim>\<open>globals.c\<close>): the records and error codes.
  \<^item> \<^verbatim>\<open>Sched\<close> (\<^verbatim>\<open>sched.c\<close>): affinity, scheduling class, the searches of \<^verbatim>\<open>/proc\<close>, pidfds.
  \<^item> \<^verbatim>\<open>Config\<close> (\<^verbatim>\<open>config.c\<close>): the command line; a printed configuration is read back.
  \<^item> \<^verbatim>\<open>Trpc\<close> (\<^verbatim>\<open>trpc.c\<close>): connection, decoding of the schedule, retries, start barrier, reports.
  \<^item> \<^verbatim>\<open>Hyperperiod\<close> (\<^verbatim>\<open>hyperperiod.c\<close>): the cycle handler, the position in the hyperperiod and its timer.
  \<^item> \<^verbatim>\<open>Task\<close> (\<^verbatim>\<open>task.c\<close>): which tasks of the schedule are set up on this node.
  \<^item> \<^verbatim>\<open>Bpf_Kernel\<close> (\<^verbatim>\<open>sigwait.bpf.c\<close>, \<^verbatim>\<open>schedstat.bpf.c\<close>) and \<^verbatim>\<open>Trace_Bpf\<close> (\<^verbatim>\<open>trace_bpf.c\<close>): the programs in the kernel
    and their life cycle in the agent.
  \<^item> \<^verbatim>\<open>Apex\<close> (\<^verbatim>\<open>apex_monitor.c\<close> and the handlers of \<^verbatim>\<open>core.c\<close>): supervision of Apex.OS processes; the counters as
    an invariant of a step relation, the escalation of a fault call by call.
  \<^item> \<^verbatim>\<open>Core\<close> (the rest of \<^verbatim>\<open>core.c\<close>, \<^verbatim>\<open>signal.c\<close>): clock calibration, trace events, what a timer expiry does and
    when it counts a miss, the start of the timers, the main loop and its end.
  \<^item> \<^verbatim>\<open>Supervision\<close>: the kernel program, the recording of its events and the judgement at the timer's expiry
    composed, for any interleaving of the threads and with events lost when the ring buffer is full.
  \<^item> \<^verbatim>\<open>Node_Main\<close> (\<^verbatim>\<open>main.c\<close>, \<^verbatim>\<open>cleanup.c\<close>): the whole program, its exit code, and the final release of all
    resources, call by call. The handlers are installed by \<^verbatim>\<open>initialize\<close>; a signal before that would end the process and is not modelled.

  \<^bold>\<open>The orchestrator\<close> (\<^verbatim>\<open>timpani-o/src\<close>).
  \<^item> \<^verbatim>\<open>Hyperperiod_Manager\<close> (\<^verbatim>\<open>hyperperiod_manager.cpp\<close>, \<^verbatim>\<open>scheduler_utils.cpp\<close>, \<^verbatim>\<open>task.h\<close>): least common multiples
    at 64 bits. \<^verbatim>\<open>Node_Config\<close> (\<^verbatim>\<open>node_config.cpp\<close>): the reader of the configuration file, with a printer it
    inverts.
  \<^item> \<^verbatim>\<open>Global_Scheduler\<close> (\<^verbatim>\<open>global_scheduler.cpp\<close>): the three placement algorithms; the one in use refines a
    specification (\<open>spec_tasks\<close>) and keeps every CPU under the threshold for any rounding.
  \<^item> \<^verbatim>\<open>Orchestrator\<close> (the packing and the barrier of \<^verbatim>\<open>dbus_server.cpp\<close>, \<^verbatim>\<open>sched_info.h\<close>): the round trip of a schedule
    to a node. \<^verbatim>\<open>Orchestrator_Server\<close> (\<^verbatim>\<open>schedinfo_service.cpp\<close>, the rest of \<^verbatim>\<open>dbus_server.cpp\<close>, \<^verbatim>\<open>fault_client.cpp\<close>): the
    server as a step relation over all its operations, with the coherence of its cached buffer as an invariant.
  \<^item> \<^verbatim>\<open>Fetch_Race\<close>: the call-backs for the nodes in two steps, as they run outside of the lock, interleaved with requests:
    what stays true, and a run in which freed memory is read.
  \<^item> \<^verbatim>\<open>Orchestrator_Main\<close> (\<^verbatim>\<open>main.cpp\<close>, \<^verbatim>\<open>tlog.h\<close>, start and stop in \<^verbatim>\<open>schedinfo_service.cpp\<close> and \<^verbatim>\<open>dbus_server.cpp\<close>): the options, the
    start of the servers with their threads, the destructors on each return; every exit releases what was
    acquired, and when the event loop serves, from the order in which start and stop write its flag.

  \<^bold>\<open>The sample application\<close> (\<^verbatim>\<open>sample-apps/src\<close>).
  \<^item> \<^verbatim>\<open>Sample_Workloads\<close>: the synthetic workloads, with overflow of \<^verbatim>\<open>int\<close> as undefined; the sieve
    stays inside of its array and finds the primes.
  \<^item> \<^verbatim>\<open>Sample_Apps\<close>: options, timer, signals, the loop of the jobs, deadline check and statistics; the statistics
    are those of the jobs that ran.

  \<^bold>\<open>Both sides.\<close>
  \<^item> \<^verbatim>\<open>Timpani_System\<close> fills the call-backs of \<^verbatim>\<open>libtrpc\<close> with the operations of the orchestrator's server and runs both
    programs against each other: a missed deadline from the timer of the task to the fault service, also after the
    workload has been replaced, and the start of a node's timers from the barrier in the orchestrator.
  \<^item> \<^verbatim>\<open>System_Runs\<close>: the server and any number of agents as one step relation; by an invariant of its runs,
    notifications name the workload, node and task that missed.
  \<^item> \<^verbatim>\<open>Node_Runs\<close>: whole runs of the node, which end when it is told to stop, with a run from the fetched schedule to
    the exit.
  \<^item> \<^verbatim>\<open>Reports\<close>: the reports of the scheduler, the dump of the schedules, the statistics of a node and its log levels, as
    lists of the values that are printed; what a report lists and what a warning means, in double arithmetic.
  \<^item> This theory: what a request to the orchestrator leads to on a node.

  \<^bold>\<open>Interfaces\<close> are locales, each interpreted on the model: \<open>byte_channel\<close> and \<open>two_channels\<close> in
  \<^verbatim>\<open>Serialize\<close> (a writer and a reader of one kind of value, and their composition), \<open>time_unit\<close> in \<^verbatim>\<open>Timespec\<close>,
  \<open>io_effect\<close> in \<^verbatim>\<open>Os\<close> (a property of computations that sequencing keeps; interpreted again in \<^verbatim>\<open>Trace_Bpf\<close> and
  \<^verbatim>\<open>Core\<close>), \<open>probe\<close> in \<^verbatim>\<open>Sched\<close> (the searches of directories), \<open>bus_request\<close> and \<open>server_callbacks\<close> in \<^verbatim>\<open>Peer_Dbus\<close> (the four client
  requests; what the server expects of its call-backs, interpreted in \<^verbatim>\<open>Timpani_System\<close>), \<open>bounded_map\<close> in \<^verbatim>\<open>Bpf_Kernel\<close> (hash maps of the kernel) and \<open>finite_store\<close> in \<^verbatim>\<open>Cxx_Std\<close> (ordered maps).

  \<^bold>\<open>Bounds and fuel.\<close> The connection is tried at most 300 times, as in the code. The waiting loop of the
  barrier and the main loop may run forever: their models take fuel, the theorems on them say which
  fuel suffices (more than the number of refusals; two more than the position of the signal among the
  calls, also for the whole program in \<^verbatim>\<open>Node_Runs\<close>), and running out of fuel is a separate value. So do the loop of the sample application and its busy
  loop, the loop of the orchestrator's \<^verbatim>\<open>main\<close>, which has no end, and the loops of the sieve, which
  are proved to end. All other loops are total functions. Sizes of buffers and of lists are natural numbers; where the wrap-around
  of \<^verbatim>\<open>size_t\<close> could matter (\<open>reserve_space\<close>), a lemma shows that it does not occur below \<open>2 ^ 63\<close> bytes. Undefined behaviour (a write outside a
  block, a failed allocation whose result is used, signed overflow in the sample application) is a
  value of its own as well. The build modelled is the default one, with \<^verbatim>\<open>CONFIG_TRACE_BPF\<close>; whether scheduling events are
  traced (\<^verbatim>\<open>CONFIG_TRACE_BPF_EVENT\<close>) is an argument.

  \<^bold>\<open>Not modelled.\<close> The text of usage messages and of the other log lines (the filters of the two loggers are in \<^verbatim>\<open>Reports\<close> and
  \<^verbatim>\<open>Orchestrator_Main\<close>); the empty functions that replace the tracing in a build without \<^verbatim>\<open>CONFIG_TRACE_BPF\<close>; the interleaving inside the orchestrator's operations other
  than in \<^verbatim>\<open>Fetch_Race\<close> (elsewhere an operation is one step); gRPC and protobuf, whose messages enter decoded;
  the generated kernel headers \<^verbatim>\<open>vmlinux.h\<close>; the Rust port, whose \<^verbatim>\<open>sigwait.bpf.c\<close> is a copy of the one in
  \<^verbatim>\<open>Bpf_Kernel\<close>; tests and scripts.
\<close>

section \<open>From the request to the node\<close>

text \<open>
  C1. A workload that can be scheduled reaches the nodes as specified. In any state the orchestrator can
  reach, with a loaded configuration, a request whose tasks have a period and of which some task can be
  placed is accepted with status 0. A node that asks next is sent bytes, and when the
  bus delivers them the node's call succeeds: it then holds exactly the tasks that the placement
  specification gave a node, each once, with the values of the request that the protocol transports,
  under the name of the workload, and as hyperperiod the least common multiple of the
  workload's periods.
\<close>

theorem workload_reaches_node:
  fixes request m rnd
  defines "w \<equiv> rq_workload_id request" and "ts \<equiv> ConvertTaskInfoToTasks request"
  defines "placed \<equiv> spec_tasks rnd (configured m) ts"
  assumes sr: "reachable e (Some m) sr" "sr_attached sr"
    and e: "env_rnd e = rnd" "plenty (env_alloc e)" "\<forall>n. env_malloc_ok e n"
    and m: "IsLoaded m" "omap_ok (ncm_nodes m)" "cpus_nonneg (configured m)"
    and rq: "w \<noteq> ''Apex.OS''" "workload_periods w ts \<noteq> {}" "Lcm (workload_periods w ts) < 2 ^ 64"
      "\<exists>t\<in>set placed. ot_assigned_node t \<noteq> []" "length ts < 2 ^ 32"
    and s: "plenty (heap s)" "calloc_ok s"
  shows "\<exists>sv sr' bytes. AddSchedInfo rnd (env_sort e) (env_malloc_ok e) request (sr_service sr) = Some (0, sv) \<and>
    SchedInfoCallback (env_alloc e) (env_le e) (sr\<lparr>sr_service := sv\<rparr>) = Some (Some bytes, sr') \<and>
    (bus_delivers s (cfg_node_id (cx_config ctx)) bytes \<longrightarrow>
      (\<exists>ctx'. result (get_sched_info le ctx) s = Some (0, ctx') \<and>
        mset (si_tasks (cx_sched_info ctx')) =
          image_mset (\<lambda>t. node_task (to_sched_task t)) (mset (filter (\<lambda>t. ot_assigned_node t \<noteq> []) placed)) \<and>
        si_workload_id (cx_sched_info ctx') = take 63 (cstr w) \<and>
        unat (hp_hyperperiod_us (cx_hp_manager ctx')) = Lcm (workload_periods w ts)))"
proof -
  obtain sv info where sv: "AddSchedInfo rnd (env_sort e) (env_malloc_ok e) request (sr_service sr) = Some (0, sv)"
      "sv_sched_info_map sv = [(w, schedules_of placed)]"
      "GetHyperperiodInfo (sv_hyperperiods sv) w = Some info" "unat (hi_hyperperiod_us info) = Lcm (workload_periods w ts)"
    using AddSchedInfo_accepts [OF reachable_service_ok [OF sr(1)] m e(3) rq(1) [unfolded w_def]
        rq(2,3) [unfolded w_def ts_def] rq(4) [unfolded placed_def ts_def], of "env_sort e"]
    unfolding w_def ts_def placed_def by blast
  let ?sr = "sr\<lparr>sr_service := sv\<rparr>" and ?tasks = "map node_task (concat (map snd (schedules_of placed)))"
  have "server_step e sr ?sr" using server_step.add sv(1) unfolding e(1) [symmetric] by blast
  then have "coherent e ?sr" using step_coherent reachable_coherent [OF sr(1)] by blast
  from fetch_current [OF this e(2)] obtain sr' where
    f: "SchedInfoCallback (env_alloc e) (env_le e) ?sr =
      Some (Some (enc_schedule (hi_hyperperiod_us info) (take 63 (cstr w)) ?tasks), sr')"
    using sr(2) sv(2,3) by auto
  have tasks: "mset ?tasks = image_mset (\<lambda>t. node_task (to_sched_task t)) (mset (filter (\<lambda>t. ot_assigned_node t \<noteq> []) placed))"
    using schedules_of_mset [of placed] by (simp add: image_mset.compositionality comp_def del: mset_concat mset_filter)
  have "length ?tasks = size (mset ?tasks)" by (rule size_mset [symmetric])
  also have "\<dots> \<le> length ts" unfolding tasks using length_filter_le [of _ placed]
    by (simp add: placed_def del: mset_filter)
  finally have "length ?tasks < 2 ^ 32" using rq(5) by linarith
  note node = get_sched_info_decodes [OF s wire_node_tasks this]
  show ?thesis
    by (intro exI [of _ sv] exI [of _ sr'] exI [of _ "enc_schedule (hi_hyperperiod_us info) (take 63 (cstr w)) ?tasks"]
        conjI sv(1) f impI exI)
      (erule node, use tasks sv(4) in \<open>simp_all add: fresh_hp_def del: mset_map mset_concat mset_filter\<close>)
qed

lemma workload_reaches_node_witness:
  "\<exists>sr sv sr' bytes s ctx'. reachable sample_environment (Some sample_manager) sr \<and>
     AddSchedInfo (\<lambda>x. x) (\<lambda>ts. ts) (\<lambda>n. True) sample_workload (sr_service sr) = Some (0, sv) \<and>
     SchedInfoCallback zero_alloc True (sr\<lparr>sr_service := sv\<rparr>) = Some (Some bytes, sr') \<and>
     result (get_sched_info False zero_context) s = Some (0, ctx') \<and>
     si_workload_id (cx_sched_info ctx') = ''w'' \<and> unat (hp_hyperperiod_us (cx_hp_manager ctx')) = 3"
proof -
  let ?sr = "SetSchedInfoServer True (new_server (Some sample_manager))" and ?e = sample_environment
  have sr: "reachable ?e (Some sample_manager) ?sr" "sr_attached ?sr"
    unfolding reachable_def by (blast intro: server_step.start) (simp add: SetSchedInfoServer_def)
  have e: "env_rnd ?e = (\<lambda>x. x)" "plenty (env_alloc ?e)" "\<forall>n. env_malloc_ok ?e n" "env_le ?e = True" "env_alloc ?e = zero_alloc"
    "env_sort ?e = (\<lambda>ts. ts)" "env_malloc_ok ?e = (\<lambda>n. True)"
    by (simp_all add: sample_environment_def)
  have m: "IsLoaded sample_manager" "omap_ok (ncm_nodes sample_manager)" "cpus_nonneg (configured sample_manager)"
    using sample_ready by (simp_all add: ready_def)
  have w: "rq_workload_id sample_workload = ''w''" by (simp add: sample_workload_def)
  have rq: "''w'' \<noteq> ''Apex.OS''" "workload_periods ''w'' (ConvertTaskInfoToTasks sample_workload) \<noteq> {}"
    "Lcm (workload_periods ''w'' (ConvertTaskInfoToTasks sample_workload)) < 2 ^ 64"
    "length (ConvertTaskInfoToTasks sample_workload) < 2 ^ 32"
    unfolding sample_workload_facts(2) by (simp_all add: sample_workload_facts(1))
  note main = workload_reaches_node [OF sr e(1-3) m, of sample_workload, unfolded w, OF rq(1-3) sample_workload_facts(3) rq(4),
      where ctx = zero_context and le = False, unfolded e(4-7) sample_workload_facts(2)]
  define os where "os bytes = os_of (\<lambda>c. answer0\<lparr>ret := 1, out_bytes := bytes\<rparr>)" for bytes
  have os: "plenty (heap (os bytes))" "calloc_ok (os bytes)" "bus_delivers (os bytes) n bytes" for bytes n
    by (simp_all add: os_def calloc_ok_def bus_delivers_def)
  obtain sv sr' bytes where 1: "AddSchedInfo (\<lambda>x. x) (\<lambda>ts. ts) (\<lambda>n. True) sample_workload (sr_service ?sr) = Some (0, sv)"
    "SchedInfoCallback zero_alloc True (?sr\<lparr>sr_service := sv\<rparr>) = Some (Some bytes, sr')"
    using main [OF os(1,2) [of "[]"]] by blast
  with main [OF os(1,2) [of bytes]] obtain ctx' where "result (get_sched_info False zero_context) (os bytes) = Some (0, ctx')"
     "si_workload_id (cx_sched_info ctx') = ''w''" "unat (hp_hyperperiod_us (cx_hp_manager ctx')) = 3"
    using os(3) by (auto simp: cstr_def)
  with 1 sr(1) show ?thesis by blast
qed

section \<open>Tasks without room\<close>

lemma take_spec_tasks: "take i (spec_tasks rnd avail ts) = spec_tasks rnd avail (take i ts)"
proof (induction ts rule: rev_induct)
  case (snoc t ts)
  then show ?case by (cases "i \<le> length ts") (simp_all add: spec_tasks_snoc)
qed (simp add: spec_tasks_def)

lemma nth_spec_tasks:
  assumes "i < length ts"
  shows "spec_tasks rnd avail ts ! i = spec_place rnd avail (take i (spec_tasks rnd avail ts)) (ts ! i)"
proof -
  have "take (Suc i) (spec_tasks rnd avail ts) ! i = spec_tasks rnd avail ts ! i" by simp
  moreover have "take (Suc i) (spec_tasks rnd avail ts) =
      spec_tasks rnd avail (take i ts) @ [spec_place rnd avail (spec_tasks rnd avail (take i ts)) (ts ! i)]"
    using assms by (simp add: take_spec_tasks take_Suc_conv_app_nth spec_tasks_snoc)
  ultimately show ?thesis using assms by (simp add: take_spec_tasks nth_append)
qed

text \<open>The set-up of a process makes one CPU setting, that of the description, for the process it has found.\<close>

fun is_setaffinity :: "call \<Rightarrow> bool" where
  "is_setaffinity (Kern (Sched_setaffinity p m)) = True"
| "is_setaffinity _ = False"

lemma setup_pins:
  fixes n :: time_trigger and s :: os
  defines "look \<equiv> get_pid_by_name (Some (ti_name (tt_task n))) True"
  assumes "result look s = (TTSCHED_SUCCESS, Some pid)"
  shows "filter is_setaffinity (calls (task_setup_process ev n) s) =
    filter is_setaffinity (calls (set_affinity pid (to_int32 (uint (ti_cpu_affinity (tt_task n))))) (after look s))"
proof -
  have "\<not> is_setaffinity c" if "is_proc_read c" for c using that by (cases c rule: is_setaffinity.cases) simp_all
  then have look: "filter is_setaffinity (calls look s) = []"
    unfolding look_def by (rule filter_calls_none [OF only_get_pid_by_name [THEN only_imp_only_g]])
  define rest where "rest = (do {
      _ \<leftarrow> set_schedattr pid (ti_sched_priority (tt_task n)) (ti_sched_policy (tt_task n));
      let tt_node1 = n\<lparr>tt_task := (tt_task n)\<lparr>ti_pid := word_of_int pid\<rparr>\<rparr>;
      (pidfd_result, fd_out) \<leftarrow> create_pidfd pid True;
      let tt_node2 = (case fd_out of
          None \<Rightarrow> tt_node1
        | Some fd \<Rightarrow> tt_node1\<lparr>tt_task := (tt_task tt_node1)\<lparr>ti_pidfd := fd\<rparr>\<rparr>);
      if pidfd_result \<noteq> TTSCHED_SUCCESS then return_io (TT_ERROR_CONFIG, tt_node2)
      else do { _ \<leftarrow> bpf_add_pid ev pid; return_io (TT_SUCCESS, tt_node2) } })"
  have quiet: "only_g (\<lambda>c. \<not> is_setaffinity c) rest"
    unfolding rest_def set_schedattr_def set_sched_attr_syscall_def create_pidfd_def open_pidfd_syscall_def bpf_add_pid_def Let_def
    by (intro only_g_rules) simp_all
  let ?set = "set_affinity pid (to_int32 (uint (ti_cpu_affinity (tt_task n))))"
  have set: "only_g is_task_call ?set"
    by (rule only_imp_only_g, rule only_mono [OF only_set_affinity]) (rule task_call_mono(3))
  have "run_state (task_setup_process ev n) s = run_state (State_Monad.bind ?set (\<lambda>_. rest)) (after look s)"
    using assms(2) by (simp add: task_setup_process_def rest_def look_def case_prod_beta Let_def)
  then have "trace (after (task_setup_process ev n) s) = trace (after (State_Monad.bind ?set (\<lambda>_. rest)) (after look s))" by simp
  also have "\<dots> = trace (after look s) @ calls (State_Monad.bind ?set (\<lambda>_. rest)) (after look s)"
    by (rule only_g_trace [OF tch.effect_bind [OF only_g_mono [OF set] only_g_mono [OF quiet]]]) simp_all
  also have "trace (after look s) = trace s @ calls look s"
    unfolding look_def by (rule only_g_trace [OF only_get_pid_by_name [THEN only_imp_only_g]])
  finally have "calls (task_setup_process ev n) s = calls look s @ calls (State_Monad.bind ?set (\<lambda>_. rest)) (after look s)"
    by (simp add: calls_def [of "task_setup_process ev n"])
  then have "filter is_setaffinity (calls (task_setup_process ev n) s) =
      filter is_setaffinity (calls (State_Monad.bind ?set (\<lambda>_. rest)) (after look s))" by (simp add: look)
  also have "\<dots> = filter is_setaffinity (calls ?set (after look s))"
    unfolding filter_calls_bind [OF set quiet] filter_calls_none [OF quiet, of is_setaffinity, simplified] by simp
  finally show ?thesis .
qed

text \<open>A system on which process 7 has the name of the second task of the sample.\<close>

lemma sample_found:
  "\<exists>s s1. run_state (get_pid_by_name (Some ''b'') True) s = ((TTSCHED_SUCCESS, Some 7), s1) \<and>
     0 \<le> to_int32 (ret (answers s1 (length (trace s1)) (Kern Sysconf_nprocessors)))"
proof -
  let ?f = "\<lambda>c. case c of
      Kern (Opendir p) \<Rightarrow> answer0\<lparr>ret := 1, out_dir := [(''7'', True)]\<rparr>
    | Kern (Fopen p m) \<Rightarrow> answer0\<lparr>ret := 1, out_text := ''b'' @ [CHR 0x0A]\<rparr>
    | _ \<Rightarrow> answer0"
  define s where "s = os_of ?f"
  have n: "atoi ''7'' = 7"
    by (simp add: atoi_def strtol10_def cstr_def is_space_def is_digit_def to_int32_id)
  have "found_pid s ''b'' = 7"
    by (simp add: s_def found_pid_def dir_pids_def threads_named_def comm_of_def n cstr_def)
  moreover have "steady s" by (simp add: s_def)
  ultimately have "result (get_pid_by_name (Some ''b'') True) s = (TTSCHED_SUCCESS, Some 7)"
    using steady_get_pid [of s "''b''" "trace s"] by simp
  then obtain s1 where found: "run_state (get_pid_by_name (Some ''b'') True) s = ((TTSCHED_SUCCESS, Some 7), s1)"
    by (metis prod.collapse)
  have "s1 = s\<lparr>trace := trace s @ calls (get_pid_by_name (Some ''b'') True) s\<rparr>"
    using only_after [OF only_get_pid_by_name, of "Some ''b''" True s] found by simp
  then have nproc: "0 \<le> to_int32 (ret (answers s1 (length (trace s1)) (Kern Sysconf_nprocessors)))"
    by (simp add: s_def answer0_def to_int32_def)
  with found show ?thesis by blast
qed

text \<open>
  C34. A task for which its target node has no room is not rejected: it still enters the schedule of that
  node, with the CPU affinity -1 (all bits set); and when the node sets up a process for it, finds its pid
  and can ask for the number of processors, it makes exactly one CPU setting, which pins that process to CPU 0,
  whatever the utilisation of that CPU.
\<close>

theorem unplaced_task_on_cpu_0:
  assumes "ready gs m" and "cpus_nonneg (configured m)" and "\<forall>n. malloc_ok n"
    and run: "schedule rnd std_sort malloc_ok ''target_node_priority'' gs = Some (ok, gs')"
    and i: "i < length (gs_tasks gs)" and el: "eligible (configured m) (gs_tasks gs ! i)"
    and full: "has_room rnd (configured m) (take i (gs_tasks gs')) (gs_tasks gs ! i) = {}"
  shows "\<exists>entries st. omap_find (gs_sched_info_map gs') (ot_target_node (gs_tasks gs ! i)) = Some entries \<and>
    st \<in> set entries \<and> st_task_name st = strncpy_field 16 (ot_name (gs_tasks gs ! i)) \<and>
    ti_cpu_affinity (node_task st) = -1 \<and>
    (\<forall>ev n pid s s1. tt_task n = node_task st \<longrightarrow>
      run_state (get_pid_by_name (Some (ti_name (node_task st))) True) s = ((TTSCHED_SUCCESS, Some pid), s1) \<longrightarrow>
      0 \<le> to_int32 (ret (answers s1 (length (trace s1)) (Kern Sysconf_nprocessors))) \<longrightarrow>
      filter is_setaffinity (calls (task_setup_process ev n) s) = [Kern (Sched_setaffinity pid (CPU_SET 0 CPU_ZERO))])"
proof -
  let ?ts = "gs_tasks gs" and ?placed = "spec_tasks rnd (configured m) (gs_tasks gs)"
  let ?t = "(?ts ! i)\<lparr>ot_assigned_node := ot_target_node (?ts ! i)\<rparr>" and ?n = "ot_target_node (gs_tasks gs ! i)"
  obtain g: "gs_tasks gs' = ?placed" "gs_sched_info_map gs' = schedules_of ?placed"
    using schedule_target [OF assms(1-3), of rnd std_sort] run by auto
  have "?placed ! i = ?t"
    using el full i by (simp add: nth_spec_tasks g(1) spec_place_def spec_cpu_def split: option.split)
  then have t: "?t \<in> set ?placed" using i by (metis length_spec_tasks nth_mem)
  have cpu: "ot_assigned_cpu (?ts ! i) = -1" using assms(1) i by (simp add: ready_def fresh_def)
  have on: "?t \<in> set (on_node ?n ?placed)" using t by simp
  then have "on_node ?n ?placed \<noteq> []" by (metis empty_iff list.set(1))
  then have find: "omap_find (gs_sched_info_map gs') ?n = Some (map to_sched_task (on_node ?n ?placed))"
    using el unfolding g(2) schedules_of_find by (simp add: eligible_def)
  let ?st = "to_sched_task ?t"
  have neg: "ti_cpu_affinity (node_task ?st) = -1" by (simp add: node_task_def to_sched_task_def cpu)
  have "to_int32 (uint (-1 :: u64)) = -1" by (simp add: to_int32_def unsigned_minus_1_eq_mask mask_eq_exp_minus_1)
  then have pin: "calls (set_affinity pid (to_int32 (uint (-1 :: u64)))) s =
        [Kern Sysconf_nprocessors, Kern (Sched_setaffinity pid (CPU_SET 0 CPU_ZERO))]"
    if "0 \<le> to_int32 (ret (answers s (length (trace s)) (Kern Sysconf_nprocessors)))" for pid s
    using that by (simp add: set_affinity_def calls_def Let_def)
  have name: "st_task_name ?st = strncpy_field 16 (ot_name (?ts ! i))" by (simp add: to_sched_task_def)
  have mem: "?st \<in> set (map to_sched_task (on_node ?n ?placed))" using on by (metis imageI list.set_map)
  have pins: "filter is_setaffinity (calls (task_setup_process ev n) s) = [Kern (Sched_setaffinity pid (CPU_SET 0 CPU_ZERO))]"
    if "tt_task n = node_task ?st"
      and "run_state (get_pid_by_name (Some (ti_name (node_task ?st))) True) s = ((TTSCHED_SUCCESS, Some pid), s1)"
      and "0 \<le> to_int32 (ret (answers s1 (length (trace s1)) (Kern Sysconf_nprocessors)))" for ev n pid s s1
    using setup_pins [of n s pid ev] that pin [OF that(3), of pid] by (simp add: neg)
  show ?thesis
    by (intro exI [of _ "map to_sched_task (on_node ?n ?placed)"] exI [of _ ?st] conjI find mem name neg allI impI)
      (rule pins)
qed

lemma unplaced_task_on_cpu_0_witness:
  "\<exists>ok gs' entries st. schedule (\<lambda>x. x) (\<lambda>ts. ts) (\<lambda>n. True) ''target_node_priority'' sample_scheduler = Some (ok, gs') \<and>
     omap_find (gs_sched_info_map gs') ''n2'' = Some entries \<and> st \<in> set entries \<and>
     st_task_name st = strncpy_field 16 ''b'' \<and> ti_cpu_affinity (node_task st) = -1 \<and>
     (\<exists>s. filter is_setaffinity (calls (task_setup_process True (zero_time_trigger\<lparr>tt_task := node_task st\<rparr>)) s) =
       [Kern (Sched_setaffinity 7 (CPU_SET 0 CPU_ZERO))])"
proof -
  obtain s s1 where found: "run_state (get_pid_by_name (Some ''b'') True) s = ((TTSCHED_SUCCESS, Some 7), s1)"
      and nproc: "0 \<le> to_int32 (ret (answers s1 (length (trace s1)) (Kern Sysconf_nprocessors)))"
    using sample_found by blast
  let ?gs = sample_scheduler and ?a = "configured sample_manager"
  have ts: "gs_tasks ?gs = [sample_task ''a'', sample_task ''b'']" by (simp add: sample_scheduler_def set_tasks_def)
  obtain ok gs' where g: "schedule (\<lambda>x. x) (\<lambda>ts. ts) (\<lambda>n. True) ''target_node_priority'' ?gs = Some (ok, gs')"
      "gs_tasks gs' = spec_tasks (\<lambda>x. x) ?a (gs_tasks ?gs)"
    using schedule_target [OF sample_ready, of "\<lambda>n. True" "\<lambda>x. x" "\<lambda>ts. ts"] by auto
  have b: "gs_tasks ?gs ! 1 = sample_task ''b''" "1 < length (gs_tasks ?gs)" by (simp_all add: ts)
  have el: "eligible ?a (sample_task n)" and cpus: "omap_at [] ''n2'' ?a = [0]" for n
    by (simp_all add: eligible_def sample_task_def new_task_def configured_def sample_manager_def sample_nodes_def omap_at_def)
  have t: "task_utilization (\<lambda>x. x) (sample_task n) = 2 / 3" "\<not> has_affinity (sample_task n)"
      "ot_target_node (sample_task n) = ''n2''" for n
    by (simp_all add: task_utilization_def sample_task_def double_div_def double_of_u64_def has_affinity_def)
  have "take 1 (gs_tasks gs') = spec_tasks (\<lambda>x. x) ?a [sample_task ''a'']"
    unfolding g(2) take_spec_tasks ts by simp
  also have "\<dots> = [(sample_task ''a'')\<lparr>ot_assigned_node := ''n2'', ot_assigned_cpu := 0\<rparr>]"
    using el [of "''a''"] cpus
    by (simp add: t spec_tasks_def spec_place_def spec_cpu_def has_room_def double_add_def CPU_UTILIZATION_THRESHOLD_def)
  finally have "has_room (\<lambda>x. x) ?a (take 1 (gs_tasks gs')) (sample_task ''b'') = {}"
    using cpus by (simp add: t has_room_def load_def double_add_def CPU_UTILIZATION_THRESHOLD_def)
  from unplaced_task_on_cpu_0 [OF sample_ready _ g(1) b(2), unfolded b(1), OF _ el this] obtain entries st where
    st: "omap_find (gs_sched_info_map gs') ''n2'' = Some entries" "st \<in> set entries" "st_task_name st = strncpy_field 16 ''b''"
      "ti_cpu_affinity (node_task st) = -1"
    and pins: "\<And>ev n pid s s1. tt_task n = node_task st \<Longrightarrow>
      run_state (get_pid_by_name (Some (ti_name (node_task st))) True) s = ((TTSCHED_SUCCESS, Some pid), s1) \<Longrightarrow>
      0 \<le> to_int32 (ret (answers s1 (length (trace s1)) (Kern Sysconf_nprocessors))) \<Longrightarrow>
      filter is_setaffinity (calls (task_setup_process ev n) s) = [Kern (Sched_setaffinity pid (CPU_SET 0 CPU_ZERO))]"
    by (auto simp: t(3)) (simp add: sample_task_def)
  have name: "ti_name (node_task st) = ''b''" by (simp add: node_task_def st(3) strncpy_field_def cstr_def)
  have "filter is_setaffinity (calls (task_setup_process True (zero_time_trigger\<lparr>tt_task := node_task st\<rparr>)) s) =
      [Kern (Sched_setaffinity 7 (CPU_SET 0 CPU_ZERO))]"
    by (rule pins [unfolded name, OF _ found nproc]) simp
  with g(1) st show ?thesis by blast
qed

end
